(* ===== verification/Prelude.thy ===== *)
theory Prelude
  imports Complex_Main "HOL-Library.AList" "HOL-Library.Product_Lexorder"
begin

text \<open>
  Shared vocabulary of the development: the Python values that cross the wire
  (\<open>pyval\<close>), the exceptions the modelled modules raise (\<open>exn\<close>), the handful of
  language operations the sources use on them (truthiness, \<open>int()\<close>, \<open>str()\<close>,
  \<open>dict.get\<close>, \<open>str.strip\<close>, \<open>str.replace\<close>), and the generic lemmas on lists,
  association lists and row updates that the component proofs share.

  A string is a list of code points below 256. A dictionary is an association
  list with distinct keys in insertion order, which is what a Python \<open>dict\<close> is;
  \<open>AList.update\<close> overwrites in place or appends, \<open>AList.delete\<close> removes, exactly
  as \<open>d[k] = v\<close> and \<open>del d[k]\<close> do. A float is either a finite rational or one of
  the three special values; rounding to binary64 is not modelled, the overflow of
  \<open>float(int)\<close> is.
\<close>

named_theorems db_simps \<open>row-level facts about the task table\<close>
named_theorems state_simps \<open>facts about the seven task state names\<close>

subsection \<open>Values, dictionaries, exceptions\<close>

datatype pyfloat = Fin rat | PosInf | NegInf | NaN

datatype pyval =
    PNone
  | PBool bool
  | PInt int
  | PFloat pyfloat
  | PStr string
  | PList "pyval list"
  | PDict "(string \<times> pyval) list"
  | PObject string \<comment> \<open>a value with no JSON encoding (a set, a bytes object)\<close>

type_synonym pydict = "(string \<times> pyval) list"
type_synonym time = rat

datatype exn =
    ValueError
  | TypeError
  | OverflowError
  | KeyError
  | AttributeError
  | InvalidTaskTransition string string
  | UnknownTaskState string
  | UnknownTaskType string
  | InvalidTaskParameters string
  | InvalidTaskPolicy string
  | QueueLimitExceeded
  | MalformedResult string
  | ForeignKeyViolation
  | DatabaseError
  | StopIteration

definition dict_get :: "pydict \<Rightarrow> string \<Rightarrow> pyval" where
  "dict_get d k = (case map_of d k of None \<Rightarrow> PNone | Some v \<Rightarrow> v)"

definition dict_get_default :: "pydict \<Rightarrow> string \<Rightarrow> pyval \<Rightarrow> pyval" where
  "dict_get_default d k v0 = (case map_of d k of None \<Rightarrow> v0 | Some v \<Rightarrow> v)"

fun truthy :: "pyval \<Rightarrow> bool" where
  "truthy PNone = False"
| "truthy (PBool b) = b"
| "truthy (PInt n) = (n \<noteq> 0)"
| "truthy (PFloat (Fin r)) = (r \<noteq> 0)"
| "truthy (PFloat _) = True"
| "truthy (PStr s) = (s \<noteq> [])"
| "truthy (PList xs) = (xs \<noteq> [])"
| "truthy (PDict d) = (d \<noteq> [])"
| "truthy (PObject _) = True"

text \<open>\<open>x or y\<close>: the first operand when it is truthy, the second otherwise.\<close>

definition py_or :: "pyval \<Rightarrow> pyval \<Rightarrow> pyval" where
  "py_or x y = (if truthy x then x else y)"

text \<open>
  \<open>str(x)\<close>: the identity on a string. The \<open>repr\<close> of any other value is a
  parameter of the models that use it, since nothing depends on its text.
\<close>

fun py_str :: "(pyval \<Rightarrow> string) \<Rightarrow> pyval \<Rightarrow> string" where
  "py_str rp (PStr s) = s"
| "py_str rp v = rp v"

text \<open>\<open>str(payload.get(k) or default)\<close>, the idiom of every message handler.\<close>

definition get_str :: "(pyval \<Rightarrow> string) \<Rightarrow> pydict \<Rightarrow> string \<Rightarrow> string \<Rightarrow> string" where
  "get_str rp d k dflt = py_str rp (py_or (dict_get d k) (PStr dflt))"

lemma get_str_PStr [simp]:
  "map_of d k = Some (PStr s) \<Longrightarrow> s \<noteq> [] \<Longrightarrow> get_str rp d k dflt = s"
  by (simp add: get_str_def dict_get_def py_or_def)

lemma get_str_absent [simp]: "map_of d k = None \<Longrightarrow> get_str rp d k dflt = dflt"
  by (simp add: get_str_def dict_get_def py_or_def)

text \<open>\<open>message.get("payload") or \<lbrace>\<rbrace>\<close>; a payload that is no JSON object has no \<open>get\<close>.\<close>

definition payload_of :: "pydict \<Rightarrow> exn + pydict" where
  "payload_of msg = (case py_or (dict_get msg ''payload'') (PDict []) of
      PDict d \<Rightarrow> Inr d | _ \<Rightarrow> Inl AttributeError)"

subsection \<open>Text\<close>

definition is_space :: "char \<Rightarrow> bool" where
  "is_space c = (of_char c \<in> {9, 10, 11, 12, 13, 28, 29, 30, 31, 32, 133, 160 :: nat})"

definition strip_by :: "(char \<Rightarrow> bool) \<Rightarrow> string \<Rightarrow> string" where
  "strip_by p s = rev (dropWhile p (rev (dropWhile p s)))"

fun remove_sub :: "string \<Rightarrow> string \<Rightarrow> string" where
  "remove_sub p [] = []"
| "remove_sub p (c # cs) =
     (if p \<noteq> [] \<and> take (length p) (c # cs) = p
      then remove_sub p (drop (length p - 1) cs)
      else c # remove_sub p cs)"

definition digit_val :: "char \<Rightarrow> int option" where
  "digit_val c = (let n = of_char c :: int in
     if 48 \<le> n \<and> n \<le> 57 then Some (n - 48)
     else if 97 \<le> n \<and> n \<le> 122 then Some (n - 87)
     else if 65 \<le> n \<and> n \<le> 90 then Some (n - 55)
     else None)"

text \<open>
  The digits of \<open>int(s, base)\<close>: single underscores may stand between digits. The
  flag says whether the previous character was a digit.
\<close>

fun read_digits :: "int \<Rightarrow> int \<Rightarrow> bool \<Rightarrow> string \<Rightarrow> int option" where
  "read_digits b acc prev [] = (if prev then Some acc else None)"
| "read_digits b acc prev (c # cs) =
     (if c = CHR ''_'' then (if prev then read_digits b acc False cs else None)
      else case digit_val c of
          None \<Rightarrow> None
        | Some d \<Rightarrow> if d < b then read_digits b (acc * b + d) True cs else None)"

fun drop_base_prefix :: "int \<Rightarrow> string \<Rightarrow> string" where
  "drop_base_prefix b (c # d # cs) =
     (if b = 16 \<and> c = CHR ''0'' \<and> (d = CHR ''x'' \<or> d = CHR ''X'')
      then (case cs of e # es \<Rightarrow> if e = CHR ''_'' then es else cs | [] \<Rightarrow> cs)
      else c # d # cs)"
| "drop_base_prefix b s = s"

definition read_int :: "int \<Rightarrow> string \<Rightarrow> int option" where
  "read_int b s = (case strip_by is_space s of
      [] \<Rightarrow> None
    | c # cs \<Rightarrow>
        if c = CHR ''-'' then map_option uminus (read_digits b 0 False (drop_base_prefix b cs))
        else if c = CHR ''+'' then read_digits b 0 False (drop_base_prefix b cs)
        else read_digits b 0 False (drop_base_prefix b (c # cs)))"

text \<open>\<open>int(x)\<close> with the exception each argument type raises.\<close>

fun py_int :: "pyval \<Rightarrow> exn + int" where
  "py_int (PBool b) = Inr (if b then 1 else 0)"
| "py_int (PInt n) = Inr n"
| "py_int (PFloat (Fin r)) = Inr (if 0 \<le> r then \<lfloor>r\<rfloor> else \<lceil>r\<rceil>)"
| "py_int (PFloat NaN) = Inl ValueError"
| "py_int (PFloat _) = Inl OverflowError"
| "py_int (PStr s) = (case read_int 10 s of None \<Rightarrow> Inl ValueError | Some n \<Rightarrow> Inr n)"
| "py_int _ = Inl TypeError"

text \<open>\<open>float(n)\<close> of an integer overflows from half an ulp above the largest double.\<close>

definition float_limit :: int where
  "float_limit = 2 ^ 1024 - 2 ^ 970"

definition float_of_int :: "int \<Rightarrow> exn + pyfloat" where
  "float_of_int n = (if \<bar>n\<bar> < float_limit then Inr (Fin (of_int n)) else Inl OverflowError)"

text \<open>
  \<open>float(s)\<close>: an optional sign, digits with an optional point and exponent, or one
  of the names of the special values in any case. A value beyond the largest double
  is an infinity, not an error.
\<close>

definition to_lower :: "char \<Rightarrow> char" where
  "to_lower c = (let n = of_char c :: nat in if 65 \<le> n \<and> n \<le> 90 then char_of (n + 32) else c)"

definition digit_group :: "string \<Rightarrow> (int \<times> nat) option" where
  "digit_group s = (if s = [] then Some (0, 0)
     else map_option (\<lambda>v. (v, length (filter (\<lambda>c. c \<noteq> CHR ''_'') s))) (read_digits 10 0 False s))"

definition scale10 :: "rat \<Rightarrow> int \<Rightarrow> rat" where
  "scale10 m e = (if 0 \<le> e then m * 10 ^ nat e else m / 10 ^ nat (- e))"

definition read_mantissa :: "string \<Rightarrow> rat option" where
  "read_mantissa s =
     (let a = takeWhile (\<lambda>c. c \<noteq> CHR ''.'') s; b = drop (Suc (length a)) s
      in case (digit_group a, digit_group b) of
          (Some (n, i), Some (m, j)) \<Rightarrow>
            if i + j = 0 then None else Some (of_int n + of_int m / 10 ^ j)
        | _ \<Rightarrow> None)"

definition read_exponent :: "string \<Rightarrow> int option" where
  "read_exponent s = (case s of
      [] \<Rightarrow> None
    | c # cs \<Rightarrow> if c = CHR ''-'' then map_option uminus (read_digits 10 0 False cs)
        else if c = CHR ''+'' then read_digits 10 0 False cs
        else read_digits 10 0 False (c # cs))"

definition read_decimal :: "string \<Rightarrow> rat option" where
  "read_decimal s =
     (let a = takeWhile (\<lambda>c. to_lower c \<noteq> CHR ''e'') s
      in if length a = length s then read_mantissa s
         else case (read_mantissa a, read_exponent (drop (Suc (length a)) s)) of
             (Some m, Some e) \<Rightarrow> Some (scale10 m e)
           | _ \<Rightarrow> None)"

definition as_double :: "rat \<Rightarrow> pyfloat" where
  "as_double r = (if of_int float_limit \<le> r then PosInf
     else if r \<le> - of_int float_limit then NegInf else Fin r)"

definition read_float :: "string \<Rightarrow> pyfloat option" where
  "read_float s =
     (let t = strip_by is_space s;
          neg = (t \<noteq> [] \<and> hd t = CHR ''-'');
          u = (if t \<noteq> [] \<and> (hd t = CHR ''-'' \<or> hd t = CHR ''+'') then tl t else t);
          l = map to_lower u
      in if l = ''inf'' \<or> l = ''infinity'' then Some (if neg then NegInf else PosInf)
         else if l = ''nan'' then Some NaN
         else map_option (\<lambda>r. as_double (if neg then - r else r)) (read_decimal u))"

text \<open>\<open>float(x)\<close>.\<close>

fun py_float :: "pyval \<Rightarrow> exn + pyfloat" where
  "py_float (PBool b) = Inr (Fin (if b then 1 else 0))"
| "py_float (PInt n) = float_of_int n"
| "py_float (PFloat x) = Inr x"
| "py_float (PStr s) = (case read_float s of None \<Rightarrow> Inl ValueError | Some x \<Rightarrow> Inr x)"
| "py_float _ = Inl TypeError"

subsection \<open>Options and lists\<close>

text \<open>SQL \<open>LEAST(x, COALESCE(y, 'infinity'))\<close>.\<close>

fun least_opt :: "'a::linorder \<Rightarrow> 'a option \<Rightarrow> 'a" where
  "least_opt x None = x"
| "least_opt x (Some y) = min x y"

lemma least_opt_le: "least_opt x y \<le> x"
  by (cases y) auto

lemma least_opt_le_Some: "y = Some d \<Longrightarrow> least_opt x y \<le> d"
  by simp

text \<open>
  A comparison with a NULL column is NULL, and a WHERE clause treats NULL as false:
  \<open>opt_cmp p c\<close> is the truth of the predicate on a nullable column.
\<close>

fun opt_cmp :: "('a \<Rightarrow> bool) \<Rightarrow> 'a option \<Rightarrow> bool" where
  "opt_cmp p None = False"
| "opt_cmp p (Some x) = p x"

lemma opt_cmp_iff: "opt_cmp p c \<longleftrightarrow> (\<exists>x. c = Some x \<and> p x)"
  by (cases c) auto

text \<open>\<open>UPDATE rows SET f WHERE p\<close>.\<close>

definition update_where :: "('r \<Rightarrow> bool) \<Rightarrow> ('r \<Rightarrow> 'r) \<Rightarrow> 'r list \<Rightarrow> 'r list" where
  "update_where p f rows = map (\<lambda>r. if p r then f r else r) rows"

lemma update_where_Nil [simp]: "update_where p f [] = []"
  by (simp add: update_where_def)

lemma update_where_Cons [simp]:
  "update_where p f (r # rs) = (if p r then f r else r) # update_where p f rs"
  by (simp add: update_where_def)

lemma length_update_where [simp]: "length (update_where p f rows) = length rows"
  by (simp add: update_where_def)

lemma map_update_where:
  "(\<And>r. g (f r) = g r) \<Longrightarrow> map g (update_where p f rows) = map g rows"
  by (simp add: update_where_def)

lemma set_update_where:
  "set (update_where p f rows) = (\<lambda>r. if p r then f r else r) ` set rows"
  by (simp add: update_where_def)

lemma update_where_id: "(\<And>r. r \<in> set rows \<Longrightarrow> \<not> p r) \<Longrightarrow> update_where p f rows = rows"
  by (induction rows) auto

lemma filter_update_where:
  "(\<And>r. p (f r) = p r) \<Longrightarrow> filter p (update_where p f rows) = map f (filter p rows)"
  by (induction rows) auto

lemma take_filter_subset: "set (take n (sort_key k (filter p xs))) \<subseteq> {x \<in> set xs. p x}"
  using set_take_subset [of n "sort_key k (filter p xs)"] by auto

lemma distinct_map_take_sort_filter:
  "distinct (map g xs) \<Longrightarrow> distinct (map g (take n (sort_key k (filter p xs))))"
proof -
  assume d: "distinct (map g xs)"
  have "distinct (map g (filter p xs))"
    by (rule distinct_map_filter [OF d])
  then have "distinct (map g (sort_key k (filter p xs)))"
    by (simp add: distinct_map)
  then show ?thesis
    by (simp add: take_map [symmetric])
qed

lemma map_of_delete_same [simp]: "map_of (AList.delete k d) k = None"
  by (simp add: AList.delete_conv')

lemma length_delete_distinct:
  "distinct (map fst d) \<Longrightarrow>
   length (AList.delete k d) = (if k \<in> fst ` set d then length d - 1 else length d)"
proof (induction d)
  case Nil
  then show ?case by simp
next
  case (Cons p d)
  obtain a b where p: "p = (a, b)" by (cases p)
  show ?case
  proof (cases "a = k")
    case True
    with Cons.prems p have "k \<notin> fst ` set d" by auto
    with True p show ?thesis by (simp add: delete_simps delete_idem)
  next
    case False
    with Cons p have "k \<in> fst ` set d \<Longrightarrow> d \<noteq> []" by auto
    with False Cons p show ?thesis
      by (cases d) (auto simp: delete_simps)
  qed
qed

text \<open>Lookup by key in a list of rows.\<close>

lemma find_snoc:
  "find p (xs @ [y]) = (case find p xs of None \<Rightarrow> if p y then Some y else None | Some r \<Rightarrow> Some r)"
  by (induction xs) auto

lemma find_key: "find (\<lambda>r. k r = i) xs = Some r \<Longrightarrow> k r = i"
  by (induction xs) (auto split: if_splits)

lemma find_filter_key:
  "find (\<lambda>r. k r = i) (filter (\<lambda>r. k r \<noteq> j) xs) = (if i = j then None else find (\<lambda>r. k r = i) xs)"
  by (induction xs) auto

text \<open>\<open>ORDER BY k LIMIT n\<close>: nothing left behind comes before anything taken.\<close>

lemma take_sort_least:
  assumes "x \<in> set (take n (sort_key k (filter p xs)))" and "y \<in> set xs" "p y"
    and "y \<notin> set (take n (sort_key k (filter p xs)))"
  shows "k x \<le> k y"
proof -
  let ?s = "sort_key k (filter p xs)"
  have "y \<in> set ?s"
    using assms(2,3) by simp
  then have y: "y \<in> set (drop n ?s)"
    using assms(4) by (metis UnE append_take_drop_id set_append)
  have "sorted (map k (take n ?s) @ map k (drop n ?s))"
    by (simp flip: map_append)
  then show ?thesis
    using assms(1) y by (auto simp: sorted_append)
qed

lemma sorted_take_sort: "sorted (map k (take n (sort_key k xs)))"
  by (metis sorted_sort_key sorted_wrt_take take_map)

text \<open>Reading a list page by page returns it.\<close>

lemma pages_concat:
  "0 < n \<Longrightarrow> length xs \<le> m * n \<Longrightarrow> concat (map (\<lambda>k. take n (drop (k * n) xs)) [0..<m]) = xs"
proof (induction m arbitrary: xs)
  case (Suc m)
  have "concat (map (\<lambda>k. take n (drop (k * n) xs)) [0..<Suc m])
      = take n xs @ concat (map (\<lambda>k. take n (drop (k * n) (drop n xs))) [0..<m])"
    by (simp add: upt_conv_Cons map_Suc_upt [symmetric] comp_def drop_drop add.commute del: upt_Suc)
  also have "\<dots> = take n xs @ drop n xs"
    using Suc.IH [of "drop n xs"] Suc.prems by (simp only: length_drop) simp
  finally show ?case by (simp only: append_take_drop_id)
qed simp

end
