(* ===== verification/Uuid.thy ===== *)
theory Uuid
  imports Prelude "HOL-Library.Word"
begin

text \<open>
  The identifiers of workers, tasks, results and attempts. A \<open>uuid.UUID\<close> wraps a
  128-bit integer, so it is a \<open>128 word\<close> here. Every handler receives an identifier
  as text from an untrusted peer and parses it with \<open>uuid.UUID(text)\<close>, while the
  in-memory maps of the coordinator are keyed by the canonical text \<open>str(uuid)\<close>:
  the parser accepts many spellings of one identifier (upper case, braces, a
  \<open>urn:uuid:\<close> prefix, no dashes), the printer writes one. \<open>parse_uuid\<close> and
  \<open>uuid_str\<close> follow the standard library step by step, and the round trip
  \<open>parse_uuid_str\<close> is what lets the models of the handlers identify a canonical
  text with its identifier.
\<close>

type_synonym uuid = "128 word"

definition hex_digit :: "nat \<Rightarrow> char" where
  "hex_digit n = ''0123456789abcdef'' ! n"

text \<open>\<open>'%0kx' % n\<close> for \<open>n < 16 ^ k\<close>.\<close>

fun hex_digits :: "nat \<Rightarrow> nat \<Rightarrow> string" where
  "hex_digits 0 n = []"
| "hex_digits (Suc k) n = hex_digits k (n div 16) @ [hex_digit (n mod 16)]"

definition with_dashes :: "string \<Rightarrow> string" where
  "with_dashes h = take 8 h @ ''-'' @ take 4 (drop 8 h) @ ''-'' @ take 4 (drop 12 h)
     @ ''-'' @ take 4 (drop 16 h) @ ''-'' @ drop 20 h"

definition uuid_str :: "uuid \<Rightarrow> string" where
  "uuid_str u = with_dashes (hex_digits 32 (unat u))"

definition parse_uuid :: "string \<Rightarrow> uuid option" where
  "parse_uuid s =
     (let a = remove_sub ''uuid:'' (remove_sub ''urn:'' s);
          h = filter (\<lambda>c. c \<noteq> CHR ''-'') (strip_by (\<lambda>c. c = CHR ''{'' \<or> c = CHR ''}'') a)
      in if length h \<noteq> 32 then None
         else case read_int 16 h of
             None \<Rightarrow> None
           | Some n \<Rightarrow> if 0 \<le> n \<and> n < 2 ^ 128 then Some (word_of_int n) else None)"

subsection \<open>Hexadecimal digits\<close>

definition is_hex :: "char \<Rightarrow> bool" where
  "is_hex c \<longleftrightarrow> c \<in> set ''0123456789abcdef''"

lemma less_16_cases: "(n::nat) < 16 \<Longrightarrow> n \<in> set [0..<16]"
  by simp

lemma is_hex_hex_digit: "n < 16 \<Longrightarrow> is_hex (hex_digit n)"
  by (drule less_16_cases) (auto simp: upt_rec is_hex_def hex_digit_def)

lemma digit_val_hex_digit: "n < 16 \<Longrightarrow> digit_val (hex_digit n) = Some (int n)"
  by (drule less_16_cases) (auto simp: upt_rec digit_val_def hex_digit_def Let_def)

lemma is_hex_not_special:
  "is_hex c \<Longrightarrow> c \<noteq> CHR ''-'' \<and> c \<noteq> CHR ''+'' \<and> c \<noteq> CHR ''_'' \<and> c \<noteq> CHR ''{'' \<and> c \<noteq> CHR ''}''
     \<and> c \<noteq> CHR ''u'' \<and> c \<noteq> CHR ''x'' \<and> c \<noteq> CHR ''X''"
  by (auto simp: is_hex_def)

lemma is_hex_not_space: "is_hex c \<Longrightarrow> \<not> is_space c"
  by (auto simp: is_hex_def is_space_def)

lemma length_hex_digits [simp]: "length (hex_digits k n) = k"
  by (induction k arbitrary: n) auto

lemma hex_digits_is_hex: "\<forall>c \<in> set (hex_digits k n). is_hex c"
  by (induction k arbitrary: n) (auto intro: is_hex_hex_digit)

lemma read_digits_append:
  "\<forall>c \<in> set xs. is_hex c \<Longrightarrow> read_digits 16 acc p xs = Some v \<Longrightarrow> xs \<noteq> [] \<Longrightarrow>
   read_digits 16 acc p (xs @ ys) = read_digits 16 v True ys"
proof (induction xs arbitrary: acc p)
  case Nil
  then show ?case by simp
next
  case (Cons c cs)
  then have nu: "c \<noteq> CHR ''_''" using is_hex_not_special by auto
  with Cons.prems obtain d where d: "digit_val c = Some d" "d < 16"
      "read_digits 16 (acc * 16 + d) True cs = Some v"
    by (auto split: option.splits if_splits)
  show ?case
  proof (cases cs)
    case Nil
    with d nu show ?thesis by simp
  next
    case (Cons c' cs')
    with d nu Cons.IH [of "acc * 16 + d" True] Cons.prems show ?thesis by simp
  qed
qed

lemma read_hex_digits:
  "read_digits 16 acc p (hex_digits (Suc k) n) = Some (acc * 16 ^ Suc k + int (n mod 16 ^ Suc k))"
proof (induction k arbitrary: n acc)
  case 0
  have "is_hex (hex_digit (n mod 16))" by (rule is_hex_hex_digit) simp
  then show ?case by (simp add: digit_val_hex_digit is_hex_not_special)
next
  case (Suc k)
  have h: "is_hex (hex_digit (n mod 16))" by (rule is_hex_hex_digit) simp
  have "hex_digits (Suc k) (n div 16) \<noteq> []" by simp
  from read_digits_append [OF hex_digits_is_hex Suc this, where ys = "[hex_digit (n mod 16)]"]
  have "read_digits 16 acc p (hex_digits (Suc (Suc k)) n) =
      Some ((acc * 16 ^ Suc k + int (n div 16 mod 16 ^ Suc k)) * 16 + int (n mod 16))"
    using h by (simp add: digit_val_hex_digit is_hex_not_special)
  also have "int (n div 16 mod 16 ^ Suc k) * 16 + int (n mod 16) = int (n mod 16 ^ Suc (Suc k))"
  proof -
    have "n mod (16 * 16 ^ Suc k) = 16 * (n div 16 mod 16 ^ Suc k) + n mod 16"
      by (rule mod_mult2_eq)
    then show ?thesis by simp
  qed
  then have "(acc * 16 ^ Suc k + int (n div 16 mod 16 ^ Suc k)) * 16 + int (n mod 16) =
      acc * 16 ^ Suc (Suc k) + int (n mod 16 ^ Suc (Suc k))"
    by (simp add: algebra_simps)
  finally show ?case .
qed

subsection \<open>The round trip\<close>

lemma remove_sub_absent: "p \<noteq> [] \<Longrightarrow> hd p \<notin> set s \<Longrightarrow> remove_sub p s = s"
proof (induction s)
  case (Cons c cs)
  have "take (length p) (c # cs) \<noteq> p"
  proof
    assume "take (length p) (c # cs) = p"
    then have "hd (take (length p) (c # cs)) = hd p" by simp
    then have "c = hd p" using Cons.prems(1) by (cases "length p") auto
    with Cons.prems(2) show False by simp
  qed
  with Cons show ?case by simp
qed simp

lemma strip_by_none: "s \<noteq> [] \<Longrightarrow> \<not> p (hd s) \<Longrightarrow> \<not> p (last s) \<Longrightarrow> strip_by p s = s"
proof -
  assume s: "s \<noteq> []" "\<not> p (hd s)" "\<not> p (last s)"
  then have "dropWhile p s = s" by (cases s) auto
  moreover from s have "dropWhile p (rev s) = rev s"
    by (cases s rule: rev_cases) auto
  ultimately show ?thesis by (simp add: strip_by_def)
qed

lemma set_with_dashes: "length h = 32 \<Longrightarrow> set (with_dashes h) \<subseteq> insert CHR ''-'' (set h)"
  by (auto simp: with_dashes_def dest: in_set_takeD in_set_dropD)

lemma filter_with_dashes:
  assumes "length h = 32" and "CHR ''-'' \<notin> set h"
  shows "filter (\<lambda>c. c \<noteq> CHR ''-'') (with_dashes h) = h"
proof -
  have f: "filter (\<lambda>c. c \<noteq> CHR ''-'') xs = xs" if "set xs \<subseteq> set h" for xs
    using that assms(2) by (induction xs) auto
  have "filter (\<lambda>c. c \<noteq> CHR ''-'') (with_dashes h) = take 8 h @ take 4 (drop 8 h)
      @ take 4 (drop 12 h) @ take 4 (drop 16 h) @ drop 20 h"
    using f [of "take 8 h"] f [of "take 4 (drop 8 h)"] f [of "take 4 (drop 12 h)"]
      f [of "take 4 (drop 16 h)"] f [of "drop 20 h"]
    by (simp add: with_dashes_def set_take_subset set_drop_subset
        order_trans [OF set_take_subset set_drop_subset])
  also have "\<dots> = h"
    using append_take_drop_id [of 4 "drop 16 h"] append_take_drop_id [of 4 "drop 12 h"]
      append_take_drop_id [of 4 "drop 8 h"] append_take_drop_id [of 8 h] by simp
  finally show ?thesis .
qed

lemma drop_base_prefix_hex: "\<forall>c \<in> set s. is_hex c \<Longrightarrow> drop_base_prefix b s = s"
proof (cases s)
  case (Cons c t)
  assume hex: "\<forall>c \<in> set s. is_hex c"
  show ?thesis
  proof (cases t)
    case Nil
    then show ?thesis using Cons by simp
  next
    case (Cons d cs)
    with hex \<open>s = c # t\<close> have "is_hex d" by simp
    then have "d \<noteq> CHR ''x''" and "d \<noteq> CHR ''X''" using is_hex_not_special by blast+
    then show ?thesis using Cons \<open>s = c # t\<close> by (simp only: drop_base_prefix.simps) simp
  qed
qed simp

lemma read_int_hex_digits:
  "read_int 16 (hex_digits (Suc k) n) = Some (int (n mod 16 ^ Suc k))"
proof -
  let ?h = "hex_digits (Suc k) n"
  have ne: "?h \<noteq> []" by simp
  have hex: "\<forall>c \<in> set ?h. is_hex c" by (rule hex_digits_is_hex)
  have "is_hex (hd ?h)" and "is_hex (last ?h)"
    using hex hd_in_set [OF ne] last_in_set [OF ne] by blast+
  then have st: "strip_by is_space ?h = ?h"
    using strip_by_none [OF ne] is_hex_not_space by blast
  obtain c cs where c: "?h = c # cs" using ne by (cases ?h) auto
  then have "is_hex c" using hex by simp
  then have nc: "c \<noteq> CHR ''-''" "c \<noteq> CHR ''+''" using is_hex_not_special by auto
  have dp: "drop_base_prefix 16 (c # cs) = c # cs"
    using drop_base_prefix_hex [OF hex] c by simp
  have "read_int 16 ?h = read_digits 16 0 False (c # cs)"
    unfolding read_int_def st unfolding c using nc dp by simp
  also have "\<dots> = Some (int (n mod 16 ^ Suc k))"
    using read_hex_digits [of 0 False k n] c by simp
  finally show ?thesis .
qed

lemma parse_uuid_str_aux:
  assumes h: "h = hex_digits 32 (unat u)"
  shows "strip_by (\<lambda>c. c = CHR ''{'' \<or> c = CHR ''}'') (remove_sub ''uuid:'' (remove_sub ''urn:'' (with_dashes h)))
    = with_dashes h"
proof -
  have len: "length h = 32" and hex: "\<forall>c \<in> set h. is_hex c"
    using h hex_digits_is_hex by auto
  have mem: "c = CHR ''-'' \<or> is_hex c" if "c \<in> set (with_dashes h)" for c
    using that set_with_dashes [OF len] hex by auto
  have "CHR ''u'' \<notin> set (with_dashes h)"
    using mem is_hex_not_special by force
  then have r: "remove_sub ''uuid:'' (remove_sub ''urn:'' (with_dashes h)) = with_dashes h"
    by (simp add: remove_sub_absent)
  have ne: "with_dashes h \<noteq> []" by (simp add: with_dashes_def)
  have "\<not> (c = CHR ''{'' \<or> c = CHR ''}'')" if "c \<in> set (with_dashes h)" for c
    using mem [OF that] is_hex_not_special by force
  then show ?thesis
    using strip_by_none [OF ne] hd_in_set [OF ne] last_in_set [OF ne] r by auto
qed

lemma Suc_31: "Suc 31 = 32"
  by simp

lemma parse_uuid_str: "parse_uuid (uuid_str u) = Some u"
proof -
  define h where "h = hex_digits 32 (unat u)"
  have len: "length h = 32" by (simp add: h_def)
  have nd: "CHR ''-'' \<notin> set h"
    using hex_digits_is_hex [of 32 "unat u"] is_hex_not_special h_def by auto
  have lt: "unat u < 2 ^ 128"
    using unsigned_less [of u, where 'a = nat] by simp
  have "read_int 16 h = Some (int (unat u mod 16 ^ 32))"
    using read_int_hex_digits [of 31 "unat u"] unfolding h_def Suc_31 .
  also have "unat u mod 16 ^ 32 = unat u" using lt by simp
  finally have ri: "read_int 16 h = Some (int (unat u))" .
  have "int (unat u) < int (2 ^ 128)" using lt by (simp only: of_nat_less_iff)
  then have b: "0 \<le> int (unat u) \<and> int (unat u) < 2 ^ 128" by simp
  have w: "word_of_int (int (unat u)) = u"
    by (simp only: of_nat_unat word_of_int_uint)
  have f: "filter (\<lambda>c. c \<noteq> CHR ''-'') (strip_by (\<lambda>c. c = CHR ''{'' \<or> c = CHR ''}'')
      (remove_sub ''uuid:'' (remove_sub ''urn:'' (uuid_str u)))) = h"
    unfolding uuid_str_def h_def [symmetric] parse_uuid_str_aux [OF h_def]
    by (rule filter_with_dashes [OF len nd])
  show ?thesis
    unfolding parse_uuid_def Let_def f len ri
    by (simp only: option.case if_True b w simp_thms if_False)
qed

lemma uuid_str_inject [simp]: "uuid_str u = uuid_str v \<longleftrightarrow> u = v"
proof
  assume "uuid_str u = uuid_str v"
  then have "parse_uuid (uuid_str u) = parse_uuid (uuid_str v)" by simp
  then have "Some u = Some v" by (simp only: parse_uuid_str)
  then show "u = v" by simp
qed simp

lemma uuid_str_nonempty [simp]: "uuid_str u \<noteq> []"
  by (simp add: uuid_str_def with_dashes_def)

end
