(* ===== verification/TaskStates.thy ===== *)
theory TaskStates
  imports Prelude
begin

text \<open>
  \<open>coordinator/app/task_states.py\<close>: the seven state names, the table of legal moves
  and \<open>check_transition\<close>, the single authority every write of \<open>tasks.status\<close>
  consults. The interface \<open>status_machine\<close> states what the writers rely on: a move
  to the same state is never written, a recognised move stays inside the known
  states, and a terminal state has no way out.
\<close>

definition QUEUED :: string where "QUEUED = ''QUEUED''"
definition ASSIGNED :: string where "ASSIGNED = ''ASSIGNED''"
definition RUNNING :: string where "RUNNING = ''RUNNING''"
definition COMPLETED :: string where "COMPLETED = ''COMPLETED''"
definition FAILED :: string where "FAILED = ''FAILED''"
definition CANCELLED :: string where "CANCELLED = ''CANCELLED''"
definition REASSIGNED :: string where "REASSIGNED = ''REASSIGNED''"

lemmas state_defs = QUEUED_def ASSIGNED_def RUNNING_def COMPLETED_def FAILED_def
  CANCELLED_def REASSIGNED_def

lemma states_distinct [simp, state_simps]:
  "QUEUED \<noteq> ASSIGNED" "QUEUED \<noteq> RUNNING" "QUEUED \<noteq> COMPLETED" "QUEUED \<noteq> FAILED"
  "QUEUED \<noteq> CANCELLED" "QUEUED \<noteq> REASSIGNED" "ASSIGNED \<noteq> RUNNING" "ASSIGNED \<noteq> COMPLETED"
  "ASSIGNED \<noteq> FAILED" "ASSIGNED \<noteq> CANCELLED" "ASSIGNED \<noteq> REASSIGNED" "RUNNING \<noteq> COMPLETED"
  "RUNNING \<noteq> FAILED" "RUNNING \<noteq> CANCELLED" "RUNNING \<noteq> REASSIGNED" "COMPLETED \<noteq> FAILED"
  "COMPLETED \<noteq> CANCELLED" "COMPLETED \<noteq> REASSIGNED" "FAILED \<noteq> CANCELLED"
  "FAILED \<noteq> REASSIGNED" "CANCELLED \<noteq> REASSIGNED"
  by (simp_all add: state_defs)

lemmas states_distinct_sym [simp, state_simps] = states_distinct [symmetric]

definition TASK_STATES :: "string set" where
  "TASK_STATES = {QUEUED, ASSIGNED, RUNNING, COMPLETED, FAILED, CANCELLED, REASSIGNED}"

definition TERMINAL_STATES :: "string set" where
  "TERMINAL_STATES = {COMPLETED, FAILED, CANCELLED}"

definition ALLOWED :: "string \<rightharpoonup> string set" where
  "ALLOWED = [QUEUED \<mapsto> {ASSIGNED, CANCELLED},
     ASSIGNED \<mapsto> {RUNNING, FAILED, CANCELLED, QUEUED},
     RUNNING \<mapsto> {COMPLETED, FAILED, CANCELLED, QUEUED},
     COMPLETED \<mapsto> {}, FAILED \<mapsto> {}, CANCELLED \<mapsto> {}, REASSIGNED \<mapsto> {}]"

definition is_terminal :: "string \<Rightarrow> exn + bool" where
  "is_terminal s =
     (if s \<notin> TASK_STATES then Inl (UnknownTaskState s) else Inr (s \<in> TERMINAL_STATES))"

definition check_transition :: "string \<Rightarrow> string \<Rightarrow> exn + bool" where
  "check_transition current new =
     (if current \<notin> TASK_STATES then Inl (UnknownTaskState current)
      else if new \<notin> TASK_STATES then Inl (UnknownTaskState new)
      else if current = new then Inr False
      else case ALLOWED current of
          None \<Rightarrow> Inl KeyError
        | Some targets \<Rightarrow>
            if new \<notin> targets then Inl (InvalidTaskTransition current new) else Inr True)"

definition live_status :: "string \<Rightarrow> bool" where
  "live_status s \<longleftrightarrow> s = ASSIGNED \<or> s = RUNNING"

lemma live_status_simps [simp, state_simps]:
  "live_status ASSIGNED" "live_status RUNNING" "\<not> live_status QUEUED"
  "\<not> live_status COMPLETED" "\<not> live_status FAILED" "\<not> live_status CANCELLED"
  "\<not> live_status REASSIGNED"
  by (simp_all add: live_status_def)

lemma TERMINAL_mem [simp, state_simps]:
  "COMPLETED \<in> TERMINAL_STATES" "FAILED \<in> TERMINAL_STATES" "CANCELLED \<in> TERMINAL_STATES"
  "QUEUED \<notin> TERMINAL_STATES" "ASSIGNED \<notin> TERMINAL_STATES" "RUNNING \<notin> TERMINAL_STATES"
  by (simp_all add: TERMINAL_STATES_def)

lemma TASK_mem [simp, state_simps]:
  "QUEUED \<in> TASK_STATES" "ASSIGNED \<in> TASK_STATES" "RUNNING \<in> TASK_STATES"
  "COMPLETED \<in> TASK_STATES" "FAILED \<in> TASK_STATES" "CANCELLED \<in> TASK_STATES"
  "REASSIGNED \<in> TASK_STATES"
  by (simp_all add: TASK_STATES_def)

lemma terminal_known: "s \<in> TERMINAL_STATES \<Longrightarrow> s \<in> TASK_STATES"
  by (auto simp: TERMINAL_STATES_def)

lemma live_not_terminal: "live_status s \<Longrightarrow> s \<notin> TERMINAL_STATES"
  by (auto simp: live_status_def)

lemma is_terminal_simps [simp]:
  "is_terminal QUEUED = Inr False" "is_terminal ASSIGNED = Inr False"
  "is_terminal RUNNING = Inr False" "is_terminal COMPLETED = Inr True"
  "is_terminal FAILED = Inr True" "is_terminal CANCELLED = Inr True"
  by (simp_all add: is_terminal_def)

lemma is_terminal_known: "s \<in> TASK_STATES \<Longrightarrow> is_terminal s = Inr (s \<in> TERMINAL_STATES)"
  by (simp add: is_terminal_def)

definition legal_moves :: "(string \<times> string) set" where
  "legal_moves = {(QUEUED, ASSIGNED), (QUEUED, CANCELLED), (ASSIGNED, RUNNING), (ASSIGNED, FAILED),
     (ASSIGNED, CANCELLED), (ASSIGNED, QUEUED), (RUNNING, COMPLETED), (RUNNING, FAILED),
     (RUNNING, CANCELLED), (RUNNING, QUEUED)}"

lemma check_transition_write: "check_transition s t = Inr True \<longleftrightarrow> (s, t) \<in> legal_moves"
proof (cases "s \<in> TASK_STATES \<and> t \<in> TASK_STATES \<and> s \<noteq> t")
  case True
  then consider "s = QUEUED" | "s = ASSIGNED" | "s = RUNNING" | "s = COMPLETED"
    | "s = FAILED" | "s = CANCELLED" | "s = REASSIGNED"
    by (auto simp: TASK_STATES_def)
  then show ?thesis
    using True by cases (simp_all add: check_transition_def ALLOWED_def legal_moves_def)
next
  case False
  then show ?thesis
    by (auto simp: check_transition_def legal_moves_def split: if_splits)
qed

lemma check_transition_noop: "check_transition s t = Inr False \<longleftrightarrow> s = t \<and> s \<in> TASK_STATES"
  by (auto simp: check_transition_def split: if_splits option.splits)

lemma check_transition_known: "check_transition s t = Inr b \<Longrightarrow> s \<in> TASK_STATES \<and> t \<in> TASK_STATES"
  by (auto simp: check_transition_def split: if_splits)

lemma ALLOWED_dom: "s \<in> TASK_STATES \<Longrightarrow> \<exists>ts. ALLOWED s = Some ts"
  by (auto simp: TASK_STATES_def ALLOWED_def)

lemma check_transition_illegal:
  "s \<in> TASK_STATES \<Longrightarrow> t \<in> TASK_STATES \<Longrightarrow> s \<noteq> t \<Longrightarrow> (s, t) \<notin> legal_moves \<Longrightarrow>
   check_transition s t = Inl (InvalidTaskTransition s t)"
  using check_transition_write [of s t] ALLOWED_dom [of s]
  by (auto simp: check_transition_def split: if_splits option.splits)

lemma check_transition_moves [simp]:
  "check_transition QUEUED ASSIGNED = Inr True" "check_transition QUEUED CANCELLED = Inr True"
  "check_transition ASSIGNED RUNNING = Inr True" "check_transition RUNNING COMPLETED = Inr True"
  "check_transition ASSIGNED FAILED = Inr True" "check_transition RUNNING FAILED = Inr True"
  "check_transition ASSIGNED QUEUED = Inr True" "check_transition RUNNING QUEUED = Inr True"
  by (simp_all add: check_transition_write legal_moves_def)

subsection \<open>The interface of the state machine\<close>

fun checked_path :: "(string \<Rightarrow> string \<Rightarrow> exn + bool) \<Rightarrow> string \<Rightarrow> string list \<Rightarrow> bool" where
  "checked_path check s [] = True"
| "checked_path check s (t # ts) = (check s t = Inr True \<and> checked_path check t ts)"

locale status_machine =
  fixes check :: "string \<Rightarrow> string \<Rightarrow> exn + bool"
    and known :: "string set"
    and final :: "string set"
  assumes check_same: "s \<in> known \<Longrightarrow> check s s = Inr False"
    and check_known: "check s t = Inr b \<Longrightarrow> s \<in> known \<and> t \<in> known"
    and final_stuck: "s \<in> final \<Longrightarrow> check s t \<noteq> Inr True"
    and final_known: "final \<subseteq> known"
begin

lemma write_changes: "check s t = Inr True \<Longrightarrow> s \<noteq> t"
  using check_same [of s] check_known [of s t True] by auto

lemma final_path: "s \<in> final \<Longrightarrow> checked_path check s ts \<Longrightarrow> ts = []"
  using final_stuck by (cases ts) auto

lemma path_known: "s \<in> known \<Longrightarrow> checked_path check s ts \<Longrightarrow> set ts \<subseteq> known"
  using check_known by (induction ts arbitrary: s) auto

lemma path_final_last:
  "checked_path check s ts \<Longrightarrow> i < length ts \<Longrightarrow> ts ! i \<in> final \<Longrightarrow> Suc i = length ts"
proof (induction ts arbitrary: s i)
  case (Cons t ts)
  show ?case
  proof (cases i)
    case 0
    with Cons.prems final_path show ?thesis by auto
  next
    case (Suc j)
    with Cons show ?thesis by auto
  qed
qed simp

end

interpretation task_machine: status_machine check_transition TASK_STATES TERMINAL_STATES
proof unfold_locales
  show "check_transition s s = Inr False" if "s \<in> TASK_STATES" for s
    using that by (simp add: check_transition_noop)
  show "s \<in> TASK_STATES \<and> t \<in> TASK_STATES" if "check_transition s t = Inr b" for s t b
    using that by (rule check_transition_known)
  show "check_transition s t \<noteq> Inr True" if "s \<in> TERMINAL_STATES" for s t
    using that by (auto simp: check_transition_write legal_moves_def TERMINAL_STATES_def)
  show "TERMINAL_STATES \<subseteq> TASK_STATES"
    using terminal_known by auto
qed

end
