(* ===== verification/Base64.thy ===== *)
theory Base64
  imports Prelude
begin

text \<open>
  Base64 as the standard library's \<open>base64.b64decode(s, validate=True)\<close> and
  \<open>base64.b64encode\<close> do it, used by the parameter check of the \<open>opaque_payload\<close> task
  type and by its executor. Bytes are naturals below 256. The strict decoder takes
  groups of four characters, allows padding in the last group only and does not
  look at the unused low bits of a padded group.
\<close>

definition b64_alphabet :: string where
  "b64_alphabet = ''ABCDEFGHIJKLMNOPQRSTUVWXYZabcdefghijklmnopqrstuvwxyz0123456789+/''"

definition b64_char :: "nat \<Rightarrow> char" where
  "b64_char n = b64_alphabet ! n"

definition b64_val :: "char \<Rightarrow> nat option" where
  "b64_val c = map_of (zip b64_alphabet [0..<64]) c"

fun b64_encode :: "nat list \<Rightarrow> string" where
  "b64_encode [] = []"
| "b64_encode [a] = [b64_char (a div 4), b64_char (a mod 4 * 16), CHR ''='', CHR ''='']"
| "b64_encode [a, b] = [b64_char (a div 4), b64_char (a mod 4 * 16 + b div 16),
     b64_char (b mod 16 * 4), CHR ''='']"
| "b64_encode (a # b # c # bs) = b64_char (a div 4) # b64_char (a mod 4 * 16 + b div 16)
     # b64_char (b mod 16 * 4 + c div 64) # b64_char (c mod 64) # b64_encode bs"

fun b64_decode :: "string \<Rightarrow> nat list option" where
  "b64_decode [] = Some []"
| "b64_decode (p # q # r # s # cs) =
     (case (b64_val p, b64_val q) of
        (Some i, Some j) \<Rightarrow>
          if r = CHR ''='' then (if s = CHR ''='' \<and> cs = [] then Some [i * 4 + j div 16] else None)
          else (case b64_val r of
              None \<Rightarrow> None
            | Some k \<Rightarrow>
                if s = CHR ''='' then
                  (if cs = [] then Some [i * 4 + j div 16, j mod 16 * 16 + k div 4] else None)
                else (case (b64_val s, b64_decode cs) of
                    (Some l, Some bs) \<Rightarrow>
                      Some ((i * 4 + j div 16) # (j mod 16 * 16 + k div 4) # (k mod 4 * 64 + l) # bs)
                  | _ \<Rightarrow> None))
      | _ \<Rightarrow> None)"
| "b64_decode _ = None"

lemma distinct_alphabet: "distinct b64_alphabet" "length b64_alphabet = 64"
    "CHR ''='' \<notin> set b64_alphabet"
  by (simp_all add: b64_alphabet_def)

lemma b64_val_char [simp]: "n < 64 \<Longrightarrow> b64_val (b64_char n) = Some n"
  using map_of_zip_nth [of b64_alphabet "[0..<64]" n] distinct_alphabet
  by (simp add: b64_val_def b64_char_def)

lemma b64_char_pad [simp]: "n < 64 \<Longrightarrow> b64_char n \<noteq> CHR ''=''"
  unfolding b64_char_def using nth_mem [of n b64_alphabet] distinct_alphabet by metis

lemma split_radix: "(r::nat) < k \<Longrightarrow> (m * k + r) div k = m \<and> (m * k + r) mod k = r"
  by simp

lemma b64_small:
  "(b::nat) < 256 \<Longrightarrow> b div 16 < 16" "b < 256 \<Longrightarrow> b div 64 < 4" "b < 256 \<Longrightarrow> b div 4 < 64"
  by (simp_all add: less_mult_imp_div_less)

lemma b64_group1:
  assumes "(x::nat) < 256"
  shows "a div 4 * 4 + (a mod 4 * 16 + x div 16) div 16 = a"
  using split_radix [OF b64_small(1) [OF assms], of "a mod 4"] by simp

lemma b64_group2:
  assumes "(b::nat) < 256" and "y < 4"
  shows "(a mod 4 * 16 + b div 16) mod 16 * 16 + (b mod 16 * 4 + y) div 4 = b"
  using split_radix [OF b64_small(1) [OF assms(1)], of "a mod 4"]
    split_radix [OF assms(2), of "b mod 16"] by simp

lemma b64_group3:
  assumes "(c::nat) < 256"
  shows "(b mod 16 * 4 + c div 64) mod 4 * 64 + c mod 64 = c"
  using split_radix [OF b64_small(2) [OF assms], of "b mod 16"] by simp

lemma b64_sextet: "(a::nat) < 2 ^ i \<Longrightarrow> r < 2 ^ j \<Longrightarrow> a * 2 ^ j + r < 2 ^ (i + j)"
proof -
  assume a: "a < 2 ^ i" and r: "r < 2 ^ j"
  from r have "a * 2 ^ j + r < Suc a * 2 ^ j" by simp
  also have "\<dots> \<le> 2 ^ i * 2 ^ j" using a by (intro mult_le_mono1) simp
  finally show ?thesis by (simp add: power_add)
qed

lemma b64_sextets:
  "(b::nat) < 256 \<Longrightarrow> a mod 4 * 16 + b div 16 < 64"
  "c < 256 \<Longrightarrow> b mod 16 * 4 + c div 64 < 64"
  using b64_sextet [of "a mod 4" 2 "b div 16" 4] b64_sextet [of "b mod 16" 4 "c div 64" 2]
    b64_small [of b] b64_small [of c] by simp_all

lemmas b64_bounds = b64_small b64_sextets b64_sextets(1) [of 0, simplified]
  b64_sextets(2) [of 0, simplified]

lemma b64_decode_encode: "\<forall>b \<in> set bs. b < 256 \<Longrightarrow> b64_decode (b64_encode bs) = Some bs"
proof (induction bs rule: b64_encode.induct)
  case 1
  then show ?case by simp
next
  case (2 a)
  then show ?case using b64_group1 [of 0 a] by (simp add: b64_bounds)
next
  case (3 a b)
  then show ?case using b64_group1 [of b a] b64_group2 [of b 0 a] by (simp add: b64_bounds)
next
  case (4 a b c bs)
  then have "a < 256" "b < 256" "c < 256" "b64_decode (b64_encode bs) = Some bs" by auto
  then show ?case
    using b64_group1 [of b a] b64_group2 [of b "c div 64" a] b64_group3 [of c b]
    by (simp add: b64_bounds)
qed

lemma b64_decode_bytes: "b64_decode s = Some bs \<Longrightarrow> 4 * length bs \<le> 3 * length s"
proof (induction s arbitrary: bs rule: b64_decode.induct)
  case (2 p q r s cs)
  then show ?case
    by (fastforce split: option.splits if_splits)
qed auto

end
