(* ===== verification/Config.thy ===== *)
theory Config
  imports Prelude
begin

text \<open>
  \<open>coordinator/app/config.py\<close>: every tunable is read from the process environment,
  with the default the source writes. The environment is a map from names to
  strings; a missing required variable is \<open>KeyError\<close>, a malformed number
  \<open>ValueError\<close>. \<open>settings\<close> collects the values the other components read, and
  \<open>settings_of_env\<close> is how they come from the environment, so that a theorem about
  all settings covers every deployment and one about \<open>default_settings\<close> covers
  a deployment that sets none of the variables. A deployment whose float variables
  are infinite or not a number has no \<open>settings\<close>.
\<close>

type_synonym environ = "string \<rightharpoonup> string"

definition env_required :: "environ \<Rightarrow> string \<Rightarrow> exn + string" where
  "env_required env k = (case env k of None \<Rightarrow> Inl KeyError | Some v \<Rightarrow> Inr v)"

definition env_get :: "environ \<Rightarrow> string \<Rightarrow> string \<Rightarrow> string" where
  "env_get env k d = (case env k of None \<Rightarrow> d | Some v \<Rightarrow> v)"

definition env_int :: "environ \<Rightarrow> string \<Rightarrow> string \<Rightarrow> exn + int" where
  "env_int env k d = py_int (PStr (env_get env k d))"

definition env_float :: "environ \<Rightarrow> string \<Rightarrow> string \<Rightarrow> exn + pyfloat" where
  "env_float env k d = py_float (PStr (env_get env k d))"

definition bind_exn :: "exn + 'a \<Rightarrow> ('a \<Rightarrow> exn + 'b) \<Rightarrow> exn + 'b" where
  "bind_exn x f = (case x of Inl e \<Rightarrow> Inl e | Inr v \<Rightarrow> f v)"

lemma bind_exn_simps [simp]:
  "bind_exn (Inl e) f = Inl e" "bind_exn (Inr v) f = f v"
  by (simp_all add: bind_exn_def)

subsection \<open>Connection strings and secrets\<close>

definition database_url :: "environ \<Rightarrow> exn + string" where
  "database_url env =
     bind_exn (env_required env ''POSTGRES_USER'') (\<lambda>user.
     bind_exn (env_required env ''POSTGRES_PASSWORD'') (\<lambda>password.
     bind_exn (env_required env ''POSTGRES_HOST'') (\<lambda>host.
     bind_exn (env_required env ''POSTGRES_PORT'') (\<lambda>port.
     bind_exn (env_required env ''POSTGRES_DB'') (\<lambda>name.
       Inr (''postgresql+asyncpg://'' @ user @ '':'' @ password @ ''@'' @ host @ '':'' @ port
            @ ''/'' @ name))))))"

definition redis_url :: "environ \<Rightarrow> exn + string" where
  "redis_url env =
     bind_exn (env_required env ''REDIS_HOST'') (\<lambda>host.
     bind_exn (env_required env ''REDIS_PORT'') (\<lambda>port.
       Inr (''redis://'' @ host @ '':'' @ port @ ''/0'')))"

definition enrollment_secret :: "environ \<Rightarrow> exn + string" where
  "enrollment_secret env = env_required env ''ENROLLMENT_SECRET''"

definition credential_pepper :: "environ \<Rightarrow> exn + string" where
  "credential_pepper env = env_required env ''CREDENTIAL_PEPPER''"

definition run_migrations_on_startup :: "environ \<Rightarrow> bool" where
  "run_migrations_on_startup env \<longleftrightarrow>
     map to_lower (env_get env ''RUN_MIGRATIONS_ON_STARTUP'' ''true'') \<noteq> ''false''"

definition admin_secret :: "environ \<Rightarrow> exn + string" where
  "admin_secret env = (case env ''ADMIN_SECRET'' of
      Some s \<Rightarrow> if s \<noteq> [] then Inr s else enrollment_secret env
    | None \<Rightarrow> enrollment_secret env)"

definition admin_secret_is_separate :: "environ \<Rightarrow> exn + bool" where
  "admin_secret_is_separate env = (case env ''ADMIN_SECRET'' of
      Some s \<Rightarrow> if s \<noteq> [] then bind_exn (enrollment_secret env) (\<lambda>e. Inr (s \<noteq> e)) else Inr False
    | None \<Rightarrow> Inr False)"

subsection \<open>Tunables\<close>

definition register_rate_limit_per_minute :: "environ \<Rightarrow> exn + int" where
  "register_rate_limit_per_minute env = env_int env ''REGISTER_RATE_LIMIT_PER_MINUTE'' ''5''"

definition access_token_ttl_seconds :: "environ \<Rightarrow> exn + int" where
  "access_token_ttl_seconds env = env_int env ''ACCESS_TOKEN_TTL_SECONDS'' ''60''"

definition task_enqueue_max_batch :: "environ \<Rightarrow> exn + int" where
  "task_enqueue_max_batch env = env_int env ''TASK_ENQUEUE_MAX_BATCH'' ''10000''"

definition task_dequeue_max_batch :: "environ \<Rightarrow> exn + int" where
  "task_dequeue_max_batch env = env_int env ''TASK_DEQUEUE_MAX_BATCH'' ''100''"

definition task_api_rate_limit_per_minute :: "environ \<Rightarrow> exn + int" where
  "task_api_rate_limit_per_minute env = env_int env ''TASK_API_RATE_LIMIT_PER_MINUTE'' ''300''"

definition task_list_max_limit :: "environ \<Rightarrow> exn + int" where
  "task_list_max_limit env = env_int env ''TASK_LIST_MAX_LIMIT'' ''200''"

definition db_pool_size :: "environ \<Rightarrow> exn + int" where
  "db_pool_size env = env_int env ''DB_POOL_SIZE'' ''15''"

definition db_max_overflow :: "environ \<Rightarrow> exn + int" where
  "db_max_overflow env = env_int env ''DB_MAX_OVERFLOW'' ''5''"

definition task_throughput_max_minutes :: "environ \<Rightarrow> exn + int" where
  "task_throughput_max_minutes env = env_int env ''TASK_THROUGHPUT_MAX_MINUTES'' ''1440''"

definition task_result_max_bytes :: "environ \<Rightarrow> exn + int" where
  "task_result_max_bytes env = env_int env ''TASK_RESULT_MAX_BYTES'' ''131072''"

definition result_retention_days :: "environ \<Rightarrow> exn + int" where
  "result_retention_days env = env_int env ''RESULT_RETENTION_DAYS'' ''7''"

definition result_retention_sweep_interval_seconds :: "environ \<Rightarrow> exn + int" where
  "result_retention_sweep_interval_seconds env = env_int env ''RESULT_RETENTION_SWEEP_INTERVAL_SECONDS'' ''3600''"

definition assignment_poll_interval_seconds :: "environ \<Rightarrow> exn + int" where
  "assignment_poll_interval_seconds env = env_int env ''ASSIGNMENT_POLL_INTERVAL_SECONDS'' ''30''"

definition worker_default_max_concurrent :: "environ \<Rightarrow> exn + int" where
  "worker_default_max_concurrent env = env_int env ''WORKER_DEFAULT_MAX_CONCURRENT'' ''4''"

definition worker_max_concurrent_ceiling :: "environ \<Rightarrow> exn + int" where
  "worker_max_concurrent_ceiling env = env_int env ''WORKER_MAX_CONCURRENT_CEILING'' ''64''"

definition ws_ping_interval_seconds :: "environ \<Rightarrow> exn + int" where
  "ws_ping_interval_seconds env = env_int env ''WS_PING_INTERVAL_SECONDS'' ''20''"

definition ws_pong_timeout_seconds :: "environ \<Rightarrow> exn + int" where
  "ws_pong_timeout_seconds env = env_int env ''WS_PONG_TIMEOUT_SECONDS'' ''45''"

definition ws_registry_ttl_seconds :: "environ \<Rightarrow> exn + int" where
  "ws_registry_ttl_seconds env = env_int env ''WS_REGISTRY_TTL_SECONDS'' ''90''"

definition heartbeat_suspect_threshold_seconds :: "environ \<Rightarrow> exn + int" where
  "heartbeat_suspect_threshold_seconds env = env_int env ''HEARTBEAT_SUSPECT_THRESHOLD_SECONDS'' ''12''"

definition heartbeat_offline_threshold_seconds :: "environ \<Rightarrow> exn + int" where
  "heartbeat_offline_threshold_seconds env = env_int env ''HEARTBEAT_OFFLINE_THRESHOLD_SECONDS'' ''25''"

definition heartbeat_sweep_interval_seconds :: "environ \<Rightarrow> exn + int" where
  "heartbeat_sweep_interval_seconds env = env_int env ''HEARTBEAT_SWEEP_INTERVAL_SECONDS'' ''5''"

definition task_ack_timeout_seconds :: "environ \<Rightarrow> exn + int" where
  "task_ack_timeout_seconds env = env_int env ''TASK_ACK_TIMEOUT_SECONDS'' ''30''"

definition task_lease_ttl_seconds :: "environ \<Rightarrow> exn + int" where
  "task_lease_ttl_seconds env = env_int env ''TASK_LEASE_TTL_SECONDS'' ''60''"

definition task_lease_renew_fraction :: "environ \<Rightarrow> exn + pyfloat" where
  "task_lease_renew_fraction env = env_float env ''TASK_LEASE_RENEW_FRACTION'' ''0.5''"

definition task_max_execution_seconds_default :: "environ \<Rightarrow> exn + int" where
  "task_max_execution_seconds_default env = env_int env ''TASK_MAX_EXECUTION_SECONDS'' ''300''"

definition lease_reclaim_interval_seconds :: "environ \<Rightarrow> exn + int" where
  "lease_reclaim_interval_seconds env = env_int env ''LEASE_RECLAIM_INTERVAL_SECONDS'' ''5''"

definition lease_reclaim_batch :: "environ \<Rightarrow> exn + int" where
  "lease_reclaim_batch env = env_int env ''LEASE_RECLAIM_BATCH'' ''100''"

definition lease_disconnect_grace_seconds :: "environ \<Rightarrow> exn + int" where
  "lease_disconnect_grace_seconds env = env_int env ''LEASE_DISCONNECT_GRACE_SECONDS'' ''30''"

definition shutdown_drain_seconds :: "environ \<Rightarrow> exn + pyfloat" where
  "shutdown_drain_seconds env = env_float env ''SHUTDOWN_DRAIN_SECONDS'' ''15''"

definition task_max_attempts :: "environ \<Rightarrow> exn + int" where
  "task_max_attempts env = env_int env ''TASK_MAX_ATTEMPTS'' ''3''"

definition task_retry_backoff_base_seconds :: "environ \<Rightarrow> exn + pyfloat" where
  "task_retry_backoff_base_seconds env = env_float env ''TASK_RETRY_BACKOFF_BASE_SECONDS'' ''5''"

definition task_retry_backoff_factor :: "environ \<Rightarrow> exn + pyfloat" where
  "task_retry_backoff_factor env = env_float env ''TASK_RETRY_BACKOFF_FACTOR'' ''2''"

definition task_retry_backoff_max_seconds :: "environ \<Rightarrow> exn + pyfloat" where
  "task_retry_backoff_max_seconds env = env_float env ''TASK_RETRY_BACKOFF_MAX_SECONDS'' ''60''"

definition task_retry_exclusion_seconds :: "environ \<Rightarrow> exn + int" where
  "task_retry_exclusion_seconds env = env_int env ''TASK_RETRY_EXCLUSION_SECONDS'' ''60''"

definition worker_claim_ttl_seconds :: "environ \<Rightarrow> exn + int" where
  "worker_claim_ttl_seconds env = env_int env ''WORKER_CLAIM_TTL_SECONDS'' ''10''"

subsection \<open>The settings the components read\<close>

record settings =
  cf_ack_timeout :: int
  cf_lease_ttl :: int
  cf_exec_default :: int
  cf_exclusion :: int
  cf_max_attempts :: int
  cf_reclaim_batch :: int
  cf_disconnect_grace :: int
  cf_enqueue_max :: int
  cf_dequeue_max :: int
  cf_list_max :: int
  cf_throughput_max :: int
  cf_result_max :: int
  cf_retention :: int
  cf_conc_default :: int
  cf_conc_ceiling :: int
  cf_suspect_after :: int
  cf_offline_after :: int
  cf_token_ttl :: int
  cf_register_limit :: int
  cf_api_limit :: int
  cf_claim_ttl :: int
  cf_renew_fraction :: rat
  cf_backoff_base :: rat
  cf_backoff_factor :: rat
  cf_backoff_max :: rat

fun finite_float :: "pyfloat \<Rightarrow> exn + rat" where
  "finite_float (Fin r) = Inr r"
| "finite_float _ = Inl ValueError"

definition settings_of_env :: "environ \<Rightarrow> exn + settings" where
  "settings_of_env env =
     bind_exn (task_ack_timeout_seconds env) (\<lambda>v0.
     bind_exn (task_lease_ttl_seconds env) (\<lambda>v1.
     bind_exn (task_max_execution_seconds_default env) (\<lambda>v2.
     bind_exn (task_retry_exclusion_seconds env) (\<lambda>v3.
     bind_exn (task_max_attempts env) (\<lambda>v4.
     bind_exn (lease_reclaim_batch env) (\<lambda>v5.
     bind_exn (lease_disconnect_grace_seconds env) (\<lambda>v6.
     bind_exn (task_enqueue_max_batch env) (\<lambda>v7.
     bind_exn (task_dequeue_max_batch env) (\<lambda>v8.
     bind_exn (task_list_max_limit env) (\<lambda>v9.
     bind_exn (task_throughput_max_minutes env) (\<lambda>v10.
     bind_exn (task_result_max_bytes env) (\<lambda>v11.
     bind_exn (result_retention_days env) (\<lambda>v12.
     bind_exn (worker_default_max_concurrent env) (\<lambda>v13.
     bind_exn (worker_max_concurrent_ceiling env) (\<lambda>v14.
     bind_exn (heartbeat_suspect_threshold_seconds env) (\<lambda>v15.
     bind_exn (heartbeat_offline_threshold_seconds env) (\<lambda>v16.
     bind_exn (access_token_ttl_seconds env) (\<lambda>v17.
     bind_exn (register_rate_limit_per_minute env) (\<lambda>v18.
     bind_exn (task_api_rate_limit_per_minute env) (\<lambda>v19.
     bind_exn (worker_claim_ttl_seconds env) (\<lambda>v20.
     bind_exn (bind_exn (task_lease_renew_fraction env) finite_float) (\<lambda>v21.
     bind_exn (bind_exn (task_retry_backoff_base_seconds env) finite_float) (\<lambda>v22.
     bind_exn (bind_exn (task_retry_backoff_factor env) finite_float) (\<lambda>v23.
     bind_exn (bind_exn (task_retry_backoff_max_seconds env) finite_float) (\<lambda>v24.
       Inr \<lparr>cf_ack_timeout = v0, cf_lease_ttl = v1, cf_exec_default = v2, cf_exclusion = v3, cf_max_attempts = v4, cf_reclaim_batch = v5,
         cf_disconnect_grace = v6, cf_enqueue_max = v7, cf_dequeue_max = v8,
         cf_list_max = v9, cf_throughput_max = v10, cf_result_max = v11, cf_retention = v12,
         cf_conc_default = v13, cf_conc_ceiling = v14, cf_suspect_after = v15, cf_offline_after = v16,
         cf_token_ttl = v17, cf_register_limit = v18, cf_api_limit = v19, cf_claim_ttl = v20,
         cf_renew_fraction = v21, cf_backoff_base = v22, cf_backoff_factor = v23, cf_backoff_max = v24\<rparr>)))))))))))))))))))))))))"

definition default_settings :: settings where
  "default_settings = \<lparr>cf_ack_timeout = 30,
     cf_lease_ttl = 60,
     cf_exec_default = 300,
     cf_exclusion = 60,
     cf_max_attempts = 3,
     cf_reclaim_batch = 100,
     cf_disconnect_grace = 30,
     cf_enqueue_max = 10000,
     cf_dequeue_max = 100,
     cf_list_max = 200,
     cf_throughput_max = 1440,
     cf_result_max = 131072,
     cf_retention = 7,
     cf_conc_default = 4,
     cf_conc_ceiling = 64,
     cf_suspect_after = 12,
     cf_offline_after = 25,
     cf_token_ttl = 60,
     cf_register_limit = 5,
     cf_api_limit = 300,
     cf_claim_ttl = 10,
     cf_renew_fraction = 1 / 2,
     cf_backoff_base = 5,
     cf_backoff_factor = 2,
     cf_backoff_max = 60\<rparr>"

lemma settings_default: "settings_of_env (\<lambda>_. None) = Inr default_settings"
  by code_simp

text \<open>
  What the rest of the system needs of the numbers: positive windows and bounds. The
  defaults have them.
\<close>

definition sane_settings :: "settings \<Rightarrow> bool" where
  "sane_settings c \<longleftrightarrow> 0 < cf_lease_ttl c \<and> 0 < cf_ack_timeout c \<and> 0 < cf_exec_default c
     \<and> 1 \<le> cf_max_attempts c \<and> 0 \<le> cf_exclusion c \<and> 0 \<le> cf_backoff_base c
     \<and> 1 \<le> cf_backoff_factor c \<and> 0 \<le> cf_backoff_max c \<and> 1 \<le> cf_dequeue_max c
     \<and> 1 \<le> cf_reclaim_batch c \<and> 1 \<le> cf_conc_ceiling c \<and> 0 < cf_renew_fraction c"

lemma sane_default: "sane_settings default_settings"
  by (simp add: sane_settings_def default_settings_def)

lemma admin_secret_shared:
  "admin_secret_is_separate env = Inr False \<Longrightarrow> enrollment_secret env = Inr s \<Longrightarrow>
   admin_secret env = Inr s"
  by (auto simp: admin_secret_is_separate_def admin_secret_def split: option.splits if_splits)

lemma admin_secret_separate:
  "admin_secret_is_separate env = Inr True \<Longrightarrow> admin_secret env \<noteq> enrollment_secret env"
  by (auto simp: admin_secret_is_separate_def admin_secret_def bind_exn_def
      split: option.splits if_splits sum.splits)

end
