(* ===== verification/TaskTypes.thy ===== *)
theory TaskTypes
  imports Base64 Config
begin

text \<open>
  \<open>coordinator/app/task_types.py\<close>: the registry of task types, their parameter
  schemas and the per-type execution caps. The schema engine is pydantic, which is
  not part of the repository: how it coerces a raw value to an \<open>int\<close>, a \<open>float\<close> or
  a \<open>str\<close> is the parameter \<open>coercion\<close>. Everything the source itself writes about
  a schema is translated: the fields and their order, the bounds, the default of
  \<open>algorithm\<close>, \<open>extra="forbid"\<close> and the base64 validator.
\<close>

definition MAX_OPAQUE_PAYLOAD_BYTES :: nat where
  "MAX_OPAQUE_PAYLOAD_BYTES = 64 * 1024"

record coercion =
  co_int :: "pyval \<Rightarrow> int option"
  co_float :: "pyval \<Rightarrow> pyfloat option"
  co_str :: "pyval \<Rightarrow> string option"

text \<open>Pydantic's strict instances: a value that already has the field's type is kept.\<close>

fun strict_int :: "pyval \<Rightarrow> int option" where
  "strict_int (PInt n) = Some n"
| "strict_int _ = None"

fun strict_float :: "pyval \<Rightarrow> pyfloat option" where
  "strict_float (PFloat x) = Some x"
| "strict_float (PInt n) = (case float_of_int n of Inr x \<Rightarrow> Some x | Inl _ \<Rightarrow> None)"
| "strict_float _ = None"

fun strict_str :: "pyval \<Rightarrow> string option" where
  "strict_str (PStr s) = Some s"
| "strict_str _ = None"

definition strict_coercion :: coercion where
  "strict_coercion = \<lparr>co_int = strict_int, co_float = strict_float, co_str = strict_str\<rparr>"

definition forbid_extra :: "string list \<Rightarrow> pydict \<Rightarrow> bool" where
  "forbid_extra names d \<longleftrightarrow> (\<forall>k \<in> set (map fst d). k \<in> set names)"

subsection \<open>The four schemas\<close>

definition CountToNParams :: "coercion \<Rightarrow> pydict \<Rightarrow> pydict option" where
  "CountToNParams co d =
     (if \<not> forbid_extra [''n''] d then None
      else case map_of d ''n'' of
          None \<Rightarrow> None
        | Some v \<Rightarrow> (case co_int co v of
              None \<Rightarrow> None
            | Some n \<Rightarrow> if 1 \<le> n \<and> n \<le> 100000000 then Some [(''n'', PInt n)] else None))"

definition algorithm_field :: "pydict \<Rightarrow> string option" where
  "algorithm_field d = (case map_of d ''algorithm'' of
      None \<Rightarrow> Some ''sha256''
    | Some (PStr s) \<Rightarrow> if s = ''sha256'' \<or> s = ''sha512'' then Some s else None
    | Some _ \<Rightarrow> None)"

definition HashRoundsParams :: "coercion \<Rightarrow> pydict \<Rightarrow> pydict option" where
  "HashRoundsParams co d =
     (if \<not> forbid_extra [''rounds'', ''algorithm''] d then None
      else case map_of d ''rounds'' of
          None \<Rightarrow> None
        | Some v \<Rightarrow> (case (co_int co v, algorithm_field d) of
              (Some n, Some a) \<Rightarrow>
                if 1 \<le> n \<and> n \<le> 10000000
                then Some [(''rounds'', PInt n), (''algorithm'', PStr a)] else None
            | _ \<Rightarrow> None))"

fun seconds_in_range :: "pyfloat \<Rightarrow> bool" where
  "seconds_in_range (Fin r) = (0 < r \<and> r \<le> 3600)"
| "seconds_in_range _ = False"

definition SleepParams :: "coercion \<Rightarrow> pydict \<Rightarrow> pydict option" where
  "SleepParams co d =
     (if \<not> forbid_extra [''seconds''] d then None
      else case map_of d ''seconds'' of
          None \<Rightarrow> None
        | Some v \<Rightarrow> (case co_float co v of
              None \<Rightarrow> None
            | Some x \<Rightarrow> if seconds_in_range x then Some [(''seconds'', PFloat x)] else None))"

definition must_be_bounded_base64 :: "string \<Rightarrow> exn + string" where
  "must_be_bounded_base64 s = (case b64_decode s of
      None \<Rightarrow> Inl ValueError
    | Some raw \<Rightarrow>
        if length raw > MAX_OPAQUE_PAYLOAD_BYTES then Inl ValueError else Inr s)"

definition OpaquePayloadParams :: "coercion \<Rightarrow> pydict \<Rightarrow> pydict option" where
  "OpaquePayloadParams co d =
     (if \<not> forbid_extra [''payload_b64''] d then None
      else case map_of d ''payload_b64'' of
          None \<Rightarrow> None
        | Some v \<Rightarrow> (case co_str co v of
              None \<Rightarrow> None
            | Some s \<Rightarrow> (case must_be_bounded_base64 s of
                  Inl _ \<Rightarrow> None
                | Inr s' \<Rightarrow> Some [(''payload_b64'', PStr s')])))"

definition TASK_TYPES :: "(string \<times> (coercion \<Rightarrow> pydict \<Rightarrow> pydict option)) list" where
  "TASK_TYPES = [(''count_to_n'', CountToNParams), (''hash_rounds'', HashRoundsParams),
     (''sleep'', SleepParams), (''opaque_payload'', OpaquePayloadParams)]"

definition task_type_names :: "string list" where
  "task_type_names = map fst TASK_TYPES"

lemma task_type_names: "task_type_names =
    [''count_to_n'', ''hash_rounds'', ''sleep'', ''opaque_payload'']"
  by (simp add: task_type_names_def TASK_TYPES_def)

definition DEFAULT_MAX_EXECUTION_SECONDS :: "(string \<times> int) list" where
  "DEFAULT_MAX_EXECUTION_SECONDS =
     [(''count_to_n'', 300), (''hash_rounds'', 300), (''sleep'', 3900), (''opaque_payload'', 60)]"

text \<open>The import-time check: every registered type has a cap, and nothing else has one.\<close>

lemma execution_caps_complete:
  "fst ` set DEFAULT_MAX_EXECUTION_SECONDS = fst ` set TASK_TYPES"
  by (auto simp: DEFAULT_MAX_EXECUTION_SECONDS_def TASK_TYPES_def)

definition validate_parameters :: "coercion \<Rightarrow> string \<Rightarrow> pydict option \<Rightarrow> exn + pydict" where
  "validate_parameters co task_type parameters = (case map_of TASK_TYPES task_type of
      None \<Rightarrow> Inl (UnknownTaskType task_type)
    | Some model \<Rightarrow>
        (case model co (case parameters of None \<Rightarrow> [] | Some d \<Rightarrow> d) of
            None \<Rightarrow> Inl (InvalidTaskParameters task_type)
          | Some normalised \<Rightarrow> Inr normalised))"

subsection \<open>What a stored parameter object looks like\<close>

lemma TASK_TYPES_cases:
  assumes "map_of TASK_TYPES ty = Some m"
  obtains "ty = ''count_to_n''" "m = CountToNParams" | "ty = ''hash_rounds''" "m = HashRoundsParams"
    | "ty = ''sleep''" "m = SleepParams" | "ty = ''opaque_payload''" "m = OpaquePayloadParams"
  using assms by (auto simp: TASK_TYPES_def split: if_splits)

lemma validate_unknown: "ty \<notin> set task_type_names \<Longrightarrow>
    validate_parameters co ty p = Inl (UnknownTaskType ty)"
  by (simp add: validate_parameters_def task_type_names_def map_of_eq_None_iff [THEN iffD2])

lemma validate_known: "validate_parameters co ty p = Inr d \<Longrightarrow> ty \<in> set task_type_names"
  using validate_unknown [of ty co p] by fastforce

lemma validate_errors: "validate_parameters co ty p = Inl e \<Longrightarrow>
    e = UnknownTaskType ty \<or> e = InvalidTaskParameters ty"
  by (auto simp: validate_parameters_def split: option.splits)

text \<open>The ranges a persisted parameter object is in, whatever the coercion did.\<close>

definition well_formed_parameters :: "string \<Rightarrow> pydict \<Rightarrow> bool" where
  "well_formed_parameters ty d \<longleftrightarrow>
     (ty = ''count_to_n'' \<and> (\<exists>n. d = [(''n'', PInt n)] \<and> 1 \<le> n \<and> n \<le> 100000000))
   \<or> (ty = ''hash_rounds'' \<and> (\<exists>n a. d = [(''rounds'', PInt n), (''algorithm'', PStr a)]
        \<and> 1 \<le> n \<and> n \<le> 10000000 \<and> a \<in> {''sha256'', ''sha512''}))
   \<or> (ty = ''sleep'' \<and> (\<exists>r. d = [(''seconds'', PFloat (Fin r))] \<and> 0 < r \<and> r \<le> 3600))
   \<or> (ty = ''opaque_payload'' \<and> (\<exists>s raw. d = [(''payload_b64'', PStr s)] \<and> b64_decode s = Some raw
        \<and> length raw \<le> MAX_OPAQUE_PAYLOAD_BYTES))"

lemma seconds_in_range_iff: "seconds_in_range x \<longleftrightarrow> (\<exists>r. x = Fin r \<and> 0 < r \<and> r \<le> 3600)"
  by (cases x) auto

lemma algorithm_field_range: "algorithm_field d = Some a \<Longrightarrow> a \<in> {''sha256'', ''sha512''}"
  by (auto simp: algorithm_field_def split: option.splits pyval.splits if_splits)

lemma CountToN_wf: "CountToNParams co p = Some d \<Longrightarrow> well_formed_parameters ''count_to_n'' d"
  by (auto simp: CountToNParams_def well_formed_parameters_def split: if_splits option.splits)

lemma HashRounds_wf: "HashRoundsParams co p = Some d \<Longrightarrow> well_formed_parameters ''hash_rounds'' d"
  using algorithm_field_range
  by (fastforce simp: HashRoundsParams_def well_formed_parameters_def split: if_splits option.splits)

lemma Sleep_wf: "SleepParams co p = Some d \<Longrightarrow> well_formed_parameters ''sleep'' d"
  by (auto simp: SleepParams_def well_formed_parameters_def seconds_in_range_iff
      split: if_splits option.splits)

lemma OpaquePayload_wf:
  "OpaquePayloadParams co p = Some d \<Longrightarrow> well_formed_parameters ''opaque_payload'' d"
  by (auto simp: OpaquePayloadParams_def must_be_bounded_base64_def well_formed_parameters_def
      split: if_splits option.splits sum.splits)

lemma validated_well_formed:
  assumes "validate_parameters co ty p = Inr d"
  shows "well_formed_parameters ty d"
proof -
  from assms obtain m q where m: "map_of TASK_TYPES ty = Some m" "m co q = Some d"
    by (auto simp: validate_parameters_def split: option.splits)
  from m(1) show ?thesis
    using m(2) CountToN_wf HashRounds_wf Sleep_wf OpaquePayload_wf
    by (cases rule: TASK_TYPES_cases) auto
qed

text \<open>A validated object is a fixed point of the strict schema: normalisation is idempotent.\<close>

lemma strict_CountToN:
  "1 \<le> n \<Longrightarrow> n \<le> 100000000 \<Longrightarrow> CountToNParams strict_coercion [(''n'', PInt n)] = Some [(''n'', PInt n)]"
  by (simp add: CountToNParams_def forbid_extra_def strict_coercion_def)

lemma strict_HashRounds:
  "1 \<le> n \<Longrightarrow> n \<le> 10000000 \<Longrightarrow> a \<in> {''sha256'', ''sha512''} \<Longrightarrow>
   HashRoundsParams strict_coercion [(''rounds'', PInt n), (''algorithm'', PStr a)]
     = Some [(''rounds'', PInt n), (''algorithm'', PStr a)]"
  by (simp add: HashRoundsParams_def forbid_extra_def strict_coercion_def algorithm_field_def)

lemma strict_Sleep:
  "0 < r \<Longrightarrow> r \<le> 3600 \<Longrightarrow>
   SleepParams strict_coercion [(''seconds'', PFloat (Fin r))] = Some [(''seconds'', PFloat (Fin r))]"
  by (simp add: SleepParams_def forbid_extra_def strict_coercion_def)

lemma strict_OpaquePayload:
  "b64_decode s = Some raw \<Longrightarrow> length raw \<le> MAX_OPAQUE_PAYLOAD_BYTES \<Longrightarrow>
   OpaquePayloadParams strict_coercion [(''payload_b64'', PStr s)] = Some [(''payload_b64'', PStr s)]"
  by (simp add: OpaquePayloadParams_def forbid_extra_def strict_coercion_def
      must_be_bounded_base64_def)

lemma map_of_TASK_TYPES [simp]:
  "map_of TASK_TYPES ''count_to_n'' = Some CountToNParams"
  "map_of TASK_TYPES ''hash_rounds'' = Some HashRoundsParams"
  "map_of TASK_TYPES ''sleep'' = Some SleepParams"
  "map_of TASK_TYPES ''opaque_payload'' = Some OpaquePayloadParams"
  by (simp_all add: TASK_TYPES_def)

lemma validate_strict_idempotent:
  assumes "validate_parameters co ty p = Inr d"
  shows "validate_parameters strict_coercion ty (Some d) = Inr d"
  using validated_well_formed [OF assms] unfolding well_formed_parameters_def
proof (elim disjE exE conjE)
  fix n assume "ty = ''count_to_n''" "d = [(''n'', PInt n)]" "1 \<le> n" "n \<le> 100000000"
  then show ?thesis by (simp only: validate_parameters_def strict_CountToN map_of_TASK_TYPES option.case)
next
  fix n a assume "ty = ''hash_rounds''" "d = [(''rounds'', PInt n), (''algorithm'', PStr a)]"
    "1 \<le> n" "n \<le> 10000000" "a \<in> {''sha256'', ''sha512''}"
  then show ?thesis by (simp only: validate_parameters_def strict_HashRounds map_of_TASK_TYPES option.case)
next
  fix r assume "ty = ''sleep''" "d = [(''seconds'', PFloat (Fin r))]" "0 < r" "r \<le> 3600"
  then show ?thesis by (simp only: validate_parameters_def strict_Sleep map_of_TASK_TYPES option.case)
next
  fix s raw assume "ty = ''opaque_payload''" "d = [(''payload_b64'', PStr s)]"
    "b64_decode s = Some raw" "length raw \<le> MAX_OPAQUE_PAYLOAD_BYTES"
  then show ?thesis
    by (simp only: validate_parameters_def strict_OpaquePayload [of s raw] map_of_TASK_TYPES option.case)
qed

end
