(* ===== verification/Models.thy ===== *)
theory Models
  imports Uuid TaskStates TaskTypes
begin

text \<open>
  \<open>coordinator/app/models.py\<close>: the five tables. A row is a record, a nullable column
  an \<open>option\<close>, a table a list of rows in no significant order; an SQL statement is a
  function on \<open>db\<close>. A transaction that does not commit is a result that is thrown
  away. \<open>task_ok\<close> and \<open>db_ok\<close> are the invariant that every statement of the
  coordinator keeps (theory \<open>Reachable\<close>): they say which columns a task in each state has.
\<close>

record worker_row =
  wk_id :: uuid
  wk_credential_hash :: "string option"
  wk_metadata :: "pydict option"
  wk_agent_version :: "string option"
  wk_status :: string
  wk_revoked :: bool
  wk_created_at :: time
  wk_updated_at :: time

record result_row =
  rs_id :: uuid
  rs_payload :: pydict
  rs_size_bytes :: int
  rs_submitted_at :: time

record task_row =
  tk_id :: uuid
  tk_type :: string
  tk_payload :: "pydict option"
  tk_parameters :: pydict
  tk_priority :: int
  tk_status :: string
  tk_worker :: "uuid option"
  tk_assigned_at :: "time option"
  tk_started_at :: "time option"
  tk_lease :: "time option"
  tk_deadline :: "time option"
  tk_attempt :: int
  tk_excluded :: "uuid option"
  tk_not_before :: "time option"
  tk_result :: "uuid option"
  tk_completed_at :: "time option"
  tk_correlation :: string
  tk_created_at :: time
  tk_updated_at :: time

record attempt_row =
  at_id :: uuid
  at_task :: uuid
  at_number :: int
  at_worker :: "uuid option"
  at_outcome :: string
  at_reason :: "string option"
  at_correlation :: "string option"
  at_recorded_at :: time

record policy_row =
  po_type :: string
  po_ack :: "int option"
  po_lease :: "int option"
  po_exec :: "int option"
  po_attempts :: "int option"
  po_updated_at :: time

record db =
  db_workers :: "worker_row list"
  db_tasks :: "task_row list"
  db_results :: "result_row list"
  db_attempts :: "attempt_row list"
  db_policies :: "policy_row list"

definition empty_db :: db where
  "empty_db = \<lparr>db_workers = [], db_tasks = [], db_results = [], db_attempts = [],
     db_policies = []\<rparr>"

subsection \<open>Lookup by primary key\<close>

definition find_task :: "db \<Rightarrow> uuid \<Rightarrow> task_row option" where
  "find_task d i = find (\<lambda>t. tk_id t = i) (db_tasks d)"

definition find_result :: "db \<Rightarrow> uuid \<Rightarrow> result_row option" where
  "find_result d i = find (\<lambda>r. rs_id r = i) (db_results d)"

definition find_worker :: "db \<Rightarrow> uuid \<Rightarrow> worker_row option" where
  "find_worker d i = find (\<lambda>w. wk_id w = i) (db_workers d)"

definition find_policy :: "db \<Rightarrow> string \<Rightarrow> policy_row option" where
  "find_policy d ty = find (\<lambda>p. po_type p = ty) (db_policies d)"

text \<open>An \<open>Integer\<close> column is a 32-bit signed integer; the driver refuses any other value.\<close>

definition int4_ok :: "int \<Rightarrow> bool" where
  "int4_ok n \<longleftrightarrow> - (2 ^ 31) \<le> n \<and> n < 2 ^ 31"

text \<open>\<open>UPDATE tasks SET f WHERE id = i\<close>.\<close>

definition set_task :: "uuid \<Rightarrow> (task_row \<Rightarrow> task_row) \<Rightarrow> db \<Rightarrow> db" where
  "set_task i f d = d\<lparr>db_tasks := update_where (\<lambda>t. tk_id t = i) f (db_tasks d)\<rparr>"

definition map_tasks :: "(task_row \<Rightarrow> bool) \<Rightarrow> (task_row \<Rightarrow> task_row) \<Rightarrow> db \<Rightarrow> db" where
  "map_tasks p f d = d\<lparr>db_tasks := update_where p f (db_tasks d)\<rparr>"

lemma set_task_is_map_tasks: "set_task i f = map_tasks (\<lambda>t. tk_id t = i) f"
  by (rule ext) (simp add: set_task_def map_tasks_def)

lemma set_task_frame [simp, db_simps]:
  "db_workers (set_task i f d) = db_workers d" "db_results (set_task i f d) = db_results d"
  "db_attempts (set_task i f d) = db_attempts d" "db_policies (set_task i f d) = db_policies d"
  by (simp_all add: set_task_def)

lemma map_tasks_frame [simp, db_simps]:
  "db_workers (map_tasks p f d) = db_workers d" "db_results (map_tasks p f d) = db_results d"
  "db_attempts (map_tasks p f d) = db_attempts d" "db_policies (map_tasks p f d) = db_policies d"
  by (simp_all add: map_tasks_def)

lemma find_task_mem: "find_task d i = Some t \<Longrightarrow> t \<in> set (db_tasks d) \<and> tk_id t = i"
  by (auto simp: find_task_def find_Some_iff)

lemma find_task_None: "find_task d i = None \<longleftrightarrow> i \<notin> tk_id ` set (db_tasks d)"
  by (auto simp: find_task_def find_None_iff)

lemma find_task_unique:
  assumes "distinct (map tk_id (db_tasks d))" and "t \<in> set (db_tasks d)"
  shows "find_task d (tk_id t) = Some t"
proof -
  obtain t' where t': "find_task d (tk_id t) = Some t'"
    using assms(2) find_task_None [of d "tk_id t"] by (cases "find_task d (tk_id t)") auto
  have "t' = t"
    using find_task_mem [OF t'] assms by (auto simp: distinct_map inj_on_def)
  with t' show ?thesis by simp
qed

lemma find_update_where:
  "(\<And>r. k (f r) = k r) \<Longrightarrow>
   find (\<lambda>r. k r = i) (update_where p f rows) =
     map_option (\<lambda>r. if p r then f r else r) (find (\<lambda>r. k r = i) rows)"
  by (induction rows) auto

lemma find_task_map_tasks [db_simps]:
  "(\<And>t. tk_id (f t) = tk_id t) \<Longrightarrow>
   find_task (map_tasks p f d) i = map_option (\<lambda>t. if p t then f t else t) (find_task d i)"
  by (simp add: find_task_def map_tasks_def find_update_where)

lemma find_task_set_task [db_simps]:
  "(\<And>t. tk_id (f t) = tk_id t) \<Longrightarrow>
   find_task (set_task i f d) j =
     (if i = j then map_option f (find_task d j) else find_task d j)"
proof -
  assume f: "\<And>t. tk_id (f t) = tk_id t"
  have "map_option (\<lambda>t. if tk_id t = i then f t else t) (find_task d j) =
      (if i = j then map_option f (find_task d j) else find_task d j)"
    by (cases "find_task d j") (auto dest: find_task_mem)
  with f show ?thesis by (simp add: set_task_is_map_tasks find_task_map_tasks)
qed

lemma ids_map_tasks:
  "(\<And>t. tk_id (f t) = tk_id t) \<Longrightarrow> map tk_id (db_tasks (map_tasks p f d)) = map tk_id (db_tasks d)"
  by (simp add: map_tasks_def map_update_where)

lemma find_task_extend:
  "find_task (d\<lparr>db_results := rs\<rparr>) i = find_task d i"
  "find_task (d\<lparr>db_attempts := xs\<rparr>) i = find_task d i"
  "find_task (d\<lparr>db_policies := ps\<rparr>) i = find_task d i"
  "find_task (d\<lparr>db_workers := ws\<rparr>) i = find_task d i"
  by (simp_all add: find_task_def)

declare find_task_extend [simp, db_simps]

subsection \<open>The row invariant\<close>

definition unassigned :: "task_row \<Rightarrow> bool" where
  "unassigned t \<longleftrightarrow> tk_worker t = None \<and> tk_assigned_at t = None \<and> tk_started_at t = None
     \<and> tk_lease t = None \<and> tk_deadline t = None"

definition leased :: "task_row \<Rightarrow> bool" where
  "leased t \<longleftrightarrow> tk_worker t \<noteq> None \<and> tk_assigned_at t \<noteq> None \<and> tk_lease t \<noteq> None
     \<and> tk_deadline t \<noteq> None"

definition settled :: "task_row \<Rightarrow> bool" where
  "settled t \<longleftrightarrow> tk_lease t = None \<and> tk_deadline t = None"

definition task_ok :: "task_row \<Rightarrow> bool" where
  "task_ok t \<longleftrightarrow>
     tk_status t \<in> {QUEUED, ASSIGNED, RUNNING, COMPLETED, FAILED, CANCELLED}
   \<and> 0 \<le> tk_attempt t
   \<and> (tk_status t = QUEUED \<longrightarrow> unassigned t)
   \<and> (live_status (tk_status t) \<longrightarrow> leased t)
   \<and> (tk_status t = RUNNING \<longrightarrow> tk_started_at t \<noteq> None)
   \<and> (tk_status t \<in> TERMINAL_STATES \<longrightarrow> settled t)
   \<and> (tk_completed_at t \<noteq> None \<longleftrightarrow> tk_status t = COMPLETED)
   \<and> (tk_result t \<noteq> None \<longrightarrow> tk_status t = COMPLETED)
   \<and> (tk_status t = COMPLETED \<longrightarrow> tk_started_at t \<noteq> None \<and> tk_worker t \<noteq> None)
   \<and> (tk_excluded t \<noteq> None \<longrightarrow> tk_not_before t \<noteq> None)"

text \<open>
  Keys are unique, and every reference points somewhere: a task's result exists and
  is referenced by that task only, the worker named by a task or an attempt exists,
  an attempt belongs to a task and never names an attempt the task has not reached.
\<close>

definition result_refs :: "db \<Rightarrow> uuid list" where
  "result_refs d = concat (map (\<lambda>t. case tk_result t of None \<Rightarrow> [] | Some r \<Rightarrow> [r]) (db_tasks d))"

definition worker_known :: "db \<Rightarrow> uuid option \<Rightarrow> bool" where
  "worker_known d w \<longleftrightarrow> (case w of None \<Rightarrow> True | Some i \<Rightarrow> i \<in> wk_id ` set (db_workers d))"

definition attempt_ok :: "db \<Rightarrow> attempt_row \<Rightarrow> bool" where
  "attempt_ok d a \<longleftrightarrow> (\<exists>t \<in> set (db_tasks d). tk_id t = at_task a
     \<and> 0 \<le> at_number a \<and> at_number a \<le> tk_attempt t) \<and> worker_known d (at_worker a)"

definition keys_ok :: "db \<Rightarrow> bool" where
  "keys_ok d \<longleftrightarrow> distinct (map tk_id (db_tasks d)) \<and> distinct (map rs_id (db_results d))
     \<and> distinct (map po_type (db_policies d)) \<and> distinct (map wk_id (db_workers d))"

definition refs_ok :: "db \<Rightarrow> bool" where
  "refs_ok d \<longleftrightarrow> distinct (result_refs d) \<and> set (result_refs d) = rs_id ` set (db_results d)
     \<and> (\<forall>t \<in> set (db_tasks d). worker_known d (tk_worker t) \<and> worker_known d (tk_excluded t))
     \<and> (\<forall>a \<in> set (db_attempts d). attempt_ok d a)"

definition rows_ok :: "db \<Rightarrow> bool" where
  "rows_ok d \<longleftrightarrow> (\<forall>t \<in> set (db_tasks d). task_ok t)"

definition db_ok :: "db \<Rightarrow> bool" where
  "db_ok d \<longleftrightarrow> keys_ok d \<and> refs_ok d \<and> rows_ok d"

lemma db_ok_empty: "db_ok empty_db"
  by (simp add: db_ok_def keys_ok_def refs_ok_def rows_ok_def empty_db_def result_refs_def)

lemma db_ok_distinct: "db_ok d \<Longrightarrow> distinct (map tk_id (db_tasks d))"
  by (simp add: db_ok_def keys_ok_def)

lemma db_ok_task: "db_ok d \<Longrightarrow> t \<in> set (db_tasks d) \<Longrightarrow> task_ok t"
  by (simp add: db_ok_def rows_ok_def)

lemma db_ok_find: "db_ok d \<Longrightarrow> find_task d i = Some t \<Longrightarrow> task_ok t"
  using db_ok_task find_task_mem by blast

lemma task_ok_live: "task_ok t \<Longrightarrow> live_status (tk_status t) \<Longrightarrow> leased t"
  by (simp add: task_ok_def)

subsection \<open>Updates that keep the invariant\<close>

text \<open>
  What an \<open>UPDATE tasks\<close> statement must respect for \<open>db_ok\<close> to survive it: the
  primary key, the result reference and the attempt number may not go back, the
  workers it names exist, and each touched row is still well formed.
\<close>

definition good_update :: "db \<Rightarrow> task_row \<Rightarrow> task_row \<Rightarrow> bool" where
  "good_update d t u \<longleftrightarrow> tk_id u = tk_id t \<and> tk_result u = tk_result t
     \<and> tk_attempt t \<le> tk_attempt u \<and> worker_known d (tk_worker u)
     \<and> worker_known d (tk_excluded u) \<and> task_ok u"

lemma result_refs_map_tasks:
  "(\<And>t. t \<in> set (db_tasks d) \<Longrightarrow> p t \<Longrightarrow> tk_result (f t) = tk_result t) \<Longrightarrow>
   result_refs (map_tasks p f d) = result_refs d"
  by (auto simp: result_refs_def map_tasks_def update_where_def comp_def
      intro!: arg_cong [where f = concat] map_cong)

lemma map_tasks_keys:
  "(\<And>t. t \<in> set (db_tasks d) \<Longrightarrow> p t \<Longrightarrow> tk_id (f t) = tk_id t) \<Longrightarrow>
   map tk_id (db_tasks (map_tasks p f d)) = map tk_id (db_tasks d)"
  by (simp add: map_tasks_def update_where_def)

lemma worker_known_map_tasks [simp, db_simps]:
  "worker_known (map_tasks p f d) w = worker_known d w"
  by (simp add: worker_known_def map_tasks_def split: option.splits)

lemma set_map_tasks:
  "set (db_tasks (map_tasks p f d)) = (\<lambda>t. if p t then f t else t) ` set (db_tasks d)"
  by (simp add: map_tasks_def set_update_where)

lemma attempt_ok_map_tasks:
  assumes a: "attempt_ok d a"
    and f: "\<And>t. t \<in> set (db_tasks d) \<Longrightarrow> p t \<Longrightarrow> tk_id (f t) = tk_id t \<and> tk_attempt t \<le> tk_attempt (f t)"
  shows "attempt_ok (map_tasks p f d) a"
proof -
  obtain t where t: "t \<in> set (db_tasks d)" "tk_id t = at_task a" "0 \<le> at_number a"
      "at_number a \<le> tk_attempt t"
    using a by (auto simp: attempt_ok_def)
  let ?u = "if p t then f t else t"
  have "?u \<in> set (db_tasks (map_tasks p f d))"
    using t(1) by (simp add: set_map_tasks)
  moreover have "tk_id ?u = at_task a" "at_number a \<le> tk_attempt ?u"
    using t f [OF t(1)] by (auto dest: order_trans)
  ultimately show ?thesis
    using a t(3) unfolding attempt_ok_def by auto
qed

lemma db_ok_map_tasks:
  assumes ok: "db_ok d"
    and f: "\<And>t. t \<in> set (db_tasks d) \<Longrightarrow> p t \<Longrightarrow> good_update d t (f t)"
  shows "db_ok (map_tasks p f d)"
proof -
  have keys: "keys_ok (map_tasks p f d)"
    using ok map_tasks_keys [of d p f] f by (simp add: db_ok_def keys_ok_def good_update_def)
  have "rows_ok (map_tasks p f d)"
    using ok f by (auto simp: db_ok_def rows_ok_def set_map_tasks good_update_def)
  moreover have "refs_ok (map_tasks p f d)"
  proof -
    have r: "result_refs (map_tasks p f d) = result_refs d"
      using f by (intro result_refs_map_tasks) (simp add: good_update_def)
    have "\<forall>a \<in> set (db_attempts d). attempt_ok (map_tasks p f d) a"
      using ok f by (auto simp: db_ok_def refs_ok_def good_update_def intro!: attempt_ok_map_tasks)
    then show ?thesis
      using ok f r by (auto simp: db_ok_def refs_ok_def set_map_tasks good_update_def)
  qed
  ultimately show ?thesis using keys by (simp add: db_ok_def)
qed

lemma worker_known_extend [simp, db_simps]:
  "worker_known (d\<lparr>db_attempts := xs\<rparr>) w = worker_known d w"
  "worker_known (d\<lparr>db_policies := ps\<rparr>) w = worker_known d w"
  "worker_known (d\<lparr>db_results := rs\<rparr>) w = worker_known d w"
  "worker_known (d\<lparr>db_tasks := ts\<rparr>) w = worker_known d w"
  by (simp_all add: worker_known_def split: option.splits)

lemma attempt_ok_extend [simp, db_simps]:
  "attempt_ok (d\<lparr>db_attempts := xs\<rparr>) a = attempt_ok d a"
  by (simp add: attempt_ok_def)

lemma db_ok_add_attempts:
  assumes "db_ok d" and "\<forall>a \<in> set xs. attempt_ok d a"
  shows "db_ok (d\<lparr>db_attempts := db_attempts d @ xs\<rparr>)"
  using assms
  by (auto simp: db_ok_def keys_ok_def refs_ok_def rows_ok_def result_refs_def)

subsection \<open>How a row may evolve\<close>

text \<open>
  The order every statement respects between the database it finds and the one it
  leaves. The identity of a task never changes; its attempt number never goes back;
  while the attempt number stays, the task only moves forward and keeps the worker
  that holds it (so an attempt number names one holder); its status follows the table
  of legal moves; a terminal row is frozen but for its result body, which retention
  may take. Recorded attempts are never rewritten.
\<close>

definition status_rank :: "string \<Rightarrow> nat" where
  "status_rank s = (if s = QUEUED then 0 else if s = ASSIGNED then 1 else if s = RUNNING then 2 else 3)"

lemma status_rank_simps [simp]:
  "status_rank QUEUED = 0" "status_rank ASSIGNED = 1" "status_rank RUNNING = 2"
  "status_rank COMPLETED = 3" "status_rank FAILED = 3" "status_rank CANCELLED = 3"
  by (simp_all add: status_rank_def)

definition same_identity :: "task_row \<Rightarrow> task_row \<Rightarrow> bool" where
  "same_identity t u \<longleftrightarrow> tk_id u = tk_id t \<and> tk_type u = tk_type t \<and> tk_payload u = tk_payload t
     \<and> tk_parameters u = tk_parameters t \<and> tk_priority u = tk_priority t
     \<and> tk_correlation u = tk_correlation t \<and> tk_created_at u = tk_created_at t"

definition frozen :: "task_row \<Rightarrow> task_row \<Rightarrow> bool" where
  "frozen t u \<longleftrightarrow> u = t \<or> u = t\<lparr>tk_result := None\<rparr>"

definition same_attempt :: "task_row \<Rightarrow> task_row \<Rightarrow> bool" where
  "same_attempt t u \<longleftrightarrow> status_rank (tk_status t) \<le> status_rank (tk_status u)
     \<and> (tk_worker t \<noteq> None \<longrightarrow> tk_worker u = tk_worker t)"

definition row_evolves :: "task_row \<Rightarrow> task_row \<Rightarrow> bool" where
  "row_evolves t u \<longleftrightarrow> same_identity t u \<and> tk_attempt t \<le> tk_attempt u
     \<and> (tk_attempt u = tk_attempt t \<longrightarrow> same_attempt t u)
     \<and> (tk_status t \<in> TERMINAL_STATES \<longrightarrow> frozen t u)
     \<and> (tk_status t, tk_status u) \<in> legal_moves\<^sup>*"

definition evolves :: "db \<Rightarrow> db \<Rightarrow> bool" where
  "evolves d e \<longleftrightarrow> (\<forall>t \<in> set (db_tasks d). \<exists>u \<in> set (db_tasks e). row_evolves t u)
     \<and> set (db_attempts d) \<subseteq> set (db_attempts e)"

lemma row_evolves_refl [simp]: "row_evolves t t"
  by (simp add: row_evolves_def same_identity_def same_attempt_def frozen_def)

lemma frozen_trans: "frozen t u \<Longrightarrow> frozen u v \<Longrightarrow> frozen t v"
  by (auto simp: frozen_def)

lemma frozen_status: "frozen t u \<Longrightarrow> tk_status u = tk_status t"
  by (auto simp: frozen_def)

lemma row_evolves_trans:
  assumes tu: "row_evolves t u" and uv: "row_evolves u v"
  shows "row_evolves t v"
proof -
  have "tk_attempt v = tk_attempt t \<Longrightarrow> same_attempt t v"
    using tu uv by (auto simp: row_evolves_def same_attempt_def)
  moreover have "tk_status t \<in> TERMINAL_STATES \<Longrightarrow> frozen t v"
    using tu uv frozen_status [of t u] frozen_trans [of t u v] by (auto simp: row_evolves_def)
  ultimately show ?thesis
    using tu uv by (auto simp: row_evolves_def same_identity_def)
qed

lemma evolves_refl [simp]: "evolves d d"
  unfolding evolves_def by (blast intro: row_evolves_refl)

lemma evolves_trans: "evolves d e \<Longrightarrow> evolves e f \<Longrightarrow> evolves d f"
  unfolding evolves_def by (blast intro: row_evolves_trans)

lemma evolves_map_tasks:
  assumes f: "\<And>t. t \<in> set (db_tasks d) \<Longrightarrow> p t \<Longrightarrow> row_evolves t (f t)"
  shows "evolves d (map_tasks p f d)"
proof -
  have "\<exists>u \<in> set (db_tasks (map_tasks p f d)). row_evolves t u" if t: "t \<in> set (db_tasks d)" for t
  proof (rule bexI)
    show "row_evolves t (if p t then f t else t)" using f [OF t] by simp
    show "(if p t then f t else t) \<in> set (db_tasks (map_tasks p f d))"
      unfolding set_map_tasks using t by (rule imageI)
  qed
  then show ?thesis by (simp add: evolves_def)
qed

lemma evolves_extend [simp]:
  "evolves d (d\<lparr>db_policies := ps\<rparr>)" "evolves d (d\<lparr>db_workers := ws\<rparr>)"
  "evolves d (d\<lparr>db_tasks := db_tasks d @ ts\<rparr>)" "evolves d (d\<lparr>db_attempts := db_attempts d @ xs\<rparr>)"
  by (auto simp: evolves_def intro: row_evolves_refl bexI)

lemma evolves_find:
  assumes "evolves d e" "db_ok e" "find_task d i = Some t"
  obtains u where "find_task e i = Some u" "row_evolves t u"
proof -
  obtain u where u: "u \<in> set (db_tasks e)" "row_evolves t u"
    using assms(1) find_task_mem [OF assms(3)] unfolding evolves_def by blast
  moreover have "tk_id u = i"
    using u(2) find_task_mem [OF assms(3)] by (simp add: row_evolves_def same_identity_def)
  ultimately show ?thesis
    using that find_task_unique [OF db_ok_distinct [OF assms(2)] u(1)] by simp
qed

lemma legal_moves_step [simp]:
  "(QUEUED, ASSIGNED) \<in> legal_moves\<^sup>*" "(QUEUED, CANCELLED) \<in> legal_moves\<^sup>*"
  "(ASSIGNED, RUNNING) \<in> legal_moves\<^sup>*" "(ASSIGNED, FAILED) \<in> legal_moves\<^sup>*"
  "(ASSIGNED, QUEUED) \<in> legal_moves\<^sup>*" "(RUNNING, QUEUED) \<in> legal_moves\<^sup>*"
  "(RUNNING, FAILED) \<in> legal_moves\<^sup>*" "(RUNNING, COMPLETED) \<in> legal_moves\<^sup>*"
  "(RUNNING, CANCELLED) \<in> legal_moves\<^sup>*" "(ASSIGNED, CANCELLED) \<in> legal_moves\<^sup>*"
  by (auto simp: legal_moves_def)

lemma legal_moves_complete [simp]: "(ASSIGNED, COMPLETED) \<in> legal_moves\<^sup>*"
  by (rule rtrancl_trans [of _ RUNNING]) simp_all

subsection \<open>Statements\<close>

text \<open>
  An exception rolls the transaction back: the database a caller goes on with is the
  one the statement returned, or the one it started from.
\<close>

definition committed :: "exn + 'r \<times> db \<Rightarrow> db \<Rightarrow> db" where
  "committed r d = (case r of Inl _ \<Rightarrow> d | Inr (_, d') \<Rightarrow> d')"

lemma committed_simps [simp]: "committed (Inl e) d = d" "committed (Inr (x, d')) d = d'"
  by (simp_all add: committed_def)

lemma committed_ok:
  "(\<And>x d'. r = Inr (x, d') \<Longrightarrow> db_ok d' \<and> evolves d d') \<Longrightarrow> db_ok d \<Longrightarrow>
   db_ok (committed r d) \<and> evolves d (committed r d)"
  by (auto simp: committed_def split: sum.splits)

text \<open>
  The contract every statement of the coordinator honours; \<open>pre\<close> is what its callers
  guarantee (an identifier that is new, a status the module may write).
\<close>

locale db_statement =
  fixes run :: "'a \<Rightarrow> db \<Rightarrow> db"
    and pre :: "'a \<Rightarrow> db \<Rightarrow> bool"
  assumes keeps_ok: "pre a d \<Longrightarrow> db_ok d \<Longrightarrow> db_ok (run a d)"
    and run_evolves: "pre a d \<Longrightarrow> db_ok d \<Longrightarrow> evolves d (run a d)"
begin

lemma terminal_frozen:
  assumes "pre a d" "db_ok d" "find_task d i = Some t" "tk_status t \<in> TERMINAL_STATES"
  shows "\<exists>u. find_task (run a d) i = Some u \<and> frozen t u"
  using evolves_find [OF run_evolves [OF assms(1,2)] keeps_ok [OF assms(1,2)] assms(3)] assms(4)
  by (metis row_evolves_def)

lemma one_holder:
  assumes "pre a d" "db_ok d" "find_task d i = Some t" "tk_worker t = Some w"
    and "find_task (run a d) i = Some u" "tk_attempt u = tk_attempt t"
  shows "tk_worker u = Some w"
proof -
  obtain v where "find_task (run a d) i = Some v" "row_evolves t v"
    using evolves_find [OF run_evolves [OF assms(1,2)] keeps_ok [OF assms(1,2)] assms(3)] .
  with assms(4-) show ?thesis by (simp add: row_evolves_def same_attempt_def)
qed

end

lemma db_statement_committed:
  assumes "\<And>a d x d'. pre a d \<Longrightarrow> db_ok d \<Longrightarrow> f a d = Inr (x, d') \<Longrightarrow> db_ok d' \<and> evolves d d'"
  shows "db_statement (\<lambda>a d. committed (f a d) d) pre"
proof -
  have "db_ok (committed (f a d) d) \<and> evolves d (committed (f a d) d)" if "pre a d" "db_ok d" for a d
    by (rule committed_ok) (use assms that in simp_all)
  then show ?thesis by unfold_locales simp_all
qed

end
