(* ===== verification/TaskPolicies.thy ===== *)
theory TaskPolicies
  imports Models
begin

text \<open>
  \<open>coordinator/app/task_policies.py\<close>: the per-type overrides of the timeouts and of
  the attempt cap. The functions that build an SQL expression (\<open>policy_seconds\<close>,
  \<open>max_execution_seconds\<close>, \<open>max_attempts\<close>) are modelled by the value the expression
  has on a task type; the operator's writes by functions on \<open>db\<close>. The interface
  \<open>policy_store\<close> is a keyed store with an upsert; the report of the effective
  policies is proved to be what the statements resolve.
\<close>

definition POLICY_FIELDS :: "string list" where
  "POLICY_FIELDS = [''ack_timeout_seconds'', ''lease_ttl_seconds'', ''max_execution_seconds'',
     ''max_attempts'']"

definition MIN_POLICY_SECONDS :: int where "MIN_POLICY_SECONDS = 1"
definition MAX_POLICY_SECONDS :: int where "MAX_POLICY_SECONDS = 86400"
definition MIN_MAX_ATTEMPTS :: int where "MIN_MAX_ATTEMPTS = 1"
definition MAX_MAX_ATTEMPTS :: int where "MAX_MAX_ATTEMPTS = 100"

lemmas policy_bound_defs = MIN_POLICY_SECONDS_def MAX_POLICY_SECONDS_def
  MIN_MAX_ATTEMPTS_def MAX_MAX_ATTEMPTS_def

subsection \<open>Columns\<close>

definition policy_column :: "string \<Rightarrow> policy_row \<Rightarrow> int option" where
  "policy_column f p =
     (if f = ''ack_timeout_seconds'' then po_ack p
      else if f = ''lease_ttl_seconds'' then po_lease p
      else if f = ''max_execution_seconds'' then po_exec p
      else if f = ''max_attempts'' then po_attempts p
      else None)"

definition assign_column :: "string \<times> int \<Rightarrow> policy_row \<Rightarrow> policy_row" where
  "assign_column a p = (case a of (f, v) \<Rightarrow>
     if f = ''ack_timeout_seconds'' then p\<lparr>po_ack := Some v\<rparr>
     else if f = ''lease_ttl_seconds'' then p\<lparr>po_lease := Some v\<rparr>
     else if f = ''max_execution_seconds'' then p\<lparr>po_exec := Some v\<rparr>
     else if f = ''max_attempts'' then p\<lparr>po_attempts := Some v\<rparr>
     else p)"

definition assign_columns :: "(string \<times> int) list \<Rightarrow> policy_row \<Rightarrow> policy_row" where
  "assign_columns values p = fold assign_column values p"

definition stored_policy :: "db \<Rightarrow> string \<Rightarrow> string \<Rightarrow> int option" where
  "stored_policy d f ty = (case find_policy d ty of None \<Rightarrow> None | Some p \<Rightarrow> policy_column f p)"

fun coalesce :: "'a option \<Rightarrow> 'a \<Rightarrow> 'a" where
  "coalesce (Some x) _ = x"
| "coalesce None y = y"

subsection \<open>The expressions the statements resolve\<close>

definition policy_seconds :: "string \<Rightarrow> exn + (db \<Rightarrow> string \<Rightarrow> int \<Rightarrow> int)" where
  "policy_seconds column =
     (if column \<notin> set POLICY_FIELDS then Inl ValueError
      else Inr (\<lambda>d ty dflt. coalesce (stored_policy d column ty) dflt))"

definition ack_seconds :: "settings \<Rightarrow> db \<Rightarrow> string \<Rightarrow> int" where
  "ack_seconds c d ty = (case policy_seconds ''ack_timeout_seconds'' of
      Inr e \<Rightarrow> e d ty (cf_ack_timeout c) | Inl _ \<Rightarrow> 0)"

definition lease_seconds :: "settings \<Rightarrow> db \<Rightarrow> string \<Rightarrow> int" where
  "lease_seconds c d ty = (case policy_seconds ''lease_ttl_seconds'' of
      Inr e \<Rightarrow> e d ty (cf_lease_ttl c) | Inl _ \<Rightarrow> 0)"

definition max_execution_default_case :: "settings \<Rightarrow> string \<Rightarrow> int" where
  "max_execution_default_case c ty = (case map_of DEFAULT_MAX_EXECUTION_SECONDS ty of
      Some s \<Rightarrow> s | None \<Rightarrow> cf_exec_default c)"

definition max_execution_seconds :: "settings \<Rightarrow> db \<Rightarrow> string \<Rightarrow> int" where
  "max_execution_seconds c d ty =
     coalesce (stored_policy d ''max_execution_seconds'' ty) (max_execution_default_case c ty)"

definition max_attempts :: "settings \<Rightarrow> db \<Rightarrow> string \<Rightarrow> int" where
  "max_attempts c d ty = (case policy_seconds ''max_attempts'' of
      Inr e \<Rightarrow> e d ty (cf_max_attempts c) | Inl _ \<Rightarrow> 0)"

lemma resolve_simps:
  "ack_seconds c d ty = coalesce (stored_policy d ''ack_timeout_seconds'' ty) (cf_ack_timeout c)"
  "lease_seconds c d ty = coalesce (stored_policy d ''lease_ttl_seconds'' ty) (cf_lease_ttl c)"
  "max_attempts c d ty = coalesce (stored_policy d ''max_attempts'' ty) (cf_max_attempts c)"
  by (simp_all add: ack_seconds_def lease_seconds_def max_attempts_def policy_seconds_def
      POLICY_FIELDS_def)

subsection \<open>The operator's operations\<close>

definition default_policy :: "settings \<Rightarrow> string \<Rightarrow> exn + (string \<times> int) list" where
  "default_policy c ty =
     (if ty \<notin> set task_type_names then Inl (UnknownTaskType ty)
      else Inr [(''ack_timeout_seconds'', cf_ack_timeout c),
                (''lease_ttl_seconds'', cf_lease_ttl c),
                (''max_execution_seconds'', max_execution_default_case c ty),
                (''max_attempts'', cf_max_attempts c)])"

definition policy_bounds :: "string \<Rightarrow> int \<times> int" where
  "policy_bounds f = (if f = ''max_attempts'' then (MIN_MAX_ATTEMPTS, MAX_MAX_ATTEMPTS)
     else (MIN_POLICY_SECONDS, MAX_POLICY_SECONDS))"

definition in_bounds :: "string \<Rightarrow> int \<Rightarrow> bool" where
  "in_bounds f n \<longleftrightarrow> fst (policy_bounds f) \<le> n \<and> n \<le> snd (policy_bounds f)"

text \<open>The loop of \<open>validate_policy\<close>; the exception carries the field it names.\<close>

fun clean_fields :: "pydict \<Rightarrow> (string \<times> int) list \<Rightarrow> exn + (string \<times> int) list" where
  "clean_fields [] cleaned = Inr cleaned"
| "clean_fields ((f, v) # rest) cleaned =
     (if f \<notin> set POLICY_FIELDS then Inl (InvalidTaskPolicy f)
      else if v = PNone then clean_fields rest cleaned
      else case py_int v of
          Inl e \<Rightarrow> Inl (if e = TypeError \<or> e = ValueError then InvalidTaskPolicy f else e)
        | Inr n \<Rightarrow>
            if in_bounds f n then clean_fields rest (AList.update f n cleaned)
            else Inl (InvalidTaskPolicy f))"

definition validate_policy :: "pydict \<Rightarrow> exn + (string \<times> int) list" where
  "validate_policy values = (case clean_fields values [] of
      Inl e \<Rightarrow> Inl e
    | Inr cleaned \<Rightarrow> if cleaned = [] then Inl (InvalidTaskPolicy []) else Inr cleaned)"

definition get_overrides :: "db \<Rightarrow> (string \<times> policy_row) list" where
  "get_overrides d = map (\<lambda>p. (po_type p, p)) (db_policies d)"

record policy_entry =
  pe_type :: string
  pe_values :: "(string \<times> int \<times> string) list"
  pe_updated_at :: "time option"

definition field_entry :: "(string \<times> int) list \<Rightarrow> policy_row option \<Rightarrow> string \<Rightarrow> string \<times> int \<times> string" where
  "field_entry defaults row f = (case row of
      Some p \<Rightarrow> (case policy_column f p of
          Some v \<Rightarrow> (f, v, ''policy'')
        | None \<Rightarrow> (f, the (map_of defaults f), ''default''))
    | None \<Rightarrow> (f, the (map_of defaults f), ''default''))"

definition report_entry :: "settings \<Rightarrow> db \<Rightarrow> string \<Rightarrow> exn + policy_entry" where
  "report_entry c d ty = bind_exn (default_policy c ty) (\<lambda>defaults.
     let row = map_of (get_overrides d) ty
     in Inr \<lparr>pe_type = ty, pe_values = map (field_entry defaults row) POLICY_FIELDS,
             pe_updated_at = map_option po_updated_at row\<rparr>)"

fun collect :: "('a \<Rightarrow> exn + 'b) \<Rightarrow> 'a list \<Rightarrow> exn + 'b list" where
  "collect f [] = Inr []"
| "collect f (x # xs) = bind_exn (f x) (\<lambda>y. bind_exn (collect f xs) (\<lambda>ys. Inr (y # ys)))"

text \<open>The registered types in \<open>sorted\<close> order.\<close>

definition sorted_types :: "string list" where
  "sorted_types = [''count_to_n'', ''hash_rounds'', ''opaque_payload'', ''sleep'']"

definition effective_policies :: "settings \<Rightarrow> db \<Rightarrow> exn + policy_entry list" where
  "effective_policies c d = collect (report_entry c d) sorted_types"

definition fresh_policy :: "string \<Rightarrow> time \<Rightarrow> policy_row" where
  "fresh_policy ty now = \<lparr>po_type = ty, po_ack = None, po_lease = None, po_exec = None,
     po_attempts = None, po_updated_at = now\<rparr>"

text \<open>
  The upsert. Without a value the column list of the statement is empty and the
  server rejects it; so it does an unknown column or a number no \<open>Integer\<close> holds.
\<close>

definition upsert_policy :: "string \<Rightarrow> (string \<times> int) list \<Rightarrow> time \<Rightarrow> db \<Rightarrow> db" where
  "upsert_policy ty values now d = d\<lparr>db_policies :=
     (if find_policy d ty = None
      then db_policies d @ [assign_columns values (fresh_policy ty now)]
      else update_where (\<lambda>p. po_type p = ty)
             (\<lambda>p. (assign_columns values p)\<lparr>po_updated_at := now\<rparr>) (db_policies d))\<rparr>"

definition set_policy :: "string \<Rightarrow> (string \<times> int) list \<Rightarrow> time \<Rightarrow> db \<Rightarrow> exn + db" where
  "set_policy ty values now d =
     (if ty \<notin> set task_type_names then Inl (UnknownTaskType ty)
      else if values = [] \<or> (\<exists>(f, n) \<in> set values. f \<notin> set POLICY_FIELDS \<or> \<not> int4_ok n)
      then Inl DatabaseError
      else Inr (upsert_policy ty values now d))"

definition delete_policy :: "string \<Rightarrow> db \<Rightarrow> db" where
  "delete_policy ty d = d\<lparr>db_policies := filter (\<lambda>p. po_type p \<noteq> ty) (db_policies d)\<rparr>"

definition clear_policy :: "string \<Rightarrow> db \<Rightarrow> exn + (bool \<times> db)" where
  "clear_policy ty d =
     (if ty \<notin> set task_type_names then Inl (UnknownTaskType ty)
      else Inr (find_policy d ty \<noteq> None, delete_policy ty d))"

subsection \<open>Validation\<close>

definition field_ok :: "string \<Rightarrow> pyval \<Rightarrow> bool" where
  "field_ok f v \<longleftrightarrow> f \<in> set POLICY_FIELDS
     \<and> (v = PNone \<or> (\<exists>n. py_int v = Inr n \<and> in_bounds f n))"

definition supplied :: "pyval \<Rightarrow> int option" where
  "supplied v = (if v = PNone then None else case py_int v of Inr n \<Rightarrow> Some n | Inl _ \<Rightarrow> None)"

lemma clean_fields_accepts:
  "(\<exists>cleaned. clean_fields vs acc = Inr cleaned) \<longleftrightarrow> (\<forall>(f, v) \<in> set vs. field_ok f v)"
  by (induction vs acc rule: clean_fields.induct) (auto simp: field_ok_def split: sum.splits)

lemma clean_fields_map:
  "clean_fields vs acc = Inr cleaned \<Longrightarrow> distinct (map fst vs) \<Longrightarrow>
   map_of cleaned f = (case Option.bind (map_of vs f) supplied of
       Some n \<Rightarrow> Some n | None \<Rightarrow> map_of acc f)"
proof (induction vs acc rule: clean_fields.induct)
  case (2 g v rest acc)
  show ?case
  proof (cases "v = PNone")
    case True
    with 2 have "map_of rest g = None"
      by (simp add: map_of_eq_None_iff)
    with 2 True show ?thesis
      by (auto simp: supplied_def split: if_splits option.splits)
  next
    case False
    with 2 have "map_of rest g = None"
      by (simp add: map_of_eq_None_iff)
    with 2 False show ?thesis
      by (auto simp: supplied_def update_conv' split: if_splits sum.splits option.splits)
  qed
qed simp

lemma clean_fields_distinct:
  "clean_fields vs acc = Inr cleaned \<Longrightarrow> distinct (map fst acc) \<Longrightarrow> distinct (map fst cleaned)"
  by (induction vs acc rule: clean_fields.induct) (auto split: if_splits sum.splits simp: distinct_update)

lemma validate_policy_accepts:
  "(\<exists>cleaned. validate_policy vs = Inr cleaned) \<longleftrightarrow>
     (\<forall>(f, v) \<in> set vs. field_ok f v) \<and> (\<exists>cleaned. clean_fields vs [] = Inr cleaned \<and> cleaned \<noteq> [])"
  using clean_fields_accepts [of vs "[]"]
  by (auto simp: validate_policy_def split: sum.splits)

lemma validate_policy_map:
  assumes "validate_policy vs = Inr cleaned" and "distinct (map fst vs)"
  shows "map_of cleaned f = Option.bind (map_of vs f) supplied"
proof -
  have "clean_fields vs [] = Inr cleaned"
    using assms(1) by (auto simp: validate_policy_def split: sum.splits if_splits)
  from clean_fields_map [OF this assms(2), of f] show ?thesis
    by (auto split: option.splits)
qed

lemma validate_policy_range:
  assumes v: "validate_policy vs = Inr cleaned" and d: "distinct (map fst vs)"
  shows "distinct (map fst cleaned)" "cleaned \<noteq> []"
    "\<And>f n. (f, n) \<in> set cleaned \<Longrightarrow> f \<in> set POLICY_FIELDS \<and> in_bounds f n"
proof -
  have c: "clean_fields vs [] = Inr cleaned" and ne: "cleaned \<noteq> []"
    using v by (auto simp: validate_policy_def split: sum.splits if_splits)
  show "cleaned \<noteq> []" by (rule ne)
  show dist: "distinct (map fst cleaned)" using clean_fields_distinct [OF c] by simp
  fix f n assume "(f, n) \<in> set cleaned"
  then have "map_of cleaned f = Some n" using dist by simp
  then obtain w where w: "map_of vs f = Some w" "supplied w = Some n"
    using validate_policy_map [OF v d, of f] by (auto simp: bind_eq_Some_conv)
  then have "field_ok f w" "w \<noteq> PNone" "py_int w = Inr n"
    using clean_fields_accepts [of vs "[]"] c
    by (auto simp: supplied_def dest!: map_of_SomeD split: if_splits sum.splits)
  then show "f \<in> set POLICY_FIELDS \<and> in_bounds f n"
    by (auto simp: field_ok_def)
qed

lemma in_bounds_int4: "in_bounds f n \<Longrightarrow> int4_ok n"
  by (auto simp: in_bounds_def policy_bounds_def policy_bound_defs int4_ok_def split: if_splits)

subsection \<open>The store\<close>

lemma assign_column_read:
  "g \<in> set POLICY_FIELDS \<Longrightarrow>
   policy_column f (assign_column (g, v) p) = (if f = g then Some v else policy_column f p)"
  by (auto simp: policy_column_def assign_column_def POLICY_FIELDS_def)

lemma assign_column_type [simp]: "po_type (assign_column a p) = po_type p"
  by (simp add: assign_column_def split: prod.splits)

lemma assign_columns_type [simp]: "po_type (assign_columns vs p) = po_type p"
  by (induction vs arbitrary: p) (simp_all add: assign_columns_def)

lemma assign_columns_read:
  "distinct (map fst vs) \<Longrightarrow> fst ` set vs \<subseteq> set POLICY_FIELDS \<Longrightarrow>
   policy_column f (assign_columns vs p) =
     (case map_of vs f of Some v \<Rightarrow> Some v | None \<Rightarrow> policy_column f p)"
proof (induction vs arbitrary: p)
  case (Cons a vs)
  obtain g v where a: "a = (g, v)" by (cases a)
  have "map_of vs g = None" using Cons.prems(1) a by (simp add: map_of_eq_None_iff)
  with Cons a show ?case
    by (auto simp: assign_columns_def assign_column_read split: option.splits)
qed (simp add: assign_columns_def)

lemma policy_column_updated_at [simp]:
  "policy_column f (p\<lparr>po_updated_at := t\<rparr>) = policy_column f p"
  by (simp add: policy_column_def)

lemma policy_column_fresh [simp]: "policy_column f (fresh_policy ty now) = None"
  by (simp add: policy_column_def fresh_policy_def)

lemma find_policy_upsert:
  "find_policy (upsert_policy ty vs now d) ty' =
     (if ty' = ty then Some (case find_policy d ty of
          None \<Rightarrow> assign_columns vs (fresh_policy ty now)
        | Some p \<Rightarrow> (assign_columns vs p)\<lparr>po_updated_at := now\<rparr>)
      else find_policy d ty')"
  by (auto simp: find_policy_def upsert_policy_def find_update_where find_snoc fresh_policy_def
      dest: find_key split: option.splits)

lemma find_policy_delete:
  "find_policy (delete_policy ty d) ty' = (if ty' = ty then None else find_policy d ty')"
  by (simp add: find_policy_def delete_policy_def find_filter_key)

lemma stored_policy_upsert:
  "distinct (map fst vs) \<Longrightarrow> fst ` set vs \<subseteq> set POLICY_FIELDS \<Longrightarrow>
   stored_policy (upsert_policy ty vs now d) f ty' =
     (if ty' = ty then (case map_of vs f of Some v \<Rightarrow> Some v | None \<Rightarrow> stored_policy d f ty)
      else stored_policy d f ty')"
  by (auto simp: stored_policy_def find_policy_upsert assign_columns_read split: option.splits)

lemma stored_policy_delete:
  "stored_policy (delete_policy ty d) f ty' = (if ty' = ty then None else stored_policy d f ty')"
  by (simp add: stored_policy_def find_policy_delete)

text \<open>
  The contract of the store, for any notion of reading: writing one key merges the
  update into what that key held and touches no other; deleting forgets the key.
\<close>

locale override_store =
  fixes read :: "'s \<Rightarrow> 'f \<Rightarrow> 'k \<Rightarrow> 'v option"
    and put :: "'k \<Rightarrow> ('f \<times> 'v) list \<Rightarrow> 's \<Rightarrow> 's"
    and del :: "'k \<Rightarrow> 's \<Rightarrow> 's"
    and good :: "('f \<times> 'v) list \<Rightarrow> bool"
  assumes read_put: "good vs \<Longrightarrow> read (put k vs s) f j =
      (if j = k then (case map_of vs f of Some v \<Rightarrow> Some v | None \<Rightarrow> read s f k) else read s f j)"
    and read_del: "read (del k s) f j = (if j = k then None else read s f j)"
begin

lemma put_idempotent: "good vs \<Longrightarrow> read (put k vs (put k vs s)) f j = read (put k vs s) f j"
  by (auto simp: read_put split: option.splits)

lemma put_commute:
  "good vs \<Longrightarrow> good ws \<Longrightarrow> j \<noteq> k \<Longrightarrow>
   read (put j vs (put k ws s)) f i = read (put k ws (put j vs s)) f i"
  by (auto simp: read_put split: option.splits)

lemma del_put: "good vs \<Longrightarrow> read (del k (put k vs s)) f j = read (del k s) f j"
  by (auto simp: read_put read_del)

lemma put_after_del: "good vs \<Longrightarrow> read (put k vs (del k s)) f k = map_of vs f"
  by (auto simp: read_put read_del split: option.splits)

end

definition good_columns :: "(string \<times> int) list \<Rightarrow> bool" where
  "good_columns vs \<longleftrightarrow> distinct (map fst vs) \<and> fst ` set vs \<subseteq> set POLICY_FIELDS"

text \<open>The policy table provides the contract, whatever the clock reads at each write.\<close>

interpretation policies: override_store stored_policy "\<lambda>ty vs. upsert_policy ty vs now"
  delete_policy good_columns for now
  by unfold_locales (auto simp: good_columns_def stored_policy_upsert stored_policy_delete)

lemma validated_good: "validate_policy vs = Inr cleaned \<Longrightarrow> distinct (map fst vs) \<Longrightarrow> good_columns cleaned"
  using validate_policy_range [of vs cleaned] by (fastforce simp: good_columns_def)

lemma set_policy_validated:
  assumes "validate_policy vs = Inr cleaned" "distinct (map fst vs)" "ty \<in> set task_type_names"
  shows "set_policy ty cleaned now d = Inr (upsert_policy ty cleaned now d)"
  using assms validate_policy_range [OF assms(1,2)] in_bounds_int4
  by (auto simp: set_policy_def)

subsection \<open>The report\<close>

lemma map_of_overrides: "map_of (get_overrides d) ty = find_policy d ty"
proof -
  have "map_of (map (\<lambda>p. (po_type p, p)) ps) ty = find (\<lambda>p. po_type p = ty) ps" for ps
    by (induction ps) auto
  then show ?thesis by (simp add: get_overrides_def find_policy_def)
qed

lemma sorted_types_registered: "set sorted_types = set task_type_names"
  by (auto simp: sorted_types_def task_type_names)

lemma report_entry_value:
  assumes "ty \<in> set task_type_names"
    and src: "\<And>f. src f = (if stored_policy d f ty = None then ''default'' else ''policy'')"
  shows "report_entry c d ty = Inr \<lparr>pe_type = ty, pe_values =
      [(''ack_timeout_seconds'', ack_seconds c d ty, src ''ack_timeout_seconds''),
       (''lease_ttl_seconds'', lease_seconds c d ty, src ''lease_ttl_seconds''),
       (''max_execution_seconds'', max_execution_seconds c d ty, src ''max_execution_seconds''),
       (''max_attempts'', max_attempts c d ty, src ''max_attempts'')],
      pe_updated_at = map_option po_updated_at (find_policy d ty)\<rparr>"
  using assms(1)
  by (simp add: report_entry_def default_policy_def bind_exn_def map_of_overrides field_entry_def
      POLICY_FIELDS_def resolve_simps max_execution_seconds_def stored_policy_def src
      split: option.splits)

lemma collect_Inr:
  "(\<And>x. x \<in> set xs \<Longrightarrow> f x = Inr (g x)) \<Longrightarrow> collect f xs = Inr (map g xs)"
  by (induction xs) (auto simp: bind_exn_def)

lemma db_ok_policies:
  "db_ok d \<Longrightarrow> distinct (map po_type ps) \<Longrightarrow> db_ok (d\<lparr>db_policies := ps\<rparr>)"
  by (auto simp: db_ok_def keys_ok_def refs_ok_def rows_ok_def result_refs_def attempt_ok_def)

lemma db_ok_upsert_policy: "db_ok d \<Longrightarrow> db_ok (upsert_policy ty vs now d)"
  unfolding upsert_policy_def
proof (rule db_ok_policies)
  assume "db_ok d"
  then have "distinct (map po_type (db_policies d))" by (simp add: db_ok_def keys_ok_def)
  then show "distinct (map po_type (if find_policy d ty = None
      then db_policies d @ [assign_columns vs (fresh_policy ty now)]
      else update_where (\<lambda>p. po_type p = ty)
             (\<lambda>p. (assign_columns vs p)\<lparr>po_updated_at := now\<rparr>) (db_policies d)))"
    by (auto simp: map_update_where fresh_policy_def find_policy_def find_None_iff)
qed

lemma db_ok_delete_policy: "db_ok d \<Longrightarrow> db_ok (delete_policy ty d)"
  unfolding delete_policy_def
  by (rule db_ok_policies) (auto simp: db_ok_def keys_ok_def distinct_map_filter)

lemma policy_frame [simp, db_simps]:
  "db_tasks (upsert_policy ty vs now d) = db_tasks d"
  "db_tasks (delete_policy ty d) = db_tasks d"
  by (simp_all add: upsert_policy_def delete_policy_def)

lemma policy_evolves: "evolves d (upsert_policy ty vs now d)" "evolves d (delete_policy ty d)"
  by (simp_all add: upsert_policy_def delete_policy_def)

interpretation upsert_stmt: db_statement "\<lambda>(ty, vs, now). upsert_policy ty vs now" "\<lambda>_ _. True"
  by unfold_locales (auto simp: db_ok_upsert_policy policy_evolves)

interpretation delete_stmt: db_statement delete_policy "\<lambda>_ _. True"
  by unfold_locales (auto simp: db_ok_delete_policy policy_evolves)

end
