(* ===== verification/TaskQueue.thy ===== *)
theory TaskQueue
  imports TaskPolicies
begin

text \<open>
  \<open>coordinator/app/task_queue.py\<close>, the queue itself: enqueueing, the claim that a
  dequeue makes in one statement, the moves a worker reports, cancellation, listing,
  the counters and the retention sweep. \<open>now\<close> is the clock of the statement, \<open>locked\<close>
  the rows other transactions hold when \<open>SKIP LOCKED\<close> walks the table; identifiers
  drawn from \<open>uuid4()\<close> are arguments. A worker identifier reaches these functions as
  \<open>str(uuid)\<close>, so comparing the strings is comparing the identifiers; a task
  identifier is whatever string the worker or the operator sent.
\<close>

datatype outcome = TRANSITIONED | NOOP | NOT_FOUND | NOT_OWNER | ILLEGAL | DUPLICATE
  | SUPERSEDED | FENCED | NOT_CANCELLABLE

definition DEFAULT_DEQUEUE_LIMIT :: int where "DEFAULT_DEQUEUE_LIMIT = 1"
definition DEFAULT_LIST_LIMIT :: int where "DEFAULT_LIST_LIMIT = 50"

text \<open>\<open>make_interval(secs => n)\<close>.\<close>

definition secs :: "int \<Rightarrow> time" where
  "secs n = of_int n"

subsection \<open>Enqueueing\<close>

definition validated_row ::
  "coercion \<Rightarrow> uuid \<Rightarrow> string \<Rightarrow> pydict option \<Rightarrow> pydict option \<Rightarrow> int \<Rightarrow> string \<Rightarrow> time \<Rightarrow> exn + task_row" where
  "validated_row co i ty params payload priority corr now =
     bind_exn (validate_parameters co ty params) (\<lambda>normalised.
       Inr \<lparr>tk_id = i, tk_type = ty, tk_payload = payload, tk_parameters = normalised,
            tk_priority = priority, tk_status = QUEUED, tk_worker = None,
            tk_assigned_at = None, tk_started_at = None, tk_lease = None, tk_deadline = None,
            tk_attempt = 0, tk_excluded = None, tk_not_before = None, tk_result = None,
            tk_completed_at = None, tk_correlation = corr, tk_created_at = now,
            tk_updated_at = now\<rparr>)"

text \<open>The INSERT: the primary key must be new and the priority must fit its column.\<close>

definition insert_tasks :: "task_row list \<Rightarrow> db \<Rightarrow> exn + db" where
  "insert_tasks rows d =
     (if \<not> distinct (map tk_id (db_tasks d @ rows)) \<or> (\<exists>t \<in> set rows. \<not> int4_ok (tk_priority t))
      then Inl DatabaseError
      else Inr (d\<lparr>db_tasks := db_tasks d @ rows\<rparr>))"

definition enqueue ::
  "coercion \<Rightarrow> uuid \<Rightarrow> string \<Rightarrow> string \<Rightarrow> pydict option \<Rightarrow> pydict option \<Rightarrow> int \<Rightarrow> time \<Rightarrow> db
     \<Rightarrow> exn + uuid \<times> db" where
  "enqueue co i ty corr params payload priority now d =
     bind_exn (validated_row co i ty params payload priority corr now) (\<lambda>row.
     bind_exn (insert_tasks [row] d) (\<lambda>d'. Inr (tk_id row, d')))"

definition enqueue_batch ::
  "coercion \<Rightarrow> (nat \<Rightarrow> uuid) \<Rightarrow> string \<Rightarrow> string \<Rightarrow> int \<Rightarrow> int \<Rightarrow> pydict option \<Rightarrow> pydict option \<Rightarrow> int
     \<Rightarrow> time \<Rightarrow> db \<Rightarrow> exn + uuid list \<times> db" where
  "enqueue_batch co ids ty corr count max_batch params payload priority now d =
     (if count < 1 then Inl QueueLimitExceeded
      else if count > max_batch then Inl QueueLimitExceeded
      else bind_exn
        (collect (\<lambda>k. validated_row co (ids k) ty params payload priority corr now) [0..<nat count])
        (\<lambda>rows. bind_exn (insert_tasks rows d) (\<lambda>d'. Inr (map tk_id rows, d'))))"

subsection \<open>Claiming\<close>

text \<open>The retry-eligibility predicate; a comparison with a NULL \<open>not_before\<close> is not true.\<close>

definition eligible :: "settings \<Rightarrow> uuid \<Rightarrow> time \<Rightarrow> task_row \<Rightarrow> bool" where
  "eligible c w now t \<longleftrightarrow>
     (tk_not_before t = None \<or> opt_cmp (\<lambda>b. b \<le> now) (tk_not_before t))
   \<and> (tk_excluded t = None \<or> opt_cmp (\<lambda>e. e \<noteq> w) (tk_excluded t)
      \<or> opt_cmp (\<lambda>b. b + secs (cf_exclusion c) \<le> now) (tk_not_before t))"

definition claimable ::
  "settings \<Rightarrow> uuid \<Rightarrow> string list option \<Rightarrow> uuid set \<Rightarrow> time \<Rightarrow> task_row \<Rightarrow> bool" where
  "claimable c w types locked now t \<longleftrightarrow> tk_status t = QUEUED
     \<and> (case types of None \<Rightarrow> True | Some ts \<Rightarrow> tk_type t \<in> set ts)
     \<and> eligible c w now t \<and> tk_id t \<notin> locked"

definition queue_key :: "task_row \<Rightarrow> int \<times> time" where
  "queue_key t = (tk_priority t, tk_created_at t)"

definition claim_list ::
  "settings \<Rightarrow> uuid \<Rightarrow> int \<Rightarrow> string list option \<Rightarrow> uuid set \<Rightarrow> time \<Rightarrow> db \<Rightarrow> task_row list" where
  "claim_list c w limit types locked now d =
     take (nat limit) (sort_key queue_key (filter (claimable c w types locked now) (db_tasks d)))"

definition claim_stamp :: "settings \<Rightarrow> db \<Rightarrow> uuid \<Rightarrow> time \<Rightarrow> task_row \<Rightarrow> task_row" where
  "claim_stamp c d w now t = t\<lparr>tk_status := ASSIGNED, tk_worker := Some w,
     tk_assigned_at := Some now,
     tk_lease := Some (now + secs (ack_seconds c d (tk_type t))),
     tk_deadline := Some (now + secs (max_execution_seconds c d (tk_type t))),
     tk_updated_at := now\<rparr>"

text \<open>
  Claim, stamp and return in one statement. The rows come back in claim order, the
  order the CTE produces them in. Naming a worker that does not exist violates the
  foreign key as soon as one row is written.
\<close>

definition dequeue ::
  "settings \<Rightarrow> uuid \<Rightarrow> int \<Rightarrow> int \<Rightarrow> string list option \<Rightarrow> uuid set \<Rightarrow> time \<Rightarrow> db
     \<Rightarrow> exn + task_row list \<times> db" where
  "dequeue c w limit max_batch types locked now d =
     (if limit < 1 then Inl QueueLimitExceeded
      else if limit > max_batch then Inl QueueLimitExceeded
      else if types = Some [] then Inl QueueLimitExceeded
      else let claimed = claim_list c w limit types locked now d
           in if claimed \<noteq> [] \<and> \<not> worker_known d (Some w) then Inl ForeignKeyViolation
              else Inr (map (claim_stamp c d w now) claimed,
                map_tasks (\<lambda>t. tk_id t \<in> tk_id ` set claimed) (claim_stamp c d w now) d))"

subsection \<open>Moves reported by a worker\<close>

definition start_stamp :: "settings \<Rightarrow> db \<Rightarrow> time \<Rightarrow> task_row \<Rightarrow> task_row" where
  "start_stamp c d now t =
     (let deadline = now + secs (max_execution_seconds c d (tk_type t));
          lease = now + secs (lease_seconds c d (tk_type t))
      in t\<lparr>tk_started_at := Some now, tk_deadline := Some deadline,
           tk_lease := Some (min lease deadline)\<rparr>)"

definition settle :: "task_row \<Rightarrow> task_row" where
  "settle t = t\<lparr>tk_lease := None, tk_deadline := None, tk_not_before := None, tk_excluded := None\<rparr>"

definition status_stamp :: "settings \<Rightarrow> db \<Rightarrow> string \<Rightarrow> time \<Rightarrow> task_row \<Rightarrow> task_row" where
  "status_stamp c d new_status now t =
     (if new_status = RUNNING then start_stamp c d now t
      else if is_terminal new_status = Inr True then settle t
      else t)\<lparr>tk_status := new_status, tk_updated_at := now\<rparr>"

definition mark_status ::
  "settings \<Rightarrow> string \<Rightarrow> uuid \<Rightarrow> string \<Rightarrow> time \<Rightarrow> db \<Rightarrow> exn + outcome \<times> db" where
  "mark_status c task_id w new_status now d = (case parse_uuid task_id of
      None \<Rightarrow> Inr (NOT_FOUND, d)
    | Some i \<Rightarrow> (case find_task d i of
          None \<Rightarrow> Inr (NOT_FOUND, d)
        | Some t \<Rightarrow>
            if tk_worker t \<noteq> Some w then Inr (NOT_OWNER, d)
            else case check_transition (tk_status t) new_status of
                Inl (InvalidTaskTransition _ _) \<Rightarrow> Inr (ILLEGAL, d)
              | Inl e \<Rightarrow> Inl e
              | Inr False \<Rightarrow> Inr (NOOP, d)
              | Inr True \<Rightarrow> Inr (TRANSITIONED, set_task i (status_stamp c d new_status now) d)))"

definition cancel_queued_task :: "string \<Rightarrow> time \<Rightarrow> db \<Rightarrow> exn + (outcome \<times> string option) \<times> db" where
  "cancel_queued_task task_id now d = (case parse_uuid task_id of
      None \<Rightarrow> Inr ((NOT_FOUND, None), d)
    | Some i \<Rightarrow> (case find_task d i of
          None \<Rightarrow> Inr ((NOT_FOUND, None), d)
        | Some t \<Rightarrow>
            if tk_status t \<noteq> QUEUED then Inr ((NOT_CANCELLABLE, Some (tk_status t)), d)
            else bind_exn (check_transition QUEUED CANCELLED) (\<lambda>_.
              Inr ((TRANSITIONED, Some (tk_status t)),
                set_task i (\<lambda>t. t\<lparr>tk_status := CANCELLED, tk_updated_at := now\<rparr>) d))))"

subsection \<open>Reading\<close>

definition get_task :: "db \<Rightarrow> string \<Rightarrow> (task_row \<times> result_row option) option" where
  "get_task d task_id = (case parse_uuid task_id of
      None \<Rightarrow> None
    | Some i \<Rightarrow> map_option (\<lambda>t. (t, Option.bind (tk_result t) (find_result d))) (find_task d i))"

definition listing_key :: "task_row \<Rightarrow> time \<times> uuid" where
  "listing_key t = (tk_created_at t, tk_id t)"

record task_filter =
  fl_statuses :: "string list"
  fl_type :: "string option"
  fl_worker :: "uuid option"
  fl_correlation :: "string option"

definition listed :: "task_filter \<Rightarrow> task_row \<Rightarrow> bool" where
  "listed f t \<longleftrightarrow> (fl_statuses f = [] \<or> tk_status t \<in> set (fl_statuses f))
     \<and> (case fl_type f of None \<Rightarrow> True | Some ty \<Rightarrow> tk_type t = ty)
     \<and> (case fl_worker f of None \<Rightarrow> True | Some w \<Rightarrow> tk_worker t = Some w)
     \<and> (case fl_correlation f of None \<Rightarrow> True | Some s \<Rightarrow> tk_correlation t = s)"

definition listing :: "task_filter \<Rightarrow> db \<Rightarrow> task_row list" where
  "listing f d = rev (sort_key listing_key (filter (listed f) (db_tasks d)))"

definition filter_type_known :: "task_filter \<Rightarrow> exn + unit" where
  "filter_type_known f = (case fl_type f of
      Some ty \<Rightarrow> if ty \<notin> set task_type_names then Inl (UnknownTaskType ty) else Inr ()
    | None \<Rightarrow> Inr ())"

definition list_tasks ::
  "task_filter \<Rightarrow> int \<Rightarrow> int \<Rightarrow> int \<Rightarrow> db \<Rightarrow> exn + task_row list \<times> bool" where
  "list_tasks f limit offset max_limit d =
     (if limit < 1 then Inl QueueLimitExceeded
      else if limit > max_limit then Inl QueueLimitExceeded
      else if offset < 0 then Inl QueueLimitExceeded
      else case find (\<lambda>s. s \<notin> TASK_STATES) (fl_statuses f) of
          Some s \<Rightarrow> Inl (UnknownTaskState s)
        | None \<Rightarrow> bind_exn (filter_type_known f) (\<lambda>_.
            let rows = take (nat (limit + 1)) (drop (nat offset) (listing f d))
            in Inr (take (nat limit) rows, length rows > nat limit)))"

definition queue_depth :: "db \<Rightarrow> nat" where
  "queue_depth d = length (filter (\<lambda>t. tk_status t = QUEUED) (db_tasks d))"

definition counts_by_status :: "db \<Rightarrow> (string \<times> nat) list" where
  "counts_by_status d = map (\<lambda>s. (s, length (filter (\<lambda>t. tk_status t = s) (db_tasks d))))
     (remdups (map tk_status (db_tasks d)))"

definition minute_of :: "time \<Rightarrow> time" where
  "minute_of x = of_int (\<lfloor>x / 60\<rfloor>) * 60"

definition minute_buckets :: "int \<Rightarrow> time \<Rightarrow> time list" where
  "minute_buckets minutes now =
     map (\<lambda>k. minute_of now - of_int (minutes - 1) * 60 + of_nat k * 60) [0..<nat minutes]"

definition completed_in :: "time \<Rightarrow> task_row \<Rightarrow> bool" where
  "completed_in bucket t = opt_cmp (\<lambda>x. minute_of x = bucket) (tk_completed_at t)"

definition window_start :: "int \<Rightarrow> time \<Rightarrow> time" where
  "window_start minutes now = minute_of now - of_int (minutes - 1) * 60"

definition completions_per_minute ::
  "int \<Rightarrow> int \<Rightarrow> time \<Rightarrow> db \<Rightarrow> exn + (time \<times> nat) list" where
  "completions_per_minute minutes max_minutes now d =
     (if minutes < 1 then Inl QueueLimitExceeded
      else if minutes > max_minutes then Inl QueueLimitExceeded
      else let hits = filter (\<lambda>t. opt_cmp (\<lambda>x. window_start minutes now \<le> x) (tk_completed_at t))
                        (db_tasks d)
           in Inr (map (\<lambda>b. (b, length (filter (completed_in b) hits))) (minute_buckets minutes now)))"

subsection \<open>Retention\<close>

text \<open>The foreign key clears the reference of every task whose result goes.\<close>

definition unlink_results :: "uuid set \<Rightarrow> task_row \<Rightarrow> task_row" where
  "unlink_results gone t =
     (if opt_cmp (\<lambda>r. r \<in> gone) (tk_result t) then t\<lparr>tk_result := None\<rparr> else t)"

definition overdue_result :: "int \<Rightarrow> time \<Rightarrow> result_row \<Rightarrow> bool" where
  "overdue_result days now r \<longleftrightarrow> rs_submitted_at r < now - of_int (days * 86400)"

definition purge_expired_results :: "int \<Rightarrow> time \<Rightarrow> db \<Rightarrow> nat \<times> db" where
  "purge_expired_results days now d =
     (if days \<le> 0 then (0, d)
      else let gone = filter (overdue_result days now) (db_results d)
           in (length gone,
               d\<lparr>db_results := filter (\<lambda>r. \<not> overdue_result days now r) (db_results d),
                 db_tasks := map (unlink_results (rs_id ` set gone)) (db_tasks d)\<rparr>))"

subsection \<open>Enqueueing keeps the invariant\<close>

lemma validated_row_Inr:
  "validated_row co i ty params payload priority corr now = Inr t \<Longrightarrow>
   \<exists>n. validate_parameters co ty params = Inr n \<and>
     t = \<lparr>tk_id = i, tk_type = ty, tk_payload = payload, tk_parameters = n,
            tk_priority = priority, tk_status = QUEUED, tk_worker = None,
            tk_assigned_at = None, tk_started_at = None, tk_lease = None, tk_deadline = None,
            tk_attempt = 0, tk_excluded = None, tk_not_before = None, tk_result = None,
            tk_completed_at = None, tk_correlation = corr, tk_created_at = now,
            tk_updated_at = now\<rparr>"
  by (auto simp: validated_row_def bind_exn_def split: sum.splits)

definition newborn :: "task_row \<Rightarrow> bool" where
  "newborn t \<longleftrightarrow> tk_status t = QUEUED \<and> unassigned t \<and> tk_attempt t = 0 \<and> tk_excluded t = None
     \<and> tk_not_before t = None \<and> tk_result t = None \<and> tk_completed_at t = None"

lemma validated_newborn:
  "validated_row co i ty params payload priority corr now = Inr t \<Longrightarrow> newborn t"
  by (auto dest!: validated_row_Inr simp: newborn_def unassigned_def)

lemma newborn_ok: "newborn t \<Longrightarrow> task_ok t"
  by (simp add: newborn_def task_ok_def)

lemma collect_InrD:
  "collect f xs = Inr ys \<Longrightarrow> length ys = length xs \<and> (\<forall>k < length xs. f (xs ! k) = Inr (ys ! k))"
proof (induction xs arbitrary: ys)
  case (Cons x xs)
  then obtain y zs where "f x = Inr y" "collect f xs = Inr zs" "ys = y # zs"
    by (auto simp: bind_exn_def split: sum.splits)
  with Cons.IH [of zs] show ?case by (auto simp: less_Suc_eq_0_disj)
qed simp

lemma db_ok_insert:
  assumes ok: "db_ok d" and rows: "\<And>t. t \<in> set rows \<Longrightarrow> newborn t"
    and ins: "insert_tasks rows d = Inr d'"
  shows "db_ok d'"
proof -
  have d': "d' = d\<lparr>db_tasks := db_tasks d @ rows\<rparr>" and dist: "distinct (map tk_id (db_tasks d @ rows))"
    using ins by (auto simp: insert_tasks_def split: if_splits)
  have "concat (map (\<lambda>t. case tk_result t of None \<Rightarrow> [] | Some r \<Rightarrow> [r]) rows) = []"
    using rows by (auto simp: newborn_def)
  then have r: "result_refs d' = result_refs d"
    by (simp add: result_refs_def d')
  have "attempt_ok d' a" if "attempt_ok d a" for a
    using that by (auto simp: attempt_ok_def d')
  moreover have "\<forall>t \<in> set rows. worker_known d (tk_worker t) \<and> worker_known d (tk_excluded t)"
    using rows by (auto simp: newborn_def unassigned_def worker_known_def)
  ultimately show ?thesis
    using ok dist rows newborn_ok r
    by (auto simp: db_ok_def keys_ok_def refs_ok_def rows_ok_def r) (auto simp: d')
qed

lemma insert_evolves: "insert_tasks rows d = Inr d' \<Longrightarrow> evolves d d'"
  by (auto simp: insert_tasks_def split: if_splits)

lemma enqueue_Inr:
  assumes "enqueue co i ty corr params payload priority now d = Inr (j, d')"
  obtains t where "validated_row co i ty params payload priority corr now = Inr t" "j = tk_id t"
    "insert_tasks [t] d = Inr d'"
  using assms by (auto simp: enqueue_def bind_exn_def split: sum.splits)

lemma enqueue_batch_Inr:
  assumes "enqueue_batch co ids ty corr count mx params payload priority now d = Inr (js, d')"
  obtains rows where "1 \<le> count" "count \<le> mx" "js = map tk_id rows" "insert_tasks rows d = Inr d'"
    "length rows = nat count"
    "\<And>k. k < nat count \<Longrightarrow> validated_row co (ids k) ty params payload priority corr now = Inr (rows ! k)"
proof -
  obtain rows where r: "1 \<le> count" "count \<le> mx"
      "collect (\<lambda>k. validated_row co (ids k) ty params payload priority corr now) [0..<nat count] = Inr rows"
      "insert_tasks rows d = Inr d'" "js = map tk_id rows"
    using assms by (auto simp: enqueue_batch_def bind_exn_def split: sum.splits if_splits)
  show ?thesis
    using that [OF r(1,2,5,4)] collect_InrD [OF r(3)] by simp
qed

lemma db_ok_enqueue:
  "db_ok d \<Longrightarrow> enqueue co i ty corr params payload priority now d = Inr (j, d') \<Longrightarrow> db_ok d' \<and> evolves d d'"
  by (metis enqueue_Inr db_ok_insert insert_evolves validated_newborn empty_iff empty_set set_ConsD)

lemma db_ok_enqueue_batch:
  assumes "db_ok d" "enqueue_batch co ids ty corr count mx params payload priority now d = Inr (js, d')"
  shows "db_ok d' \<and> evolves d d'"
  using assms(2)
proof (rule enqueue_batch_Inr)
  fix rows assume rows: "insert_tasks rows d = Inr d'" "length rows = nat count"
    "\<And>k. k < nat count \<Longrightarrow> validated_row co (ids k) ty params payload priority corr now = Inr (rows ! k)"
  have "newborn t" if "t \<in> set rows" for t
    using that rows(2,3) validated_newborn by (metis in_set_conv_nth)
  with assms(1) rows(1) show ?thesis
    by (auto intro: db_ok_insert insert_evolves)
qed

subsection \<open>What a claim takes\<close>

lemma claim_list_mem:
  "t \<in> set (claim_list c w limit types locked now d) \<Longrightarrow>
   t \<in> set (db_tasks d) \<and> claimable c w types locked now t"
  using take_filter_subset by (fastforce simp: claim_list_def)

lemma claim_list_distinct:
  "db_ok d \<Longrightarrow> distinct (map tk_id (claim_list c w limit types locked now d))"
  by (simp add: claim_list_def distinct_map_take_sort_filter db_ok_distinct)

lemma claim_list_ids:
  assumes "db_ok d" "t \<in> set (db_tasks d)"
    and "tk_id t \<in> tk_id ` set (claim_list c w limit types locked now d)"
  shows "t \<in> set (claim_list c w limit types locked now d)"
proof -
  obtain u where u: "u \<in> set (claim_list c w limit types locked now d)" "tk_id u = tk_id t"
    using assms(3) by auto
  then have "u \<in> set (db_tasks d)" using claim_list_mem by blast
  then have "u = t"
    using u(2) assms(2) db_ok_distinct [OF assms(1)] by (auto simp: distinct_map inj_on_def)
  with u(1) show ?thesis by simp
qed

lemma claim_list_length:
  "length (claim_list c w limit types locked now d) =
     min (nat limit) (length (filter (claimable c w types locked now) (db_tasks d)))"
  by (simp add: claim_list_def min.commute)

lemma claim_list_sorted: "sorted (map queue_key (claim_list c w limit types locked now d))"
  by (simp add: claim_list_def sorted_take_sort)

lemma claim_list_least:
  assumes "t \<in> set (claim_list c w limit types locked now d)" "u \<in> set (db_tasks d)"
    "claimable c w types locked now u" "u \<notin> set (claim_list c w limit types locked now d)"
  shows "queue_key t \<le> queue_key u"
  using assms unfolding claim_list_def by (rule take_sort_least)

lemma dequeue_Inr:
  assumes "dequeue c w limit mx types locked now d = Inr (rows, d')"
  shows "rows = map (claim_stamp c d w now) (claim_list c w limit types locked now d)"
    "d' = map_tasks (\<lambda>t. tk_id t \<in> tk_id ` set (claim_list c w limit types locked now d))
            (claim_stamp c d w now) d"
    "claim_list c w limit types locked now d \<noteq> [] \<Longrightarrow> worker_known d (Some w)"
    "1 \<le> limit" "limit \<le> mx" "types \<noteq> Some []"
  using assms by (auto simp: dequeue_def Let_def split: if_splits)

lemma claim_stamp_id [simp]: "tk_id (claim_stamp c d w now t) = tk_id t"
  by (simp add: claim_stamp_def)

lemma claim_stamp_good:
  "db_ok d \<Longrightarrow> t \<in> set (db_tasks d) \<Longrightarrow> tk_status t = QUEUED \<Longrightarrow> worker_known d (Some w) \<Longrightarrow>
   good_update d t (claim_stamp c d w now t) \<and> row_evolves t (claim_stamp c d w now t)"
  using db_ok_task [of d t]
  by (auto simp: good_update_def claim_stamp_def task_ok_def leased_def row_evolves_def
      same_identity_def same_attempt_def unassigned_def db_ok_def refs_ok_def)

lemma db_ok_dequeue:
  assumes ok: "db_ok d" and dq: "dequeue c w limit mx types locked now d = Inr (rows, d')"
  shows "db_ok d' \<and> evolves d d'"
proof -
  have "good_update d t (claim_stamp c d w now t) \<and> row_evolves t (claim_stamp c d w now t)"
    if "t \<in> set (db_tasks d)" "tk_id t \<in> tk_id ` set (claim_list c w limit types locked now d)" for t
  proof (rule claim_stamp_good [OF ok that(1)])
    have t: "t \<in> set (claim_list c w limit types locked now d)"
      by (rule claim_list_ids [OF ok that])
    then show "tk_status t = QUEUED"
      using claim_list_mem by (auto simp: claimable_def)
    show "worker_known d (Some w)"
      using dequeue_Inr(3) [OF dq] t by fastforce
  qed
  then show ?thesis
    unfolding dequeue_Inr(2) [OF dq] by (blast intro: db_ok_map_tasks [OF ok] evolves_map_tasks)
qed

subsection \<open>Moves\<close>

lemma status_stamp_simps [simp]:
  "tk_id (status_stamp c d s now t) = tk_id t" "tk_status (status_stamp c d s now t) = s"
  "tk_worker (status_stamp c d s now t) = tk_worker t"
  "tk_attempt (status_stamp c d s now t) = tk_attempt t"
  by (simp_all add: status_stamp_def start_stamp_def settle_def Let_def)

lemma set_task_good:
  assumes ok: "db_ok d" and t: "find_task d i = Some t"
    and f: "good_update d t (f t) \<and> row_evolves t (f t)"
  shows "db_ok (set_task i f d) \<and> evolves d (set_task i f d)"
proof -
  have "u = t" if "u \<in> set (db_tasks d)" "tk_id u = i" for u
    using that t find_task_unique [OF db_ok_distinct [OF ok] that(1)] by simp
  with f show ?thesis
    unfolding set_task_is_map_tasks by (blast intro: db_ok_map_tasks [OF ok] evolves_map_tasks)
qed

lemma mark_status_found:
  "parse_uuid task_id = Some i \<Longrightarrow> find_task d i = Some t \<Longrightarrow> mark_status c task_id w s now d =
     (if tk_worker t \<noteq> Some w then Inr (NOT_OWNER, d)
      else case check_transition (tk_status t) s of
          Inl (InvalidTaskTransition _ _) \<Rightarrow> Inr (ILLEGAL, d)
        | Inl e \<Rightarrow> Inl e
        | Inr False \<Rightarrow> Inr (NOOP, d)
        | Inr True \<Rightarrow> Inr (TRANSITIONED, set_task i (status_stamp c d s now) d))"
  by (simp add: mark_status_def)

lemma mark_status_cases:
  assumes m: "mark_status c task_id w s now d = Inr (r, d')"
  obtains "r \<noteq> TRANSITIONED" "d' = d"
  | i t where "r = TRANSITIONED" "parse_uuid task_id = Some i" "find_task d i = Some t"
      "tk_worker t = Some w" "(tk_status t, s) \<in> legal_moves"
      "d' = set_task i (status_stamp c d s now) d"
proof (cases "\<exists>i t. parse_uuid task_id = Some i \<and> find_task d i = Some t")
  case True
  then obtain i t where t: "parse_uuid task_id = Some i" "find_task d i = Some t" by blast
  show ?thesis
  proof (cases "tk_worker t = Some w \<and> check_transition (tk_status t) s = Inr True")
    case True
    with m t show ?thesis by (intro that(2) [OF _ t]) (simp_all add: mark_status_found check_transition_write)
  next
    case False
    with m t have "r \<noteq> TRANSITIONED \<and> d' = d"
      by (auto simp: mark_status_found split: if_splits sum.splits exn.splits bool.splits)
    then show ?thesis using that(1) by simp
  qed
next
  case False
  with m have "r = NOT_FOUND \<and> d' = d"
    by (auto simp: mark_status_def split: option.splits)
  then show ?thesis using that(1) by simp
qed

lemma status_stamp_RUNNING:
  "status_stamp c d RUNNING now t = t\<lparr>tk_status := RUNNING, tk_started_at := Some now,
     tk_deadline := Some (now + secs (max_execution_seconds c d (tk_type t))),
     tk_lease := Some (min (now + secs (lease_seconds c d (tk_type t)))
                           (now + secs (max_execution_seconds c d (tk_type t)))),
     tk_updated_at := now\<rparr>"
  by (simp add: status_stamp_def start_stamp_def Let_def)

lemma status_stamp_final:
  "s = FAILED \<or> s = CANCELLED \<Longrightarrow> status_stamp c d s now t = t\<lparr>tk_status := s, tk_lease := None,
     tk_deadline := None, tk_not_before := None, tk_excluded := None, tk_updated_at := now\<rparr>"
  by (auto simp: status_stamp_def settle_def)

lemma task_ok_status_stamp:
  assumes ok: "task_ok t" and live: "live_status (tk_status t)" and s: "s \<in> {RUNNING, FAILED, CANCELLED}"
  shows "task_ok (status_stamp c d s now t)"
proof -
  have "tk_completed_at t = None" "tk_result t = None" "0 \<le> tk_attempt t" "leased t"
      "tk_excluded t \<noteq> None \<longrightarrow> tk_not_before t \<noteq> None"
    using ok live live_not_terminal [OF live] task_ok_live [OF ok live] by (auto simp: task_ok_def)
  then have base: "tk_completed_at t = None" "tk_result t = None" "0 \<le> tk_attempt t"
      "tk_worker t \<noteq> None" "tk_assigned_at t \<noteq> None" "tk_excluded t \<noteq> None \<longrightarrow> tk_not_before t \<noteq> None"
    by (auto simp: leased_def)
  consider "s = RUNNING" | "s = FAILED \<or> s = CANCELLED" using s by auto
  then show ?thesis
  proof cases
    case 1
    with base show ?thesis by (simp add: status_stamp_RUNNING task_ok_def leased_def)
  next
    case 2
    with base show ?thesis by (elim disjE) (simp_all add: status_stamp_final task_ok_def settled_def)
  qed
qed

lemma status_stamp_rest [simp]:
  "tk_result (status_stamp c d s now t) = tk_result t"
  "same_identity t (status_stamp c d s now t)"
  by (simp_all add: same_identity_def status_stamp_def start_stamp_def settle_def Let_def)

lemma status_stamp_excluded:
  "tk_excluded (status_stamp c d s now t) \<in> {None, tk_excluded t}"
  by (simp add: status_stamp_def start_stamp_def settle_def Let_def)

lemma worker_known_None [simp]: "worker_known d None"
  by (simp add: worker_known_def)

lemma db_ok_workers:
  "db_ok d \<Longrightarrow> find_task d i = Some t \<Longrightarrow> worker_known d (tk_worker t) \<and> worker_known d (tk_excluded t)"
  using find_task_mem by (fastforce simp: db_ok_def refs_ok_def)

lemma status_stamp_good:
  assumes ok: "db_ok d" and t: "find_task d i = Some t" "tk_worker t = Some w"
    and mv: "(tk_status t, s) \<in> legal_moves" and s: "s \<in> {RUNNING, FAILED, CANCELLED}"
  shows "good_update d t (status_stamp c d s now t) \<and> row_evolves t (status_stamp c d s now t)"
proof -
  have tok: "task_ok t" by (rule db_ok_find [OF ok t(1)])
  then have "tk_status t \<noteq> QUEUED"
    using t(2) by (auto simp: task_ok_def unassigned_def)
  then have live: "live_status (tk_status t)" and rk: "status_rank (tk_status t) \<le> status_rank s"
    using mv s by (auto simp: legal_moves_def)
  have "worker_known d (tk_excluded (status_stamp c d s now t))"
    using status_stamp_excluded [of c d s now t] db_ok_workers [OF ok t(1)] by auto
  then show ?thesis
    using mv rk live_not_terminal [OF live] task_ok_status_stamp [OF tok live s] db_ok_workers [OF ok t(1)]
    by (simp add: good_update_def row_evolves_def same_attempt_def r_into_rtrancl)
qed

lemma db_ok_mark_status:
  assumes ok: "db_ok d" and m: "mark_status c task_id w s now d = Inr (r, d')"
    and s: "s \<in> {RUNNING, FAILED, CANCELLED}"
  shows "db_ok d' \<and> evolves d d'"
  using m
proof (cases rule: mark_status_cases)
  case (2 i t)
  then show ?thesis
    using set_task_good [OF ok 2(3), of "status_stamp c d s now"] status_stamp_good [OF ok 2(3,4,5) s]
    by simp
qed (use ok in auto)

definition cancel_stamp :: "time \<Rightarrow> task_row \<Rightarrow> task_row" where
  "cancel_stamp now t = t\<lparr>tk_status := CANCELLED, tk_updated_at := now\<rparr>"

lemma cancel_found:
  "parse_uuid task_id = Some i \<Longrightarrow> find_task d i = Some t \<Longrightarrow> cancel_queued_task task_id now d =
     (if tk_status t = QUEUED then Inr ((TRANSITIONED, Some QUEUED), set_task i (cancel_stamp now) d)
      else Inr ((NOT_CANCELLABLE, Some (tk_status t)), d))"
  by (simp add: cancel_queued_task_def bind_exn_def cancel_stamp_def [abs_def])

lemma cancel_cases:
  assumes c: "cancel_queued_task task_id now d = Inr (r, d')"
  obtains "fst r \<noteq> TRANSITIONED" "d' = d"
  | i t where "r = (TRANSITIONED, Some QUEUED)" "parse_uuid task_id = Some i" "find_task d i = Some t"
      "tk_status t = QUEUED" "d' = set_task i (cancel_stamp now) d"
proof (cases "\<exists>i t. parse_uuid task_id = Some i \<and> find_task d i = Some t")
  case True
  then obtain i t where t: "parse_uuid task_id = Some i" "find_task d i = Some t" by blast
  show ?thesis
  proof (cases "tk_status t = QUEUED")
    case True
    with c show ?thesis by (intro that(2) [OF _ t]) (simp_all add: cancel_found [OF t])
  next
    case False
    with c have "fst r \<noteq> TRANSITIONED \<and> d' = d"
      by (auto simp: cancel_found [OF t])
    then show ?thesis using that(1) by simp
  qed
next
  case False
  with c have "fst r = NOT_FOUND \<and> d' = d"
    by (auto simp: cancel_queued_task_def split: option.splits)
  then show ?thesis using that(1) by simp
qed

lemma cancel_stamp_good:
  assumes "db_ok d" "find_task d i = Some t" "tk_status t = QUEUED"
  shows "good_update d t (cancel_stamp now t) \<and> row_evolves t (cancel_stamp now t)"
proof -
  have "task_ok (cancel_stamp now t)"
    using db_ok_find [OF assms(1,2)] assms(3)
    by (simp add: task_ok_def unassigned_def settled_def cancel_stamp_def)
  then show ?thesis
    using db_ok_workers [OF assms(1,2)] assms(3)
    by (simp add: good_update_def row_evolves_def same_identity_def same_attempt_def cancel_stamp_def)
qed

lemma db_ok_cancel:
  assumes ok: "db_ok d" and c: "cancel_queued_task task_id now d = Inr (r, d')"
  shows "db_ok d' \<and> evolves d d'"
  using c
proof (cases rule: cancel_cases)
  case (2 i t)
  then show ?thesis
    using set_task_good [OF ok 2(3), of "cancel_stamp now"] cancel_stamp_good [OF ok 2(3,4)] by simp
qed (use ok in auto)

subsection \<open>Retention\<close>

lemma unlink_simps [simp]:
  "tk_id (unlink_results g t) = tk_id t" "tk_status (unlink_results g t) = tk_status t"
  "tk_attempt (unlink_results g t) = tk_attempt t" "tk_worker (unlink_results g t) = tk_worker t"
  "tk_excluded (unlink_results g t) = tk_excluded t"
  "tk_result (unlink_results g t) = (if opt_cmp (\<lambda>r. r \<in> g) (tk_result t) then None else tk_result t)"
  by (simp_all add: unlink_results_def)

lemma unlink_evolves: "tk_result t \<noteq> None \<longrightarrow> tk_status t = COMPLETED \<Longrightarrow> row_evolves t (unlink_results g t)"
  by (auto simp: unlink_results_def row_evolves_def same_identity_def same_attempt_def frozen_def
      opt_cmp_iff)

lemma unlink_task_ok: "task_ok t \<Longrightarrow> task_ok (unlink_results g t)"
  by (auto simp: unlink_results_def task_ok_def unassigned_def leased_def settled_def)

lemma result_refs_unlink:
  "concat (map (\<lambda>t. case tk_result t of None \<Rightarrow> [] | Some r \<Rightarrow> [r]) (map (unlink_results g) ts)) =
   filter (\<lambda>r. r \<notin> g) (concat (map (\<lambda>t. case tk_result t of None \<Rightarrow> [] | Some r \<Rightarrow> [r]) ts))"
  by (induction ts) (auto split: option.splits)

lemma purge_result_refs:
  assumes "db_tasks d' = map (unlink_results g) (db_tasks d)"
  shows "result_refs d' = filter (\<lambda>r. r \<notin> g) (result_refs d)"
  unfolding result_refs_def assms by (rule result_refs_unlink)

lemma db_ok_purge:
  assumes ok: "db_ok d" and p: "purge_expired_results days now d = (n, d')"
  shows "db_ok d' \<and> evolves d d'"
proof (cases "0 < days")
  case True
  let ?over = "overdue_result days now"
  let ?gone = "rs_id ` {x \<in> set (db_results d). ?over x}"
  have d': "db_tasks d' = map (unlink_results ?gone) (db_tasks d)"
      "db_results d' = filter (\<lambda>r. \<not> ?over r) (db_results d)"
      "db_attempts d' = db_attempts d" "db_policies d' = db_policies d" "db_workers d' = db_workers d"
    using p True by (auto simp: purge_expired_results_def Let_def)
  have inj: "distinct (map rs_id (db_results d))"
    using ok by (simp add: db_ok_def keys_ok_def)
  then have kept: "rs_id ` {x \<in> set (db_results d). \<not> ?over x} = rs_id ` set (db_results d) - ?gone"
    by (fastforce simp: distinct_map inj_on_def)
  have wk: "worker_known d' w = worker_known d w" for w
    by (simp add: worker_known_def d' split: option.splits)
  have at: "attempt_ok d a \<Longrightarrow> attempt_ok d' a" for a
    by (auto simp: attempt_ok_def wk d')
  have "keys_ok d'"
    using ok inj by (auto simp: db_ok_def keys_ok_def d' comp_def distinct_map_filter)
  moreover have "refs_ok d'"
    using ok at by (auto simp: db_ok_def refs_ok_def wk purge_result_refs [OF d'(1)] d' kept)
  moreover have "rows_ok d'"
    using ok unlink_task_ok by (auto simp: db_ok_def rows_ok_def d')
  moreover have "row_evolves t (unlink_results ?gone t)" if "t \<in> set (db_tasks d)" for t
    using db_ok_task [OF ok that] by (intro unlink_evolves) (simp add: task_ok_def)
  then have "evolves d d'"
    by (auto simp: evolves_def d')
  ultimately show ?thesis by (simp add: db_ok_def)
qed (use p ok in \<open>auto simp: purge_expired_results_def\<close>)

subsection \<open>Every statement of the queue honours the contract\<close>

interpretation enqueue_stmt: db_statement
  "\<lambda>a d. committed ((\<lambda>(co, i, ty, corr, params, payload, priority, now).
     enqueue co i ty corr params payload priority now) a d) d" "\<lambda>_ _. True"
  by (rule db_statement_committed) (auto dest: db_ok_enqueue)

interpretation batch_stmt: db_statement
  "\<lambda>a d. committed ((\<lambda>(co, ids, ty, corr, count, mx, params, payload, priority, now).
     enqueue_batch co ids ty corr count mx params payload priority now) a d) d" "\<lambda>_ _. True"
  by (rule db_statement_committed) (auto dest: db_ok_enqueue_batch)

interpretation dequeue_stmt: db_statement
  "\<lambda>a d. committed ((\<lambda>(c, w, limit, mx, types, locked, now).
     dequeue c w limit mx types locked now) a d) d" "\<lambda>_ _. True"
  by (rule db_statement_committed) (auto dest: db_ok_dequeue)

text \<open>The callers of \<open>mark_status\<close> write RUNNING and FAILED only.\<close>

interpretation mark_stmt: db_statement
  "\<lambda>a d. committed ((\<lambda>(c, task_id, w, s, now). mark_status c task_id w s now) a d) d"
  "\<lambda>(c, task_id, w, s, now) d. s \<in> {RUNNING, FAILED, CANCELLED}"
  by (rule db_statement_committed) (auto dest: db_ok_mark_status)

interpretation cancel_stmt: db_statement
  "\<lambda>a d. committed ((\<lambda>(task_id, now). cancel_queued_task task_id now) a d) d" "\<lambda>_ _. True"
  by (rule db_statement_committed) (auto dest: db_ok_cancel)

interpretation purge_stmt: db_statement
  "\<lambda>(days, now) d. snd (purge_expired_results days now d)" "\<lambda>_ _. True"
  by unfold_locales (auto dest: db_ok_purge [OF _ prod.collapse [symmetric]])

end
