(* ===== verification/LeaseEngine.thy ===== *)
theory LeaseEngine
  imports TaskQueue
begin

text \<open>
  The lease engine of \<open>coordinator/app/task_queue.py\<close>: renewal, the shortening on a
  closed socket, the reclaimer with its retry policy, and the reads over the attempt
  history. \<open>random()\<close> is a function of the row, \<open>gen_random_uuid()\<close> of the position
  of the inserted row. The \<open>power()\<close> of the backoff is exact here.
\<close>

definition REASON_LEASE_EXPIRED :: string where "REASON_LEASE_EXPIRED = ''lease_expired''"
definition REASON_DEADLINE_EXCEEDED :: string where
  "REASON_DEADLINE_EXCEEDED = ''execution_deadline_exceeded''"
definition REASON_EXECUTOR_ERROR :: string where "REASON_EXECUTOR_ERROR = ''executor_error''"
definition REASON_MAX_LENGTH :: nat where "REASON_MAX_LENGTH = 120"
definition REASSIGNED_OUTCOME :: string where "REASSIGNED_OUTCOME = REASSIGNED"
definition EXHAUSTED_OUTCOME :: string where "EXHAUSTED_OUTCOME = FAILED"
definition FENCED_OUTCOME :: string where "FENCED_OUTCOME = ''FENCED''"

subsection \<open>Renewal\<close>

definition renewal_target :: "settings \<Rightarrow> time \<Rightarrow> task_row \<Rightarrow> time" where
  "renewal_target c now t = least_opt (now + secs (cf_lease_ttl c)) (tk_deadline t)"

definition renew_stamp :: "settings \<Rightarrow> time \<Rightarrow> task_row \<Rightarrow> task_row" where
  "renew_stamp c now t = t\<lparr>tk_lease := Some (renewal_target c now t), tk_updated_at := now\<rparr>"

definition held_live :: "uuid \<Rightarrow> task_row \<Rightarrow> bool" where
  "held_live w t \<longleftrightarrow> tk_worker t = Some w \<and> live_status (tk_status t)"

definition renew_lease :: "settings \<Rightarrow> string \<Rightarrow> uuid \<Rightarrow> time \<Rightarrow> db \<Rightarrow> bool \<times> db" where
  "renew_lease c task_id w now d = (case parse_uuid task_id of
      None \<Rightarrow> (False, d)
    | Some i \<Rightarrow>
        (\<exists>t \<in> set (db_tasks d). tk_id t = i \<and> held_live w t,
         map_tasks (\<lambda>t. tk_id t = i \<and> held_live w t) (renew_stamp c now) d))"

definition renew_worker_leases :: "settings \<Rightarrow> uuid \<Rightarrow> time \<Rightarrow> db \<Rightarrow> string list \<times> db" where
  "renew_worker_leases c w now d =
     (map (\<lambda>t. uuid_str (tk_id t)) (filter (held_live w) (db_tasks d)),
      map_tasks (held_live w) (renew_stamp c now) d)"

definition shorten_stamp :: "int \<Rightarrow> time \<Rightarrow> task_row \<Rightarrow> task_row" where
  "shorten_stamp grace now t =
     t\<lparr>tk_lease := Some (least_opt (now + secs grace) (tk_lease t)), tk_updated_at := now\<rparr>"

definition shorten_worker_leases :: "uuid \<Rightarrow> int \<Rightarrow> time \<Rightarrow> db \<Rightarrow> nat \<times> db" where
  "shorten_worker_leases w grace now d =
     (length (filter (held_live w) (db_tasks d)),
      map_tasks (held_live w) (shorten_stamp grace now) d)"

subsection \<open>Reclaiming\<close>

definition overdue :: "time \<Rightarrow> task_row \<Rightarrow> bool" where
  "overdue now t \<longleftrightarrow> live_status (tk_status t) \<and> tk_lease t \<noteq> None
     \<and> opt_cmp (\<lambda>l. l < now) (tk_lease t)"

definition lease_key :: "task_row \<Rightarrow> time" where
  "lease_key t = (case tk_lease t of Some l \<Rightarrow> l | None \<Rightarrow> 0)"

definition expired_list :: "int \<Rightarrow> uuid set \<Rightarrow> time \<Rightarrow> db \<Rightarrow> task_row list" where
  "expired_list batch locked now d = take (nat batch)
     (sort_key lease_key (filter (\<lambda>t. overdue now t \<and> tk_id t \<notin> locked) (db_tasks d)))"

definition exhausted :: "settings \<Rightarrow> db \<Rightarrow> task_row \<Rightarrow> bool" where
  "exhausted c d t \<longleftrightarrow> max_attempts c d (tk_type t) \<le> tk_attempt t + 1"

definition retry_backoff :: "settings \<Rightarrow> rat \<Rightarrow> task_row \<Rightarrow> rat" where
  "retry_backoff c r t =
     r * min (cf_backoff_max c) (cf_backoff_base c * cf_backoff_factor c ^ nat (tk_attempt t))"

definition reclaim_stamp :: "settings \<Rightarrow> db \<Rightarrow> (uuid \<Rightarrow> rat) \<Rightarrow> time \<Rightarrow> task_row \<Rightarrow> task_row" where
  "reclaim_stamp c d rnd now t =
     t\<lparr>tk_status := (if exhausted c d t then FAILED else QUEUED),
       tk_worker := None, tk_assigned_at := None, tk_started_at := None,
       tk_lease := None, tk_deadline := None,
       tk_attempt := tk_attempt t + 1,
       tk_excluded := (if exhausted c d t then None else tk_worker t),
       tk_not_before := (if exhausted c d t then None
          else Some (now + retry_backoff c (rnd (tk_id t)) t)),
       tk_updated_at := now\<rparr>"

record reclaimed =
  rc_task :: task_row
  rc_previous_worker :: "uuid option"
  rc_previous_status :: string
  rc_expired_at :: "time option"
  rc_deadline_exceeded :: bool

definition reclaimed_of :: "settings \<Rightarrow> db \<Rightarrow> (uuid \<Rightarrow> rat) \<Rightarrow> time \<Rightarrow> task_row \<Rightarrow> reclaimed" where
  "reclaimed_of c d rnd now t = \<lparr>rc_task = reclaim_stamp c d rnd now t,
     rc_previous_worker = tk_worker t, rc_previous_status = tk_status t,
     rc_expired_at = tk_lease t,
     rc_deadline_exceeded = opt_cmp (\<lambda>x. x \<le> now) (tk_deadline t)\<rparr>"

definition expiry_attempt :: "uuid \<Rightarrow> time \<Rightarrow> reclaimed \<Rightarrow> attempt_row" where
  "expiry_attempt i now r = \<lparr>at_id = i, at_task = tk_id (rc_task r),
     at_number = tk_attempt (rc_task r) - 1, at_worker = rc_previous_worker r,
     at_outcome = (if tk_status (rc_task r) = FAILED then EXHAUSTED_OUTCOME else REASSIGNED_OUTCOME),
     at_reason = Some (if rc_deadline_exceeded r then REASON_DEADLINE_EXCEEDED
                       else REASON_LEASE_EXPIRED),
     at_correlation = Some (tk_correlation (rc_task r)), at_recorded_at = now\<rparr>"

definition reclaim_expired_leases ::
  "settings \<Rightarrow> int \<Rightarrow> uuid set \<Rightarrow> (uuid \<Rightarrow> rat) \<Rightarrow> (nat \<Rightarrow> uuid) \<Rightarrow> time \<Rightarrow> db \<Rightarrow> exn + reclaimed list \<times> db" where
  "reclaim_expired_leases c batch locked rnd ids now d =
     (if batch < 1 then Inl QueueLimitExceeded
      else let expired = expired_list batch locked now d;
               rows = map (reclaimed_of c d rnd now) expired;
               d' = map_tasks (\<lambda>t. tk_id t \<in> tk_id ` set expired) (reclaim_stamp c d rnd now) d
           in Inr (rows, d'\<lparr>db_attempts := db_attempts d'
                @ map (\<lambda>(k, r). expiry_attempt (ids k) now r) (enumerate 0 rows)\<rparr>))"

subsection \<open>Counters and history\<close>

definition expired_lease_count :: "time \<Rightarrow> db \<Rightarrow> nat" where
  "expired_lease_count now d = length (filter (overdue now) (db_tasks d))"

definition awaiting_retry_count :: "time \<Rightarrow> db \<Rightarrow> nat" where
  "awaiting_retry_count now d = length (filter
     (\<lambda>t. tk_status t = QUEUED \<and> opt_cmp (\<lambda>b. now < b) (tk_not_before t)) (db_tasks d))"

definition fenced_result_count :: "db \<Rightarrow> nat" where
  "fenced_result_count d = length (filter (\<lambda>a. at_outcome a = FENCED_OUTCOME) (db_attempts d))"

definition task_attempts :: "db \<Rightarrow> string \<Rightarrow> nat \<Rightarrow> attempt_row list" where
  "task_attempts d task_id limit = (case parse_uuid task_id of
      None \<Rightarrow> []
    | Some i \<Rightarrow> take limit (sort_key (\<lambda>a. (at_recorded_at a, at_number a))
        (filter (\<lambda>a. at_task a = i) (db_attempts d))))"

record failure_count =
  fc_worker :: uuid
  fc_outcome :: string
  fc_failures :: nat
  fc_last :: time

definition failure_group :: "db \<Rightarrow> uuid \<times> string \<Rightarrow> failure_count" where
  "failure_group d g = (let rows = filter
       (\<lambda>a. at_worker a = Some (fst g) \<and> at_outcome a = snd g) (db_attempts d)
     in \<lparr>fc_worker = fst g, fc_outcome = snd g, fc_failures = length rows,
         fc_last = foldr max (map at_recorded_at (tl rows)) (at_recorded_at (hd rows))\<rparr>)"

definition worker_failure_counts :: "db \<Rightarrow> failure_count list" where
  "worker_failure_counts d = sort_key (\<lambda>f. - int (fc_failures f))
     (map (failure_group d) (remdups (concat (map
        (\<lambda>a. case at_worker a of None \<Rightarrow> [] | Some w \<Rightarrow> [(w, at_outcome a)]) (db_attempts d)))))"

definition recent_attempts :: "nat \<Rightarrow> string list \<Rightarrow> string option \<Rightarrow> db \<Rightarrow> attempt_row list" where
  "recent_attempts limit outcomes worker_id d =
     (let wanted = filter (\<lambda>a. outcomes = [] \<or> at_outcome a \<in> set outcomes) (db_attempts d);
          newest = (\<lambda>rows. take limit (rev (sort_key (\<lambda>a. (at_recorded_at a, at_id a)) rows)))
      in case worker_id of
          None \<Rightarrow> newest wanted
        | Some s \<Rightarrow> (case parse_uuid s of
              None \<Rightarrow> []
            | Some w \<Rightarrow> newest (filter (\<lambda>a. at_worker a = Some w) wanted)))"

text \<open>The shared shape of the guarded INSERTs: one row per task, worker, attempt and outcome.\<close>

definition has_attempt :: "db \<Rightarrow> uuid \<Rightarrow> uuid \<Rightarrow> int \<Rightarrow> string \<Rightarrow> bool" where
  "has_attempt d i w n out \<longleftrightarrow> (\<exists>a \<in> set (db_attempts d).
     at_task a = i \<and> at_worker a = Some w \<and> at_number a = n \<and> at_outcome a = out)"

definition add_attempt :: "attempt_row \<Rightarrow> db \<Rightarrow> db" where
  "add_attempt a d = d\<lparr>db_attempts := db_attempts d @ [a]\<rparr>"

definition failure_row :: "uuid \<Rightarrow> task_row \<Rightarrow> uuid \<Rightarrow> string \<Rightarrow> string \<Rightarrow> time \<Rightarrow> attempt_row" where
  "failure_row i t w error_type corr now = \<lparr>at_id = i, at_task = tk_id t, at_number = tk_attempt t,
     at_worker = Some w, at_outcome = EXHAUSTED_OUTCOME,
     at_reason = Some (take REASON_MAX_LENGTH (REASON_EXECUTOR_ERROR @ '':'' @ error_type)),
     at_correlation = (if corr = [] then None else Some corr), at_recorded_at = now\<rparr>"

definition record_execution_failure ::
  "string \<Rightarrow> uuid \<Rightarrow> string \<Rightarrow> string \<Rightarrow> uuid \<Rightarrow> time \<Rightarrow> db \<Rightarrow> exn + unit \<times> db" where
  "record_execution_failure task_id w error_type corr i now d = (case parse_uuid task_id of
      None \<Rightarrow> Inr ((), d)
    | Some j \<Rightarrow> (case find_task d j of
          None \<Rightarrow> Inr ((), d)
        | Some t \<Rightarrow>
            if has_attempt d (tk_id t) w (tk_attempt t) EXHAUSTED_OUTCOME then Inr ((), d)
            else if \<not> worker_known d (Some w) then Inl ForeignKeyViolation
            else Inr ((), add_attempt (failure_row i t w error_type corr now) d)))"

subsection \<open>Renewal and shortening keep the invariant\<close>

definition lease_move :: "(task_row \<Rightarrow> task_row) \<Rightarrow> bool" where
  "lease_move f \<longleftrightarrow> (\<forall>t. \<exists>l u. f t = t\<lparr>tk_lease := Some l, tk_updated_at := u\<rparr>)"

lemma renew_is_lease_move: "lease_move (renew_stamp c now)"
  unfolding lease_move_def renew_stamp_def by blast

lemma shorten_is_lease_move: "lease_move (shorten_stamp g now)"
  unfolding lease_move_def shorten_stamp_def by blast

lemma lease_move_good:
  assumes "lease_move f" "db_ok d" "t \<in> set (db_tasks d)" "live_status (tk_status t)"
  shows "good_update d t (f t) \<and> row_evolves t (f t)"
proof -
  obtain l u where f: "f t = t\<lparr>tk_lease := Some l, tk_updated_at := u\<rparr>"
    using assms(1) unfolding lease_move_def by blast
  have "task_ok (f t)"
    using db_ok_task [OF assms(2,3)] assms(4) live_not_terminal [OF assms(4)]
    by (auto simp: f task_ok_def leased_def unassigned_def)
  moreover have "worker_known d (tk_worker t)" "worker_known d (tk_excluded t)"
    using assms(2,3) by (auto simp: db_ok_def refs_ok_def)
  ultimately show ?thesis
    using live_not_terminal [OF assms(4)]
    by (simp add: f good_update_def row_evolves_def same_identity_def same_attempt_def)
qed

lemma db_ok_lease_move:
  assumes "lease_move f" "db_ok d" "\<And>t. p t \<Longrightarrow> live_status (tk_status t)"
  shows "db_ok (map_tasks p f d) \<and> evolves d (map_tasks p f d)"
  using lease_move_good [OF assms(1,2)] assms(3)
  by (blast intro: db_ok_map_tasks [OF assms(2)] evolves_map_tasks)

lemma db_ok_renew_lease: "db_ok d \<Longrightarrow> db_ok (snd (renew_lease c task_id w now d))
    \<and> evolves d (snd (renew_lease c task_id w now d))"
proof (cases "parse_uuid task_id")
  case (Some i)
  assume "db_ok d"
  then show ?thesis
    using db_ok_lease_move [OF renew_is_lease_move, of d "\<lambda>t. tk_id t = i \<and> held_live w t"] Some
    by (simp add: renew_lease_def held_live_def)
qed (simp add: renew_lease_def)

lemma db_ok_renew_worker: "db_ok d \<Longrightarrow> db_ok (snd (renew_worker_leases c w now d))
    \<and> evolves d (snd (renew_worker_leases c w now d))"
  using db_ok_lease_move [OF renew_is_lease_move, of d "held_live w"]
  by (simp add: renew_worker_leases_def held_live_def)

lemma db_ok_shorten: "db_ok d \<Longrightarrow> db_ok (snd (shorten_worker_leases w g now d))
    \<and> evolves d (snd (shorten_worker_leases w g now d))"
  using db_ok_lease_move [OF shorten_is_lease_move, of d "held_live w"]
  by (simp add: shorten_worker_leases_def held_live_def)

lemma stamp_ids [simp]:
  "tk_id (renew_stamp c now t) = tk_id t" "tk_id (shorten_stamp g now t) = tk_id t"
  "tk_id (reclaim_stamp c d rnd now t) = tk_id t"
  by (simp_all add: renew_stamp_def shorten_stamp_def reclaim_stamp_def)

subsection \<open>The reclaimer\<close>

lemma expired_list_mem:
  "t \<in> set (expired_list batch locked now d) \<Longrightarrow>
   t \<in> set (db_tasks d) \<and> overdue now t \<and> tk_id t \<notin> locked"
  using take_filter_subset by (fastforce simp: expired_list_def)

lemma expired_list_ids:
  assumes "db_ok d" "t \<in> set (db_tasks d)" "tk_id t \<in> tk_id ` set (expired_list batch locked now d)"
  shows "t \<in> set (expired_list batch locked now d)"
proof -
  obtain u where u: "u \<in> set (expired_list batch locked now d)" "tk_id u = tk_id t"
    using assms(3) by auto
  then have "u = t"
    using expired_list_mem [OF u(1)] assms(2) db_ok_distinct [OF assms(1)]
    by (auto simp: distinct_map inj_on_def)
  with u(1) show ?thesis by simp
qed

lemma expired_list_length:
  "length (expired_list batch locked now d) =
     min (nat batch) (length (filter (\<lambda>t. overdue now t \<and> tk_id t \<notin> locked) (db_tasks d)))"
  by (simp add: expired_list_def min.commute)

lemma overdue_live: "overdue now t \<Longrightarrow> live_status (tk_status t)"
  by (simp add: overdue_def)

lemma reclaim_stamp_ok:
  assumes ok: "task_ok t" and live: "live_status (tk_status t)"
  shows "task_ok (reclaim_stamp c d rnd now t)"
proof -
  have "tk_completed_at t = None" "tk_result t = None" "0 \<le> tk_attempt t"
    using ok live live_not_terminal [OF live] by (auto simp: task_ok_def)
  then show ?thesis
    by (auto simp: task_ok_def reclaim_stamp_def unassigned_def settled_def)
qed

lemma reclaim_stamp_good:
  assumes ok: "db_ok d" and t: "t \<in> set (db_tasks d)" and live: "live_status (tk_status t)"
  shows "good_update d t (reclaim_stamp c d rnd now t) \<and> row_evolves t (reclaim_stamp c d rnd now t)"
proof -
  have "tk_result (reclaim_stamp c d rnd now t) = tk_result t"
      "same_identity t (reclaim_stamp c d rnd now t)"
      "tk_attempt (reclaim_stamp c d rnd now t) = tk_attempt t + 1"
      "tk_worker (reclaim_stamp c d rnd now t) = None"
      "tk_excluded (reclaim_stamp c d rnd now t) \<in> {None, tk_worker t}"
      "tk_status (reclaim_stamp c d rnd now t) \<in> {FAILED, QUEUED}"
    by (simp_all add: reclaim_stamp_def same_identity_def)
  moreover have "worker_known d (tk_worker t)"
    using ok t by (simp add: db_ok_def refs_ok_def)
  moreover have "(tk_status t, s) \<in> legal_moves\<^sup>*" if "s \<in> {FAILED, QUEUED}" for s
    using live that by (auto simp: live_status_def)
  ultimately show ?thesis
    using reclaim_stamp_ok [OF db_ok_task [OF ok t] live] live_not_terminal [OF live]
    by (auto simp: good_update_def row_evolves_def)
qed

lemma reclaim_Inr:
  assumes "reclaim_expired_leases c batch locked rnd ids now d = Inr (rows, d')"
  shows "1 \<le> batch" "rows = map (reclaimed_of c d rnd now) (expired_list batch locked now d)"
    "db_tasks d' = update_where (\<lambda>t. tk_id t \<in> tk_id ` set (expired_list batch locked now d))
       (reclaim_stamp c d rnd now) (db_tasks d)"
    "db_attempts d' = db_attempts d @ map (\<lambda>(k, r). expiry_attempt (ids k) now r) (enumerate 0 rows)"
    "db_results d' = db_results d" "db_workers d' = db_workers d" "db_policies d' = db_policies d"
  using assms by (auto simp: reclaim_expired_leases_def Let_def map_tasks_def split: if_splits)

lemma db_ok_reclaim:
  assumes ok: "db_ok d" and r: "reclaim_expired_leases c batch locked rnd ids now d = Inr (rows, d')"
  shows "db_ok d' \<and> evolves d d'"
proof -
  let ?ex = "expired_list batch locked now d"
  let ?m = "map_tasks (\<lambda>t. tk_id t \<in> tk_id ` set ?ex) (reclaim_stamp c d rnd now) d"
  let ?new = "map (\<lambda>(k, r). expiry_attempt (ids k) now r) (enumerate 0 rows)"
  have d': "d' = ?m\<lparr>db_attempts := db_attempts ?m @ ?new\<rparr>"
    using r by (auto simp: reclaim_expired_leases_def Let_def split: if_splits)
  have good: "good_update d t (reclaim_stamp c d rnd now t) \<and> row_evolves t (reclaim_stamp c d rnd now t)"
    if "t \<in> set (db_tasks d)" "tk_id t \<in> tk_id ` set ?ex" for t
    using expired_list_mem [OF expired_list_ids [OF ok that]] overdue_live
    by (intro reclaim_stamp_good [OF ok that(1)]) blast
  then have m: "db_ok ?m" "evolves d ?m"
    by (blast intro: db_ok_map_tasks [OF ok] evolves_map_tasks)+
  have "attempt_ok ?m a" if "a \<in> set ?new" for a
  proof -
    obtain k t where a: "a = expiry_attempt (ids k) now (reclaimed_of c d rnd now t)" and t: "t \<in> set ?ex"
      using \<open>a \<in> set ?new\<close> reclaim_Inr(2) [OF r] by (auto simp: in_set_enumerate_eq)
    have td: "t \<in> set (db_tasks d)" using expired_list_mem [OF t] by simp
    have "reclaim_stamp c d rnd now t \<in> set (db_tasks ?m)"
      using t td by (force simp: set_map_tasks)
    moreover have "0 \<le> tk_attempt t" "worker_known d (tk_worker t)"
      using ok td db_ok_task [OF ok td] by (auto simp: db_ok_def refs_ok_def task_ok_def)
    ultimately show ?thesis
      unfolding attempt_ok_def
      by (intro conjI bexI [of _ "reclaim_stamp c d rnd now t"])
        (simp_all add: a expiry_attempt_def reclaimed_of_def reclaim_stamp_def)
  qed
  then have "db_ok d'" unfolding d' by (intro db_ok_add_attempts [OF m(1)]) blast
  moreover have "evolves ?m d'" unfolding d' by (rule evolves_extend(4))
  ultimately show ?thesis using evolves_trans [OF m(2)] by simp
qed

subsection \<open>Recorded failures\<close>

lemma add_attempt_ok:
  "db_ok d \<Longrightarrow> attempt_ok d a \<Longrightarrow> db_ok (add_attempt a d) \<and> evolves d (add_attempt a d)"
  using db_ok_add_attempts [of d "[a]"] by (simp add: add_attempt_def)

lemma db_ok_record_failure:
  assumes ok: "db_ok d" and r: "record_execution_failure task_id w err corr i now d = Inr (u, d')"
  shows "db_ok d' \<and> evolves d d'"
proof -
  have "db_ok d' \<and> evolves d d'"
    if "parse_uuid task_id = Some j" "find_task d j = Some t" for j t
  proof -
    have "attempt_ok d (failure_row i t w err corr now)" if "worker_known d (Some w)"
      using find_task_mem [OF \<open>find_task d j = Some t\<close>] db_ok_find [OF ok \<open>find_task d j = Some t\<close>] that
      by (auto simp: attempt_ok_def task_ok_def failure_row_def)
    with r that ok add_attempt_ok [OF ok] show ?thesis
      by (auto simp: record_execution_failure_def split: if_splits)
  qed
  moreover have "d' = d" if "parse_uuid task_id = None"
    using r that by (simp add: record_execution_failure_def)
  moreover have "d' = d" if "parse_uuid task_id = Some j" "find_task d j = None" for j
    using r that by (simp add: record_execution_failure_def)
  ultimately show ?thesis
    using ok evolves_refl by (metis not_None_eq)
qed

subsection \<open>Every statement of the engine honours the contract\<close>

interpretation renew_stmt: db_statement
  "\<lambda>(c, task_id, w, now) d. snd (renew_lease c task_id w now d)" "\<lambda>_ _. True"
  by unfold_locales (auto dest: db_ok_renew_lease)

interpretation renew_worker_stmt: db_statement
  "\<lambda>(c, w, now) d. snd (renew_worker_leases c w now d)" "\<lambda>_ _. True"
  by unfold_locales (auto dest: db_ok_renew_worker)

interpretation shorten_stmt: db_statement
  "\<lambda>(w, grace, now) d. snd (shorten_worker_leases w grace now d)" "\<lambda>_ _. True"
  by unfold_locales (auto dest: db_ok_shorten)

interpretation reclaim_stmt: db_statement
  "\<lambda>a d. committed ((\<lambda>(c, batch, locked, rnd, ids, now).
     reclaim_expired_leases c batch locked rnd ids now) a d) d" "\<lambda>_ _. True"
  by (rule db_statement_committed) (auto dest: db_ok_reclaim)

interpretation record_failure_stmt: db_statement
  "\<lambda>a d. committed ((\<lambda>(task_id, w, err, corr, i, now).
     record_execution_failure task_id w err corr i now) a d) d" "\<lambda>_ _. True"
  by (rule db_statement_committed) (auto dest: db_ok_record_failure)

end
