(* ===== verification/Results.thy ===== *)
theory Results
  imports Uuid TaskStates Config
begin

text \<open>
  \<open>coordinator/app/results.py\<close>: the decision whether what a worker submitted is a
  result. \<open>json.dumps(..., separators=(",", ":"))\<close> with its ASCII escapes is modelled,
  since \<open>size_bytes\<close> is its length; the decimal text of a float is the parameter \<open>fr\<close>
  (the shortest representation the interpreter prints), the \<open>repr\<close> of a non-string
  identifier the parameter \<open>rp\<close>. \<open>round(x, 3)\<close> rounds the exact value half to even.
\<close>

definition MAX_TOKEN_CHARS :: nat where "MAX_TOKEN_CHARS = 128"

definition ACCEPTED_STATUSES :: "string list" where "ACCEPTED_STATUSES = [COMPLETED]"

definition REJECT_BAD_TASK_ID :: string where "REJECT_BAD_TASK_ID = ''bad_task_id''"
definition REJECT_BAD_STATUS :: string where "REJECT_BAD_STATUS = ''bad_status''"
definition REJECT_MISSING_TOKEN :: string where "REJECT_MISSING_TOKEN = ''missing_idempotency_token''"
definition REJECT_BAD_DURATION :: string where "REJECT_BAD_DURATION = ''bad_duration''"
definition REJECT_BAD_ATTEMPT :: string where "REJECT_BAD_ATTEMPT = ''bad_attempt_number''"
definition REJECT_BAD_EPOCH :: string where "REJECT_BAD_EPOCH = ''bad_session_epoch''"
definition REJECT_UNSERIALISABLE :: string where "REJECT_UNSERIALISABLE = ''unserialisable_result''"

subsection \<open>JSON text\<close>

definition digit_char :: "nat \<Rightarrow> char" where
  "digit_char n = char_of (48 + n)"

fun show_nat :: "nat \<Rightarrow> string" where
  "show_nat n = (if n < 10 then [digit_char n] else show_nat (n div 10) @ [digit_char (n mod 10)])"

declare show_nat.simps [simp del]

definition show_int :: "int \<Rightarrow> string" where
  "show_int n = (if n < 0 then CHR ''-'' # show_nat (nat (- n)) else show_nat (nat n))"

definition hex_char :: "nat \<Rightarrow> char" where
  "hex_char n = char_of (if n < 10 then 48 + n else 87 + n)"

definition escape_char :: "char \<Rightarrow> string" where
  "escape_char c = (let n = of_char c :: nat in
     if n = 34 \<or> n = 92 then [char_of (92 :: nat), c]
     else if n = 10 then [char_of (92 :: nat), CHR ''n'']
     else if n = 13 then [char_of (92 :: nat), CHR ''r'']
     else if n = 9 then [char_of (92 :: nat), CHR ''t'']
     else if n = 12 then [char_of (92 :: nat), CHR ''f'']
     else if n = 8 then [char_of (92 :: nat), CHR ''b'']
     else if n < 32 \<or> 126 < n
     then [char_of (92 :: nat), CHR ''u'', CHR ''0'', CHR ''0'', hex_char (n div 16), hex_char (n mod 16)]
     else [c])"

definition json_string :: "string \<Rightarrow> string" where
  "json_string s = CHR 0x22 # concat (map escape_char s) @ [CHR 0x22]"

fun joined :: "string list \<Rightarrow> string" where
  "joined [] = []"
| "joined [x] = x"
| "joined (x # y # ys) = x @ '','' @ joined (y # ys)"

fun json_float :: "(rat \<Rightarrow> string) \<Rightarrow> pyfloat \<Rightarrow> string" where
  "json_float fr (Fin r) = fr r"
| "json_float fr PosInf = ''Infinity''"
| "json_float fr NegInf = ''-Infinity''"
| "json_float fr NaN = ''NaN''"

fun dumps :: "(rat \<Rightarrow> string) \<Rightarrow> pyval \<Rightarrow> exn + string"
  and dumps_list :: "(rat \<Rightarrow> string) \<Rightarrow> pyval list \<Rightarrow> exn + string list"
  and dumps_items :: "(rat \<Rightarrow> string) \<Rightarrow> (string \<times> pyval) list \<Rightarrow> exn + string list" where
  "dumps fr PNone = Inr ''null''"
| "dumps fr (PBool b) = Inr (if b then ''true'' else ''false'')"
| "dumps fr (PInt n) = Inr (show_int n)"
| "dumps fr (PFloat x) = Inr (json_float fr x)"
| "dumps fr (PStr s) = Inr (json_string s)"
| "dumps fr (PList xs) = (case dumps_list fr xs of
     Inl e \<Rightarrow> Inl e | Inr ys \<Rightarrow> Inr (''['' @ joined ys @ '']''))"
| "dumps fr (PDict d) = (case dumps_items fr d of
     Inl e \<Rightarrow> Inl e | Inr ys \<Rightarrow> Inr (CHR 0x7B # joined ys @ [CHR 0x7D]))"
| "dumps fr (PObject _) = Inl TypeError"
| "dumps_list fr [] = Inr []"
| "dumps_list fr (x # xs) = (case dumps fr x of
     Inl e \<Rightarrow> Inl e
   | Inr y \<Rightarrow> (case dumps_list fr xs of Inl e \<Rightarrow> Inl e | Inr ys \<Rightarrow> Inr (y # ys)))"
| "dumps_items fr [] = Inr []"
| "dumps_items fr ((k, x) # d) = (case dumps fr x of
     Inl e \<Rightarrow> Inl e
   | Inr y \<Rightarrow> (case dumps_items fr d of
         Inl e \<Rightarrow> Inl e | Inr ys \<Rightarrow> Inr ((json_string k @ '':'' @ y) # ys)))"

definition json_size :: "(rat \<Rightarrow> string) \<Rightarrow> pydict \<Rightarrow> exn + int" where
  "json_size fr d = (case dumps fr (PDict d) of Inl e \<Rightarrow> Inl e | Inr s \<Rightarrow> Inr (int (length s)))"

subsection \<open>Fields\<close>

definition round_half_even :: "rat \<Rightarrow> int" where
  "round_half_even r = (let f = \<lfloor>r\<rfloor>; x = r - of_int f in
     if x < 1 / 2 then f else if 1 / 2 < x then f + 1 else if even f then f else f + 1)"

fun round3 :: "pyfloat \<Rightarrow> pyfloat" where
  "round3 (Fin r) = Fin (of_int (round_half_even (r * 1000)) / 1000)"
| "round3 x = x"

fun optional_int :: "pyval \<Rightarrow> pyval" where
  "optional_int (PInt n) = (if n < 0 then PNone else PInt n)"
| "optional_int _ = PNone"

definition require_int :: "pydict \<Rightarrow> string \<Rightarrow> string \<Rightarrow> int \<Rightarrow> exn + int" where
  "require_int payload k code minimum = (case dict_get payload k of
      PInt n \<Rightarrow> if n < minimum then Inl (MalformedResult code) else Inr n
    | _ \<Rightarrow> Inl (MalformedResult code))"

text \<open>\<open>isinstance(x, (int, float)) and not x < 0\<close>, then \<open>float(x)\<close>. A NaN is not below zero.\<close>

fun negative_float :: "pyfloat \<Rightarrow> bool" where
  "negative_float (Fin r) = (r < 0)"
| "negative_float NegInf = True"
| "negative_float _ = False"

definition require_duration :: "pydict \<Rightarrow> exn + pyval" where
  "require_duration payload = (case dict_get payload ''duration_seconds'' of
      PInt n \<Rightarrow> if n < 0 then Inl (MalformedResult REJECT_BAD_DURATION) else Inr (PInt n)
    | PFloat x \<Rightarrow> if negative_float x then Inl (MalformedResult REJECT_BAD_DURATION) else Inr (PFloat x)
    | _ \<Rightarrow> Inl (MalformedResult REJECT_BAD_DURATION))"

definition require_token :: "pydict \<Rightarrow> exn + string" where
  "require_token payload = (case dict_get payload ''idempotency_token'' of
      PStr s \<Rightarrow> if s = [] \<or> length s > MAX_TOKEN_CHARS
                then Inl (MalformedResult REJECT_MISSING_TOKEN) else Inr s
    | _ \<Rightarrow> Inl (MalformedResult REJECT_MISSING_TOKEN))"

definition require_task_id :: "(pyval \<Rightarrow> string) \<Rightarrow> pydict \<Rightarrow> exn + string" where
  "require_task_id rp payload = (case parse_uuid (get_str rp payload ''task_id'' []) of
      None \<Rightarrow> Inl (MalformedResult REJECT_BAD_TASK_ID)
    | Some i \<Rightarrow> Inr (uuid_str i))"

definition require_status :: "(pyval \<Rightarrow> string) \<Rightarrow> pydict \<Rightarrow> exn + string" where
  "require_status rp payload = (let s = get_str rp payload ''status'' [] in
     if s \<notin> set ACCEPTED_STATUSES then Inl (MalformedResult REJECT_BAD_STATUS) else Inr s)"

subsection \<open>The envelope\<close>

definition base_envelope ::
  "string \<Rightarrow> string \<Rightarrow> int \<Rightarrow> int \<Rightarrow> string \<Rightarrow> pyfloat \<Rightarrow> pyval \<Rightarrow> bool \<Rightarrow> pyval \<Rightarrow> pydict" where
  "base_envelope task_id status attempt epoch token duration result truncated original =
     [(''task_id'', PStr task_id), (''status'', PStr status),
      (''attempt_number'', PInt attempt), (''session_epoch'', PInt epoch),
      (''idempotency_token'', PStr token), (''duration_seconds'', PFloat (round3 duration)),
      (''result'', result), (''truncated'', PBool truncated)]
     @ (if truncated then [(''original_size_bytes'', optional_int original)] else [])"

definition seal :: "(rat \<Rightarrow> string) \<Rightarrow> int \<Rightarrow> pydict \<Rightarrow> exn + pydict" where
  "seal fr max_bytes envelope = (case json_size fr envelope of
      Inl e \<Rightarrow> Inl (if e = TypeError \<or> e = ValueError
                     then MalformedResult REJECT_UNSERIALISABLE else e)
    | Inr size_bytes \<Rightarrow>
        if size_bytes > max_bytes then
          (let stripped = AList.update ''original_size_bytes'' (PInt size_bytes)
                 (AList.update ''truncated'' (PBool True)
                   (AList.update ''result'' PNone envelope))
           in bind_exn (json_size fr stripped) (\<lambda>sz.
                Inr (AList.update ''size_bytes'' (PInt sz) stripped)))
        else Inr (AList.update ''size_bytes'' (PInt size_bytes) envelope))"

definition validate :: "(pyval \<Rightarrow> string) \<Rightarrow> (rat \<Rightarrow> string) \<Rightarrow> int \<Rightarrow> pydict option \<Rightarrow> exn + pydict" where
  "validate rp fr max_bytes p =
     (let payload = (case p of None \<Rightarrow> [] | Some d \<Rightarrow> d) in
      bind_exn (require_task_id rp payload) (\<lambda>task_id.
      bind_exn (require_status rp payload) (\<lambda>status.
      bind_exn (require_token payload) (\<lambda>token.
      bind_exn (require_duration payload) (\<lambda>duration.
      bind_exn (require_int payload ''attempt_number'' REJECT_BAD_ATTEMPT 0) (\<lambda>attempt.
      bind_exn (require_int payload ''session_epoch'' REJECT_BAD_EPOCH 0) (\<lambda>epoch.
      bind_exn (py_float duration) (\<lambda>seconds.
        seal fr max_bytes (base_envelope task_id status attempt epoch token seconds
          (dict_get payload ''result'') (truthy (dict_get payload ''truncated''))
          (dict_get payload ''original_size_bytes''))))))))))"

subsection \<open>Serialisation\<close>

lemma dumps_error:
  "dumps fr v = Inl e \<Longrightarrow> e = TypeError"
  "dumps_list fr xs = Inl e \<Longrightarrow> e = TypeError"
  "dumps_items fr d = Inl e \<Longrightarrow> e = TypeError"
  by (induction fr v and fr xs and fr d rule: dumps_dumps_list_dumps_items.induct)
    (auto split: sum.splits)

lemma json_size_error: "json_size fr d = Inl e \<Longrightarrow> e = TypeError"
  using dumps_error(1) [of fr "PDict d"] by (auto simp: json_size_def split: sum.splits)

definition encodable :: "(rat \<Rightarrow> string) \<Rightarrow> pyval \<Rightarrow> bool" where
  "encodable fr v \<longleftrightarrow> (\<exists>s. dumps fr v = Inr s)"

lemma json_size_ok_iff: "(\<exists>n. json_size fr d = Inr n) \<longleftrightarrow> (\<forall>(k, v) \<in> set d. encodable fr v)"
proof -
  have "(\<exists>ys. dumps_items fr d = Inr ys) \<longleftrightarrow> (\<forall>(k, v) \<in> set d. encodable fr v)"
    by (induction d) (auto simp: encodable_def split: sum.splits)
  then show ?thesis by (auto simp: json_size_def split: sum.splits)
qed

lemma set_update_values:
  "(k, v) \<in> set (AList.update l w d) \<Longrightarrow> (k, v) \<in> set d \<or> (k, v) = (l, w)"
  by (induction d) (auto split: if_splits)

lemma json_size_update:
  assumes "json_size fr d = Inr n" "encodable fr v"
  shows "\<exists>m. json_size fr (AList.update k v d) = Inr m"
proof -
  have "\<forall>(j, u) \<in> set d. encodable fr u"
    using assms(1) json_size_ok_iff by blast
  then have "\<forall>(j, u) \<in> set (AList.update k v d). encodable fr u"
    using assms(2) set_update_values [of _ _ k v d] by fastforce
  then show ?thesis using json_size_ok_iff by blast
qed

lemma encodable_simps [simp]: "encodable fr PNone" "encodable fr (PBool b)" "encodable fr (PInt n)"
  "encodable fr (PStr s)" "encodable fr (PFloat x)"
  by (simp_all add: encodable_def)

subsection \<open>Sealing\<close>

definition stripped_envelope :: "int \<Rightarrow> pydict \<Rightarrow> pydict" where
  "stripped_envelope n e = AList.update ''original_size_bytes'' (PInt n)
     (AList.update ''truncated'' (PBool True) (AList.update ''result'' PNone e))"

lemma stripped_size:
  "json_size fr e = Inr n \<Longrightarrow> \<exists>m. json_size fr (stripped_envelope k e) = Inr m"
  unfolding stripped_envelope_def by (meson json_size_update encodable_simps)

lemma seal_total:
  "seal fr mb e = (case json_size fr e of
      Inl _ \<Rightarrow> Inl (MalformedResult REJECT_UNSERIALISABLE)
    | Inr n \<Rightarrow> (let e' = (if mb < n then stripped_envelope n e else e) in
        case json_size fr e' of Inr m \<Rightarrow> Inr (AList.update ''size_bytes'' (PInt m) e') | Inl x \<Rightarrow> Inl x))"
  by (auto simp: seal_def stripped_envelope_def bind_exn_def Let_def dest: json_size_error split: sum.splits)

lemma seal_error: "seal fr mb e = Inl x \<Longrightarrow> x = MalformedResult REJECT_UNSERIALISABLE"
proof (cases "json_size fr e")
  case (Inr n)
  assume "seal fr mb e = Inl x"
  moreover obtain m where "json_size fr (stripped_envelope n e) = Inr m"
    using stripped_size [OF Inr] by blast
  ultimately show ?thesis using Inr by (auto simp: seal_total split: if_splits)
qed (simp add: seal_total)

lemma seal_Inr:
  assumes "seal fr mb e = Inr env"
  obtains n m where "json_size fr e = Inr n"
    "json_size fr (if mb < n then stripped_envelope n e else e) = Inr m"
    "env = AList.update ''size_bytes'' (PInt m) (if mb < n then stripped_envelope n e else e)"
  using assms by (auto simp: seal_total Let_def split: sum.splits)

subsection \<open>What an accepted envelope says\<close>

lemma require_int_Inr: "require_int p k code m = Inr n \<longleftrightarrow> dict_get p k = PInt n \<and> m \<le> n"
  by (auto simp: require_int_def split: pyval.splits if_splits)

lemma require_token_Inr: "require_token p = Inr s \<longleftrightarrow>
    dict_get p ''idempotency_token'' = PStr s \<and> s \<noteq> [] \<and> length s \<le> MAX_TOKEN_CHARS"
  by (auto simp: require_token_def split: pyval.splits if_splits)

lemma require_status_Inr: "require_status rp p = Inr s \<longleftrightarrow>
    s = COMPLETED \<and> get_str rp p ''status'' [] = COMPLETED"
  by (auto simp: require_status_def ACCEPTED_STATUSES_def Let_def)

lemma require_task_id_Inr: "require_task_id rp p = Inr s \<longleftrightarrow>
    (\<exists>i. s = uuid_str i \<and> parse_uuid (get_str rp p ''task_id'' []) = Some i)"
  by (auto simp: require_task_id_def split: option.splits)

text \<open>The fields the completion path and its guards read.\<close>

definition envelope_for :: "pydict \<Rightarrow> uuid \<Rightarrow> int \<Rightarrow> int \<Rightarrow> string \<Rightarrow> bool" where
  "envelope_for env i attempt epoch token \<longleftrightarrow>
     dict_get env ''task_id'' = PStr (uuid_str i) \<and> dict_get env ''status'' = PStr COMPLETED
   \<and> dict_get env ''attempt_number'' = PInt attempt \<and> 0 \<le> attempt
   \<and> dict_get env ''session_epoch'' = PInt epoch \<and> 0 \<le> epoch
   \<and> dict_get env ''idempotency_token'' = PStr token \<and> token \<noteq> [] \<and> length token \<le> MAX_TOKEN_CHARS"

lemma dict_get_update: "dict_get (AList.update k v d) j = (if j = k then v else dict_get d j)"
  by (simp add: dict_get_def update_conv')

lemma base_envelope_get:
  "dict_get (base_envelope i s a e t x r tr og) ''task_id'' = PStr i"
  "dict_get (base_envelope i s a e t x r tr og) ''status'' = PStr s"
  "dict_get (base_envelope i s a e t x r tr og) ''attempt_number'' = PInt a"
  "dict_get (base_envelope i s a e t x r tr og) ''session_epoch'' = PInt e"
  "dict_get (base_envelope i s a e t x r tr og) ''idempotency_token'' = PStr t"
  "dict_get (base_envelope i s a e t x r tr og) ''duration_seconds'' = PFloat (round3 x)"
  "dict_get (base_envelope i s a e t x r tr og) ''result'' = r"
  "dict_get (base_envelope i s a e t x r tr og) ''truncated'' = PBool tr"
  by (simp_all add: base_envelope_def dict_get_def)

lemma validate_Inr:
  assumes "validate rp fr mb p = Inr env"
  obtains i token dur attempt epoch x where
    "parse_uuid (get_str rp (case p of None \<Rightarrow> [] | Some d \<Rightarrow> d) ''task_id'' []) = Some i"
    "get_str rp (case p of None \<Rightarrow> [] | Some d \<Rightarrow> d) ''status'' [] = COMPLETED"
    "require_token (case p of None \<Rightarrow> [] | Some d \<Rightarrow> d) = Inr token"
    "require_duration (case p of None \<Rightarrow> [] | Some d \<Rightarrow> d) = Inr dur" "py_float dur = Inr x"
    "dict_get (case p of None \<Rightarrow> [] | Some d \<Rightarrow> d) ''attempt_number'' = PInt attempt" "0 \<le> attempt"
    "dict_get (case p of None \<Rightarrow> [] | Some d \<Rightarrow> d) ''session_epoch'' = PInt epoch" "0 \<le> epoch"
    "seal fr mb (base_envelope (uuid_str i) COMPLETED attempt epoch token x
       (dict_get (case p of None \<Rightarrow> [] | Some d \<Rightarrow> d) ''result'')
       (truthy (dict_get (case p of None \<Rightarrow> [] | Some d \<Rightarrow> d) ''truncated''))
       (dict_get (case p of None \<Rightarrow> [] | Some d \<Rightarrow> d) ''original_size_bytes'')) = Inr env"
  using assms
  by (auto simp: validate_def Let_def bind_exn_def require_int_Inr require_status_Inr
      require_task_id_Inr split: sum.splits)

lemma seal_get:
  assumes "seal fr mb e = Inr env" and "j \<notin> {''size_bytes'', ''result'', ''truncated'', ''original_size_bytes''}"
  shows "dict_get env j = dict_get e j"
  using assms(2)
  by (cases rule: seal_Inr [OF assms(1)]) (auto simp: dict_get_update stripped_envelope_def)

lemma validated_envelope:
  assumes "validate rp fr mb p = Inr env"
  shows "\<exists>i attempt epoch token. envelope_for env i attempt epoch token
    \<and> parse_uuid (get_str rp (case p of None \<Rightarrow> [] | Some d \<Rightarrow> d) ''task_id'' []) = Some i"
  using assms
proof (rule validate_Inr)
  fix i token dur attempt epoch x
  assume i: "parse_uuid (get_str rp (case p of None \<Rightarrow> [] | Some d \<Rightarrow> d) ''task_id'' []) = Some i"
    and t: "require_token (case p of None \<Rightarrow> [] | Some d \<Rightarrow> d) = Inr token"
    and n: "0 \<le> attempt" "0 \<le> epoch"
    and sl: "seal fr mb (base_envelope (uuid_str i) COMPLETED attempt epoch token x
       (dict_get (case p of None \<Rightarrow> [] | Some d \<Rightarrow> d) ''result'')
       (truthy (dict_get (case p of None \<Rightarrow> [] | Some d \<Rightarrow> d) ''truncated''))
       (dict_get (case p of None \<Rightarrow> [] | Some d \<Rightarrow> d) ''original_size_bytes'')) = Inr env"
  have "envelope_for env i attempt epoch token"
    using seal_get [OF sl] n t by (simp add: envelope_for_def base_envelope_get require_token_Inr)
  with i show ?thesis by blast
qed

end
