(* ===== verification/Completion.thy ===== *)
theory Completion
  imports LeaseEngine Results "HOL-Library.Multiset"
begin

text \<open>
  \<open>complete_task\<close> of \<open>coordinator/app/task_queue.py\<close>: the one transaction that stores
  a result and completes its task, with the duplicate, superseded and fenced answers.
  The identifiers drawn by \<open>uuid4()\<close> and \<open>gen_random_uuid()\<close> are arguments. A value
  that has no \<open>jsonb\<close> form (NaN, an infinity, the character U+0000) is refused by the
  server.
\<close>

definition REASON_STALE_ATTEMPT :: string where "REASON_STALE_ATTEMPT = ''stale_attempt''"
definition REASON_TASK_REASSIGNED :: string where "REASON_TASK_REASSIGNED = ''task_reassigned''"

subsection \<open>The database's view of a JSON value\<close>

definition no_nul :: "string \<Rightarrow> bool" where
  "no_nul s \<longleftrightarrow> (\<forall>c \<in> set s. (of_char c :: nat) \<noteq> 0)"

fun jsonb_ok :: "pyval \<Rightarrow> bool" where
  "jsonb_ok (PFloat (Fin _)) = True"
| "jsonb_ok (PFloat _) = False"
| "jsonb_ok (PStr s) = no_nul s"
| "jsonb_ok (PList xs) = list_all jsonb_ok xs"
| "jsonb_ok (PDict d) = list_all (\<lambda>(k, v). no_nul k \<and> jsonb_ok v) d"
| "jsonb_ok _ = True"

text \<open>\<open>payload ->> 'idempotency_token'\<close>; what \<open>validate\<close> stores there is a string.\<close>

definition stored_token :: "pydict \<Rightarrow> string option" where
  "stored_token payload = (case dict_get payload ''idempotency_token'' of
      PStr s \<Rightarrow> Some s | PInt n \<Rightarrow> Some (show_int n)
    | PBool b \<Rightarrow> Some (if b then ''true'' else ''false'') | _ \<Rightarrow> None)"

subsection \<open>The helpers\<close>

definition terminal_result_outcome :: "db \<Rightarrow> uuid option \<Rightarrow> pyval \<Rightarrow> outcome" where
  "terminal_result_outcome d result_id token =
     (case result_id of
        None \<Rightarrow> SUPERSEDED
      | Some r \<Rightarrow>
          if token = PNone then SUPERSEDED
          else case find_result d r of
              None \<Rightarrow> SUPERSEDED
            | Some row \<Rightarrow> (case stored_token (rs_payload row) of
                None \<Rightarrow> SUPERSEDED
              | Some s \<Rightarrow> if PStr s = token then DUPLICATE else SUPERSEDED))"

definition ever_held :: "db \<Rightarrow> uuid \<Rightarrow> uuid \<Rightarrow> uuid option \<Rightarrow> bool" where
  "ever_held d i w assigned \<longleftrightarrow> assigned = Some w
     \<or> (\<exists>a \<in> set (db_attempts d). at_task a = i \<and> at_worker a = Some w)"

text \<open>Python compares \<open>1\<close>, \<open>1.0\<close> and \<open>True\<close> equal, and a \<open>bool\<close> is an \<open>int\<close>.\<close>

fun equals_int :: "pyval \<Rightarrow> int \<Rightarrow> bool" where
  "equals_int (PInt m) n = (m = n)"
| "equals_int (PBool b) n = ((if b then 1 else 0) = n)"
| "equals_int (PFloat (Fin r)) n = (r = of_int n)"
| "equals_int _ n = False"

fun as_int :: "pyval \<Rightarrow> int option" where
  "as_int (PInt m) = Some m"
| "as_int (PBool b) = Some (if b then 1 else 0)"
| "as_int _ = None"

definition fence_row :: "uuid \<Rightarrow> task_row \<Rightarrow> int \<Rightarrow> uuid \<Rightarrow> string \<Rightarrow> time \<Rightarrow> attempt_row" where
  "fence_row aid t n w reason now = \<lparr>at_id = aid, at_task = tk_id t, at_number = n,
     at_worker = Some w, at_outcome = FENCED_OUTCOME, at_reason = Some reason,
     at_correlation = Some (tk_correlation t), at_recorded_at = now\<rparr>"

definition record_fence :: "uuid \<Rightarrow> task_row \<Rightarrow> pyval \<Rightarrow> uuid \<Rightarrow> string \<Rightarrow> time \<Rightarrow> db \<Rightarrow> exn + db" where
  "record_fence aid t submitted w reason now d = (case as_int submitted of
      None \<Rightarrow> Inr d
    | Some n \<Rightarrow>
        if \<not> (0 \<le> n \<and> n \<le> tk_attempt t) then Inr d
        else if has_attempt d (tk_id t) w n FENCED_OUTCOME then Inr d
        else if \<not> worker_known d (Some w) then Inl ForeignKeyViolation
        else Inr (add_attempt (fence_row aid t n w reason now) d))"

fun walk :: "string \<Rightarrow> string list \<Rightarrow> exn + string" where
  "walk state [] = Inr state"
| "walk state (target # path) =
     (case check_transition state target of Inl e \<Rightarrow> Inl e | Inr _ \<Rightarrow> walk target path)"

definition completion_path :: "string \<Rightarrow> string list" where
  "completion_path current = (if current = ASSIGNED then [RUNNING, COMPLETED] else [COMPLETED])"

definition insert_result :: "uuid \<Rightarrow> pydict \<Rightarrow> time \<Rightarrow> db \<Rightarrow> exn + db" where
  "insert_result rid envelope now d =
     bind_exn (dumps (\<lambda>_. []) (PDict envelope)) (\<lambda>_.
     case map_of envelope ''size_bytes'' of
       None \<Rightarrow> Inl KeyError
     | Some v \<Rightarrow> bind_exn (py_int v) (\<lambda>size_bytes.
         if \<not> jsonb_ok (PDict envelope) \<or> \<not> int4_ok size_bytes
            \<or> rid \<in> rs_id ` set (db_results d) then Inl DatabaseError
         else Inr (d\<lparr>db_results := db_results d @ [\<lparr>rs_id = rid, rs_payload = envelope,
               rs_size_bytes = size_bytes, rs_submitted_at = now\<rparr>]\<rparr>)))"

definition complete_stamp :: "uuid \<Rightarrow> time \<Rightarrow> task_row \<Rightarrow> task_row" where
  "complete_stamp rid now t = t\<lparr>tk_status := COMPLETED, tk_result := Some rid,
     tk_completed_at := Some now, tk_updated_at := now, tk_lease := None, tk_deadline := None,
     tk_not_before := None, tk_excluded := None,
     tk_started_at := Some (coalesce (tk_started_at t) now)\<rparr>"

subsection \<open>The transaction\<close>

definition fence_or_refuse ::
  "uuid \<Rightarrow> task_row \<Rightarrow> pyval \<Rightarrow> uuid \<Rightarrow> time \<Rightarrow> db \<Rightarrow> exn + outcome \<times> db" where
  "fence_or_refuse aid t submitted w now d =
     (if \<not> ever_held d (tk_id t) w (tk_worker t) then Inr (NOT_OWNER, d)
      else bind_exn (record_fence aid t submitted w
             (if tk_worker t = Some w then REASON_STALE_ATTEMPT else REASON_TASK_REASSIGNED) now d)
           (\<lambda>d'. Inr (FENCED, d')))"

definition store_result :: "uuid \<Rightarrow> pydict \<Rightarrow> task_row \<Rightarrow> time \<Rightarrow> db \<Rightarrow> exn + outcome \<times> db" where
  "store_result rid envelope t now d = (case walk (tk_status t) (completion_path (tk_status t)) of
      Inl (InvalidTaskTransition _ _) \<Rightarrow> Inr (ILLEGAL, d)
    | Inl e \<Rightarrow> Inl e
    | Inr _ \<Rightarrow> bind_exn (insert_result rid envelope now d) (\<lambda>d'.
        Inr (TRANSITIONED, set_task (tk_id t) (complete_stamp rid now) d')))"

definition complete_locked ::
  "pydict \<Rightarrow> uuid \<Rightarrow> uuid \<Rightarrow> uuid \<Rightarrow> task_row \<Rightarrow> time \<Rightarrow> db \<Rightarrow> exn + outcome \<times> db" where
  "complete_locked envelope w rid aid t now d =
     bind_exn (is_terminal (tk_status t)) (\<lambda>terminal.
       if terminal
       then Inr (terminal_result_outcome d (tk_result t) (dict_get envelope ''idempotency_token''), d)
       else if tk_worker t \<noteq> Some w
            \<or> \<not> equals_int (dict_get envelope ''attempt_number'') (tk_attempt t)
       then fence_or_refuse aid t (dict_get envelope ''attempt_number'') w now d
       else store_result rid envelope t now d)"

definition complete_task ::
  "(pyval \<Rightarrow> string) \<Rightarrow> pydict \<Rightarrow> uuid \<Rightarrow> uuid \<Rightarrow> uuid \<Rightarrow> time \<Rightarrow> db \<Rightarrow> exn + outcome \<times> db" where
  "complete_task rp envelope w rid aid now d = (case map_of envelope ''task_id'' of
      None \<Rightarrow> Inl KeyError
    | Some v \<Rightarrow> (case parse_uuid (py_str rp v) of
        None \<Rightarrow> Inr (NOT_FOUND, d)
      | Some i \<Rightarrow> (case find_task d i of
          None \<Rightarrow> Inr (NOT_FOUND, d)
        | Some t \<Rightarrow> complete_locked envelope w rid aid t now d)))"

subsection \<open>Storing a result keeps the invariant\<close>

definition refs_of :: "task_row list \<Rightarrow> uuid list" where
  "refs_of ts = concat (map (\<lambda>t. case tk_result t of None \<Rightarrow> [] | Some r \<Rightarrow> [r]) ts)"

lemma refs_of_update:
  "distinct (map tk_id ts) \<Longrightarrow> t \<in> set ts \<Longrightarrow> tk_result t = None \<Longrightarrow> tk_result (f t) = Some r \<Longrightarrow>
   mset (refs_of (update_where (\<lambda>u. tk_id u = tk_id t) f ts)) = add_mset r (mset (refs_of ts))"
proof (induction ts)
  case (Cons u ts)
  show ?case
  proof (cases "u = t")
    case True
    with Cons.prems have "update_where (\<lambda>u. tk_id u = tk_id t) f ts = ts"
      by (intro update_where_id) (metis distinct.simps(2) image_eqI list.simps(9) list.set_map)
    with True Cons.prems show ?thesis by (simp add: refs_of_def)
  next
    case False
    with Cons show ?thesis by (auto simp: refs_of_def)
  qed
qed simp

lemma complete_stamp_simps [simp]:
  "tk_id (complete_stamp r now t) = tk_id t" "tk_result (complete_stamp r now t) = Some r"
  "tk_status (complete_stamp r now t) = COMPLETED" "tk_attempt (complete_stamp r now t) = tk_attempt t"
  "tk_worker (complete_stamp r now t) = tk_worker t"
  "tk_completed_at (complete_stamp r now t) = Some now"
  by (simp_all add: complete_stamp_def)

lemma complete_stamp_ok:
  "task_ok t \<Longrightarrow> live_status (tk_status t) \<Longrightarrow> task_ok (complete_stamp r now t)"
  using task_ok_live [of t] by (auto simp: task_ok_def complete_stamp_def settled_def leased_def)

lemma complete_stamp_evolves:
  "live_status (tk_status t) \<Longrightarrow> row_evolves t (complete_stamp r now t)"
  using live_not_terminal [of "tk_status t"]
  by (auto simp: row_evolves_def same_identity_def same_attempt_def complete_stamp_def live_status_def)

lemma db_ok_store:
  assumes ok: "db_ok d" and t: "find_task d i = Some t" and live: "live_status (tk_status t)"
    and fresh: "rs_id row \<notin> rs_id ` set (db_results d)"
    and e: "e = set_task (tk_id t) (complete_stamp (rs_id row) now) (d\<lparr>db_results := db_results d @ [row]\<rparr>)"
  shows "db_ok e \<and> evolves d e"
proof -
  let ?f = "complete_stamp (rs_id row) now"
  have tt: "t \<in> set (db_tasks d)" using find_task_mem [OF t] by simp
  have tok: "task_ok t" by (rule db_ok_task [OF ok tt])
  have tasks: "db_tasks e = update_where (\<lambda>u. tk_id u = tk_id t) ?f (db_tasks d)"
    and rest: "db_results e = db_results d @ [row]" "db_attempts e = db_attempts d"
      "db_policies e = db_policies d" "db_workers e = db_workers d"
    by (simp_all add: e set_task_def)
  have only: "u = t" if "u \<in> set (db_tasks d)" "tk_id u = tk_id t" for u
    using that tt db_ok_distinct [OF ok] by (auto simp: distinct_map inj_on_def)
  have mem: "set (db_tasks e) = (\<lambda>u. if u = t then ?f t else u) ` set (db_tasks d)"
    unfolding tasks set_update_where using only by (intro image_cong) auto
  have "tk_result t = None"
    using tok live live_not_terminal [OF live] by (auto simp: task_ok_def)
  then have "mset (refs_of (db_tasks e)) = add_mset (rs_id row) (mset (refs_of (db_tasks d)))"
    unfolding tasks by (intro refs_of_update db_ok_distinct [OF ok] tt) simp_all
  then have ref: "mset (result_refs e) = mset (rs_id row # result_refs d)"
    by (simp add: result_refs_def refs_of_def)
  have refs: "distinct (result_refs e)" "set (result_refs e) = rs_id ` set (db_results e)"
    using ok fresh mset_eq_imp_distinct_iff [OF ref] mset_eq_setD [OF ref]
    by (auto simp: db_ok_def refs_ok_def rest)
  have wk: "worker_known e w = worker_known d w" for w
    by (simp add: worker_known_def rest split: option.splits)
  have ev: "row_evolves u (if u = t then ?f t else u)" for u
    using complete_stamp_evolves [OF live] by simp
  have "attempt_ok e a" if at: "attempt_ok d a" for a
  proof -
    obtain u where "u \<in> set (db_tasks d)" "tk_id u = at_task a" "0 \<le> at_number a"
        "at_number a \<le> tk_attempt u"
      using at unfolding attempt_ok_def by blast
    with at show ?thesis
      unfolding attempt_ok_def wk mem
      by (intro conjI bexI [of _ "if u = t then ?f t else u"]) (auto simp: attempt_ok_def)
  qed
  moreover have "worker_known d (tk_worker u) \<and> worker_known d (tk_excluded u)"
    if "u \<in> set (db_tasks e)" for u
    using that ok tt unfolding mem by (auto simp: db_ok_def refs_ok_def complete_stamp_def)
  moreover have "keys_ok e"
    using ok fresh by (simp add: db_ok_def keys_ok_def rest tasks map_update_where)
  moreover have "rows_ok e"
    using ok complete_stamp_ok [OF tok live] unfolding rows_ok_def mem by (auto simp: db_ok_def rows_ok_def)
  ultimately have "db_ok e"
    using ok refs by (auto simp: db_ok_def refs_ok_def wk rest)
  moreover have "evolves d e"
    using ev unfolding evolves_def mem rest by blast
  ultimately show ?thesis by simp
qed

lemma insert_result_Inr:
  "insert_result rid env now d = Inr e \<Longrightarrow>
   \<exists>v n. map_of env ''size_bytes'' = Some v \<and> py_int v = Inr n \<and> rid \<notin> rs_id ` set (db_results d)
     \<and> e = d\<lparr>db_results := db_results d @ [\<lparr>rs_id = rid, rs_payload = env, rs_size_bytes = n,
          rs_submitted_at = now\<rparr>]\<rparr>"
  by (auto simp: insert_result_def bind_exn_def split: option.splits sum.splits if_splits)

lemma walk_completion:
  "walk s (completion_path s) = (if live_status s then Inr COMPLETED
     else walk s [COMPLETED])"
  by (auto simp: completion_path_def live_status_def)

lemma store_result_live:
  "live_status (tk_status t) \<Longrightarrow> store_result rid env t now d =
     bind_exn (insert_result rid env now d) (\<lambda>d'.
        Inr (TRANSITIONED, set_task (tk_id t) (complete_stamp rid now) d'))"
  by (simp add: store_result_def walk_completion)

lemma record_fence_cases:
  assumes "record_fence aid t sub w reason now d = Inr e"
  shows "e = d \<or> (\<exists>n. as_int sub = Some n \<and> 0 \<le> n \<and> n \<le> tk_attempt t \<and> worker_known d (Some w)
     \<and> e = add_attempt (fence_row aid t n w reason now) d)"
  using assms by (auto simp: record_fence_def split: option.splits if_splits)

lemma db_ok_record_fence:
  assumes ok: "db_ok d" and t: "find_task d i = Some t"
    and r: "record_fence aid t sub w reason now d = Inr e"
  shows "db_ok e \<and> evolves d e"
  using record_fence_cases [OF r]
proof (elim disjE exE conjE)
  fix n assume n: "0 \<le> n" "n \<le> tk_attempt t" "worker_known d (Some w)"
    "e = add_attempt (fence_row aid t n w reason now) d"
  have "attempt_ok d (fence_row aid t n w reason now)"
    using n find_task_mem [OF t] by (auto simp: attempt_ok_def fence_row_def)
  with n(4) show ?thesis by (simp add: add_attempt_ok [OF ok])
qed (use ok in simp)

lemma task_status_cases:
  assumes "task_ok t"
  obtains "tk_status t = QUEUED" "tk_worker t = None" | "live_status (tk_status t)"
  | "tk_status t \<in> TERMINAL_STATES"
  using assms by (auto simp: task_ok_def unassigned_def)

text \<open>A live task: the fencing rule decides between storing and refusing.\<close>

lemma complete_locked_live:
  "tk_status t \<notin> TERMINAL_STATES \<Longrightarrow> tk_status t \<in> TASK_STATES \<Longrightarrow>
   complete_locked env w rid aid t now d =
     (if tk_worker t = Some w \<and> equals_int (dict_get env ''attempt_number'') (tk_attempt t)
      then store_result rid env t now d
      else fence_or_refuse aid t (dict_get env ''attempt_number'') w now d)"
  by (auto simp: complete_locked_def is_terminal_known)

lemma complete_locked_terminal:
  "tk_status t \<in> TERMINAL_STATES \<Longrightarrow> complete_locked env w rid aid t now d =
     Inr (terminal_result_outcome d (tk_result t) (dict_get env ''idempotency_token''), d)"
  by (simp add: complete_locked_def is_terminal_known terminal_known)

lemma terminal_outcome_range: "terminal_result_outcome d r tok \<in> {DUPLICATE, SUPERSEDED}"
  by (simp add: terminal_result_outcome_def split: option.splits)

lemma task_ok_known: "task_ok t \<Longrightarrow> tk_status t \<in> TASK_STATES"
  by (auto simp: task_ok_def)

text \<open>Every answer of the transaction, and what it leaves behind.\<close>

lemma complete_locked_cases:
  assumes tok: "task_ok t" and r: "complete_locked env w rid aid t now d = Inr (out, e)"
  obtains (terminal) "tk_status t \<in> TERMINAL_STATES" "out \<in> {DUPLICATE, SUPERSEDED}" "e = d"
  | (stored) d' where "live_status (tk_status t)" "tk_worker t = Some w"
      "equals_int (dict_get env ''attempt_number'') (tk_attempt t)" "out = TRANSITIONED"
      "insert_result rid env now d = Inr d'" "e = set_task (tk_id t) (complete_stamp rid now) d'"
  | (refused) "tk_status t \<notin> TERMINAL_STATES" "out = NOT_OWNER" "e = d"
      "\<not> ever_held d (tk_id t) w (tk_worker t)"
  | (fenced) reason where "tk_status t \<notin> TERMINAL_STATES" "out = FENCED"
      "record_fence aid t (dict_get env ''attempt_number'') w reason now d = Inr e"
      "ever_held d (tk_id t) w (tk_worker t)"
      "tk_worker t \<noteq> Some w \<or> \<not> equals_int (dict_get env ''attempt_number'') (tk_attempt t)"
proof (cases "tk_status t \<in> TERMINAL_STATES")
  case True
  then show ?thesis
    using that(1) r terminal_outcome_range by (auto simp: complete_locked_terminal)
next
  case False
  note split = complete_locked_live [OF False task_ok_known [OF tok]]
  show ?thesis
  proof (cases "tk_worker t = Some w \<and> equals_int (dict_get env ''attempt_number'') (tk_attempt t)")
    case True
    have live: "live_status (tk_status t)"
      by (rule task_status_cases [OF tok]) (use True False in auto)
    from True r split live obtain d' where "out = TRANSITIONED" "insert_result rid env now d = Inr d'"
        "e = set_task (tk_id t) (complete_stamp rid now) d'"
      by (auto simp: store_result_live [OF live] bind_exn_def split: sum.splits)
    with True live show ?thesis by (intro that(2)) auto
  next
    case stale: False
    then have f: "fence_or_refuse aid t (dict_get env ''attempt_number'') w now d = Inr (out, e)"
      using r stale unfolding split by (simp only: if_False)
    show ?thesis
    proof (cases "ever_held d (tk_id t) w (tk_worker t)")
      case True
      from f True have "out = FENCED \<and> (\<exists>reason. record_fence aid t (dict_get env ''attempt_number'') w reason now d = Inr e)"
        by (auto simp: fence_or_refuse_def bind_exn_def split: sum.splits if_splits)
      with True stale False show ?thesis using that(4) by blast
    next
      case False
      with f have "out = NOT_OWNER \<and> e = d" by (simp add: fence_or_refuse_def)
      with False \<open>tk_status t \<notin> TERMINAL_STATES\<close> show ?thesis using that(3) by blast
    qed
  qed
qed

lemma complete_task_found:
  assumes "complete_task rp env w rid aid now d = Inr (out, e)"
  obtains "out = NOT_FOUND" "e = d"
  | i t v where "map_of env ''task_id'' = Some v" "parse_uuid (py_str rp v) = Some i"
      "find_task d i = Some t" "complete_locked env w rid aid t now d = Inr (out, e)"
proof (cases "map_of env ''task_id''")
  case None
  with assms show ?thesis by (simp add: complete_task_def)
next
  case v: (Some v)
  show ?thesis
  proof (cases "parse_uuid (py_str rp v)")
    case None
    with assms v that(1) show ?thesis by (simp add: complete_task_def)
  next
    case (Some i)
    with assms v that show ?thesis by (cases "find_task d i") (auto simp: complete_task_def)
  qed
qed

lemma db_ok_complete:
  assumes ok: "db_ok d" and c: "complete_task rp env w rid aid now d = Inr (out, e)"
  shows "db_ok e \<and> evolves d e"
  using c
proof (cases rule: complete_task_found)
  case (2 i t v)
  have tok: "task_ok t" by (rule db_ok_find [OF ok 2(3)])
  show ?thesis
    using tok 2(4)
  proof (cases rule: complete_locked_cases)
    case (stored d')
    obtain n where fresh: "rid \<notin> rs_id ` set (db_results d)"
      and d': "d' = d\<lparr>db_results := db_results d @ [\<lparr>rs_id = rid, rs_payload = env,
          rs_size_bytes = n, rs_submitted_at = now\<rparr>]\<rparr>"
      using insert_result_Inr [OF stored(5)] by blast
    show ?thesis
      by (rule db_ok_store [OF ok 2(3) stored(1), where row = "\<lparr>rs_id = rid, rs_payload = env,
          rs_size_bytes = n, rs_submitted_at = now\<rparr>" and now = now])
        (simp_all add: fresh stored(6) d')
  next
    case (fenced reason)
    then show ?thesis by (intro db_ok_record_fence [OF ok 2(3)])
  qed (use ok in auto)
qed (use ok in simp)

interpretation complete_stmt: db_statement
  "\<lambda>a d. committed ((\<lambda>(rp, env, w, rid, aid, now). complete_task rp env w rid aid now) a d) d"
  "\<lambda>_ _. True"
  by (rule db_statement_committed) (auto dest: db_ok_complete)

end
