(* ===== verification/Workers.thy ===== *)
theory Workers
  imports Models
begin

text \<open>
  The writes of \<open>coordinator/app/main.py\<close> to the worker table: enrolment,
  reaffirmation, revocation and \<open>_transition_status\<close>, the single write path of
  \<open>workers.status\<close> whose guard makes QUARANTINED sticky.
\<close>

definition REGISTERED :: string where "REGISTERED = ''REGISTERED''"
definition CONNECTING :: string where "CONNECTING = ''CONNECTING''"
definition ONLINE :: string where "ONLINE = ''ONLINE''"
definition SUSPECT :: string where "SUSPECT = ''SUSPECT''"
definition OFFLINE :: string where "OFFLINE = ''OFFLINE''"
definition QUARANTINED :: string where "QUARANTINED = ''QUARANTINED''"

lemmas worker_state_defs = REGISTERED_def CONNECTING_def ONLINE_def SUSPECT_def OFFLINE_def
  QUARANTINED_def

definition set_worker :: "uuid \<Rightarrow> (worker_row \<Rightarrow> worker_row) \<Rightarrow> db \<Rightarrow> db" where
  "set_worker i f d = d\<lparr>db_workers := update_where (\<lambda>w. wk_id w = i) f (db_workers d)\<rparr>"

text \<open>The row \<open>register_worker\<close> adds; the identifier is the column default \<open>uuid4()\<close>.\<close>

definition enrolled_row :: "uuid \<Rightarrow> string \<Rightarrow> string option \<Rightarrow> string \<Rightarrow> time \<Rightarrow> worker_row" where
  "enrolled_row i credential_hash agent_version source_ip now =
     \<lparr>wk_id = i, wk_credential_hash = Some credential_hash,
      wk_metadata = Some [(''source_ip'', PStr source_ip)],
      wk_agent_version = agent_version, wk_status = REGISTERED, wk_revoked = False,
      wk_created_at = now, wk_updated_at = now\<rparr>"

definition enroll :: "uuid \<Rightarrow> string \<Rightarrow> string option \<Rightarrow> string \<Rightarrow> time \<Rightarrow> db \<Rightarrow> exn + uuid \<times> db" where
  "enroll i credential_hash agent_version source_ip now d =
     (if i \<in> wk_id ` set (db_workers d) then Inl DatabaseError
      else Inr (i, d\<lparr>db_workers := db_workers d
             @ [enrolled_row i credential_hash agent_version source_ip now]\<rparr>))"

definition reaffirm_version :: "uuid \<Rightarrow> string option \<Rightarrow> time \<Rightarrow> db \<Rightarrow> db" where
  "reaffirm_version i agent_version now =
     set_worker i (\<lambda>w. w\<lparr>wk_agent_version := agent_version, wk_updated_at := now\<rparr>)"

text \<open>
  \<open>_transition_status\<close> reads the row without a lock, decides, and then writes the
  status column alone; \<open>transition_status\<close> is the two halves with nothing in between.
\<close>

definition wants_transition :: "db \<Rightarrow> uuid \<Rightarrow> string \<Rightarrow> bool" where
  "wants_transition d i new_status = (case find_worker d i of
      None \<Rightarrow> False
    | Some w \<Rightarrow>
        if wk_status w = new_status then False
        else if wk_status w = QUARANTINED then False
        else True)"

definition write_status :: "uuid \<Rightarrow> string \<Rightarrow> time \<Rightarrow> db \<Rightarrow> db" where
  "write_status i new_status now =
     set_worker i (\<lambda>w. w\<lparr>wk_status := new_status, wk_updated_at := now\<rparr>)"

definition transition_status :: "uuid \<Rightarrow> string \<Rightarrow> time \<Rightarrow> db \<Rightarrow> db" where
  "transition_status i new_status now d =
     (if wants_transition d i new_status then write_status i new_status now d else d)"

definition revoke_row :: "uuid \<Rightarrow> time \<Rightarrow> db \<Rightarrow> db" where
  "revoke_row i now =
     set_worker i (\<lambda>w. w\<lparr>wk_revoked := True, wk_status := QUARANTINED, wk_updated_at := now\<rparr>)"

subsection \<open>Reading a row back\<close>

lemma find_worker_set:
  "(\<And>w. wk_id (f w) = wk_id w) \<Longrightarrow>
   find_worker (set_worker i f d) j = (if j = i then map_option f (find_worker d j) else find_worker d j)"
proof -
  assume f: "\<And>w. wk_id (f w) = wk_id w"
  have "map_option (\<lambda>w. if wk_id w = i then f w else w) (find_worker d j) =
      (if j = i then map_option f (find_worker d j) else find_worker d j)"
    by (cases "find_worker d j") (auto simp: find_worker_def dest: find_key)
  with f show ?thesis by (simp add: find_worker_def set_worker_def find_update_where)
qed

lemma set_worker_frame [simp, db_simps]:
  "db_tasks (set_worker i f d) = db_tasks d" "db_results (set_worker i f d) = db_results d"
  "db_attempts (set_worker i f d) = db_attempts d" "db_policies (set_worker i f d) = db_policies d"
  by (simp_all add: set_worker_def)

lemma db_ok_more_workers:
  assumes ok: "db_ok d" and ids: "distinct (map wk_id ws)"
    and more: "wk_id ` set (db_workers d) \<subseteq> wk_id ` set ws"
  shows "db_ok (d\<lparr>db_workers := ws\<rparr>)"
proof -
  have wk: "worker_known d w \<Longrightarrow> worker_known (d\<lparr>db_workers := ws\<rparr>) w" for w
    using more by (auto simp: worker_known_def split: option.splits)
  then have "attempt_ok d a \<Longrightarrow> attempt_ok (d\<lparr>db_workers := ws\<rparr>) a" for a
    by (auto simp: attempt_ok_def)
  with ok ids wk show ?thesis
    by (simp add: db_ok_def keys_ok_def refs_ok_def rows_ok_def result_refs_def)
qed

lemma db_ok_set_worker:
  assumes ok: "db_ok d" and f: "\<And>w. wk_id (f w) = wk_id w"
  shows "db_ok (set_worker i f d) \<and> evolves d (set_worker i f d)"
proof -
  have m: "map wk_id (update_where (\<lambda>w. wk_id w = i) f (db_workers d)) = map wk_id (db_workers d)"
    using f by (simp add: map_update_where)
  have "db_ok (set_worker i f d)"
    unfolding set_worker_def
  proof (rule db_ok_more_workers [OF ok])
    show "distinct (map wk_id (update_where (\<lambda>w. wk_id w = i) f (db_workers d)))"
      using ok m by (simp add: db_ok_def keys_ok_def)
    show "wk_id ` set (db_workers d) \<subseteq> wk_id ` set (update_where (\<lambda>w. wk_id w = i) f (db_workers d))"
      using m by (metis list.set_map order_refl)
  qed
  then show ?thesis by (simp add: set_worker_def)
qed

lemma db_ok_enroll:
  assumes ok: "db_ok d" and e: "enroll i h v ip now d = Inr (j, d')"
  shows "db_ok d' \<and> evolves d d'"
proof -
  have d': "d' = d\<lparr>db_workers := db_workers d @ [enrolled_row i h v ip now]\<rparr>"
      and "i \<notin> wk_id ` set (db_workers d)"
    using e by (auto simp: enroll_def split: if_splits)
  then have "db_ok d'"
    using ok unfolding d' by (intro db_ok_more_workers) (auto simp: db_ok_def keys_ok_def enrolled_row_def)
  then show ?thesis by (simp add: d')
qed

lemma db_ok_transition: "db_ok d \<Longrightarrow> db_ok (transition_status i s now d) \<and> evolves d (transition_status i s now d)"
  using db_ok_set_worker by (auto simp: transition_status_def write_status_def)

lemma db_ok_revoke: "db_ok d \<Longrightarrow> db_ok (revoke_row i now d) \<and> evolves d (revoke_row i now d)"
  using db_ok_set_worker by (auto simp: revoke_row_def)

lemma db_ok_reaffirm: "db_ok d \<Longrightarrow> db_ok (reaffirm_version i v now d) \<and> evolves d (reaffirm_version i v now d)"
  using db_ok_set_worker by (auto simp: reaffirm_version_def)

interpretation enroll_stmt: db_statement
  "\<lambda>a d. committed ((\<lambda>(i, h, v, ip, now). enroll i h v ip now) a d) d" "\<lambda>_ _. True"
  by (rule db_statement_committed) (auto dest: db_ok_enroll)

interpretation worker_status_stmt: db_statement
  "\<lambda>(i, s, now). transition_status i s now" "\<lambda>_ _. True"
  by unfold_locales (auto dest: db_ok_transition)

interpretation revoke_stmt: db_statement "\<lambda>(i, now). revoke_row i now" "\<lambda>_ _. True"
  by unfold_locales (auto dest: db_ok_revoke)

interpretation reaffirm_stmt: db_statement "\<lambda>(i, v, now). reaffirm_version i v now" "\<lambda>_ _. True"
  by unfold_locales (auto dest: db_ok_reaffirm)

subsection \<open>Revocation is sticky\<close>

definition quarantined :: "db \<Rightarrow> uuid \<Rightarrow> bool" where
  "quarantined d i \<longleftrightarrow> (\<exists>w. find_worker d i = Some w \<and> wk_revoked w \<and> wk_status w = QUARANTINED)"

lemma revoke_quarantines: "find_worker d i = Some w \<Longrightarrow> quarantined (revoke_row i now d) i"
  by (simp add: quarantined_def revoke_row_def find_worker_set)

lemma transition_keeps_quarantine: "quarantined d i \<Longrightarrow> quarantined (transition_status j s now d) i"
  by (auto simp: quarantined_def transition_status_def wants_transition_def write_status_def
      find_worker_set split: if_splits)

lemma revoke_keeps_quarantine: "quarantined d i \<Longrightarrow> quarantined (revoke_row j now d) i"
  by (auto simp: quarantined_def revoke_row_def find_worker_set)

lemma reaffirm_keeps_quarantine: "quarantined d i \<Longrightarrow> quarantined (reaffirm_version j v now d) i"
  by (auto simp: quarantined_def reaffirm_version_def find_worker_set)

lemma enroll_keeps_quarantine:
  "quarantined d i \<Longrightarrow> enroll j h v ip now d = Inr (k, d') \<Longrightarrow> quarantined d' i"
  by (auto simp: quarantined_def enroll_def find_worker_def find_snoc split: if_splits)

end
