(* ===== verification/Reachable.thy ===== *)
theory Reachable
  imports Completion Workers
begin

text \<open>
  The transition system of the database: any replica may run any statement at any
  moment, each in its own transaction, with any arguments its callers can supply (an
  operator's policy has passed \<open>validate_policy\<close>). The
  steps are the statements of the previous theories; by their contract the row
  invariant holds in every reachable database and every row only evolves.
\<close>

inductive step :: "settings \<Rightarrow> db \<Rightarrow> db \<Rightarrow> bool" for c :: settings where
  enqueue_step: "enqueue co i ty corr params payload priority now d = Inr (j, e) \<Longrightarrow> step c d e"
| batch_step: "enqueue_batch co ids ty corr cnt mx params payload priority now d = Inr (js, e) \<Longrightarrow>
    step c d e"
| dequeue_step: "dequeue c w limit mx types locked now d = Inr (rows, e) \<Longrightarrow> step c d e"
| started_step: "mark_status c task_id w RUNNING now d = Inr (out, e) \<Longrightarrow> step c d e"
| failed_step: "mark_status c task_id w FAILED now d = Inr (out, e) \<Longrightarrow> step c d e"
| failure_step: "record_execution_failure task_id w err corr i now d = Inr (u, e) \<Longrightarrow> step c d e"
| complete_step: "complete_task rp env w rid aid now d = Inr (out, e) \<Longrightarrow> step c d e"
| cancel_step: "cancel_queued_task task_id now d = Inr (r, e) \<Longrightarrow> step c d e"
| renew_step: "renew_lease c task_id w now d = (b, e) \<Longrightarrow> step c d e"
| renew_worker_step: "renew_worker_leases c w now d = (ids, e) \<Longrightarrow> step c d e"
| shorten_step: "shorten_worker_leases w grace now d = (n, e) \<Longrightarrow> step c d e"
| reclaim_step: "reclaim_expired_leases c batch locked rnd ids now d = Inr (rows, e) \<Longrightarrow> step c d e"
| purge_step: "purge_expired_results days now d = (k, e) \<Longrightarrow> step c d e"
| set_policy_step: "distinct (map fst body) \<Longrightarrow> validate_policy body = Inr values \<Longrightarrow>
    set_policy ty values now d = Inr e \<Longrightarrow> step c d e"
| clear_policy_step: "clear_policy ty d = Inr (b, e) \<Longrightarrow> step c d e"
| enroll_step: "enroll i h v ip now d = Inr (j, e) \<Longrightarrow> step c d e"
| worker_status_step: "step c d (write_status i s now d)"
| revoke_step: "step c d (revoke_row i now d)"
| reaffirm_step: "step c d (reaffirm_version i v now d)"

inductive_cases stepE: "step c d e"

lemma write_status_ok: "db_ok d \<Longrightarrow> db_ok (write_status i s now d) \<and> evolves d (write_status i s now d)"
  using db_ok_set_worker by (auto simp: write_status_def)

lemma step_ok:
  assumes "step c d e" and ok: "db_ok d"
  shows "db_ok e \<and> evolves d e"
  using assms(1)
proof cases
  case (renew_step task_id w now b)
  with db_ok_renew_lease [OF ok, of c task_id w now] show ?thesis by simp
next
  case (renew_worker_step w now ids)
  with db_ok_renew_worker [OF ok, of c w now] show ?thesis by simp
next
  case (shorten_step w grace now n)
  with db_ok_shorten [OF ok, of w grace now] show ?thesis by simp
next
  case (set_policy_step body vs ty now)
  then show ?thesis
    using ok by (auto simp: set_policy_def db_ok_upsert_policy policy_evolves split: if_splits)
next
  case (clear_policy_step ty b)
  then show ?thesis
    using ok by (auto simp: clear_policy_def db_ok_delete_policy policy_evolves split: if_splits)
qed (use ok in \<open>auto dest: db_ok_enqueue db_ok_enqueue_batch db_ok_dequeue db_ok_mark_status
      db_ok_record_failure db_ok_complete db_ok_cancel db_ok_reclaim db_ok_purge db_ok_enroll
      simp: write_status_ok db_ok_revoke db_ok_reaffirm\<close>)

definition reachable :: "settings \<Rightarrow> db \<Rightarrow> bool" where
  "reachable c d \<longleftrightarrow> (step c)\<^sup>*\<^sup>* empty_db d"

lemma steps_ok:
  "(step c)\<^sup>*\<^sup>* d e \<Longrightarrow> db_ok d \<Longrightarrow> db_ok e \<and> evolves d e"
proof (induction rule: rtranclp_induct)
  case (step e f)
  then show ?case using step_ok evolves_trans by blast
qed simp

lemma reachable_ok: "reachable c d \<Longrightarrow> db_ok d"
  unfolding reachable_def using steps_ok [OF _ db_ok_empty] by blast

lemma reachable_empty: "reachable c empty_db"
  by (simp add: reachable_def)

lemma reachable_step: "reachable c d \<Longrightarrow> step c d e \<Longrightarrow> reachable c e"
  unfolding reachable_def by (rule rtranclp.rtrancl_into_rtrancl)

lemma reachable_steps: "reachable c d \<Longrightarrow> (step c)\<^sup>*\<^sup>* d e \<Longrightarrow> reachable c e"
  unfolding reachable_def by (rule rtranclp_trans)

lemma steps_find:
  assumes "reachable c d" "(step c)\<^sup>*\<^sup>* d e" "find_task d i = Some t"
  obtains u where "find_task e i = Some u" "row_evolves t u"
  using evolves_find [OF _ _ assms(3)] steps_ok [OF assms(2) reachable_ok [OF assms(1)]] by blast

text \<open>
  The whole system is one more provider of the statement contract: a sequence of
  steps taken as a single operation.
\<close>

interpretation system: db_statement
  "\<lambda>e d. if (step c)\<^sup>*\<^sup>* d e then e else d" "\<lambda>_ _. True" for c
  by unfold_locales (auto dest: steps_ok)

end
