(* ===== verification/Examples.thy ===== *)
theory Examples
  imports Reachable
begin

text \<open>
  Small concrete databases: two workers, a queue of two tasks, and the same queue at
  the later moments the properties are about. They show that the hypotheses of the
  properties can hold.
\<close>

definition ex_worker :: "uuid \<Rightarrow> worker_row" where
  "ex_worker i = \<lparr>wk_id = i, wk_credential_hash = Some ''hash'', wk_metadata = None,
     wk_agent_version = None, wk_status = ONLINE, wk_revoked = False, wk_created_at = 0,
     wk_updated_at = 0\<rparr>"

definition ex_task :: "uuid \<Rightarrow> int \<Rightarrow> task_row" where
  "ex_task i priority = \<lparr>tk_id = i, tk_type = ''sleep'', tk_payload = None,
     tk_parameters = [(''seconds'', PFloat (Fin 1))], tk_priority = priority, tk_status = QUEUED,
     tk_worker = None, tk_assigned_at = None, tk_started_at = None, tk_lease = None,
     tk_deadline = None, tk_attempt = 0, tk_excluded = None, tk_not_before = None,
     tk_result = None, tk_completed_at = None, tk_correlation = ''corr'', tk_created_at = 0,
     tk_updated_at = 0\<rparr>"

definition ex_db :: "task_row list \<Rightarrow> db" where
  "ex_db ts = \<lparr>db_workers = [ex_worker 1, ex_worker 2], db_tasks = ts, db_results = [],
     db_attempts = [], db_policies = []\<rparr>"

definition ex_queue :: db where
  "ex_queue = ex_db [ex_task 10 5, ex_task 11 1]"

text \<open>Task 10 runs on worker 1, in its second attempt, and its lease ends at 100.\<close>

definition ex_running_task :: task_row where
  "ex_running_task = (ex_task 10 5)\<lparr>tk_status := RUNNING, tk_worker := Some 1,
     tk_assigned_at := Some 40, tk_started_at := Some 41, tk_lease := Some 100,
     tk_deadline := Some 120, tk_attempt := 1\<rparr>"

definition ex_running :: db where
  "ex_running = ex_db [ex_running_task, ex_task 11 1]"

lemmas ex_defs = ex_queue_def ex_running_def ex_running_task_def ex_db_def ex_task_def ex_worker_def

lemma ex_task_sel [simp]: "tk_id (ex_task i p) = i" "tk_status (ex_task i p) = QUEUED"
  "tk_result (ex_task i p) = None" "tk_worker (ex_task i p) = None" "tk_excluded (ex_task i p) = None"
  "tk_priority (ex_task i p) = p" "tk_created_at (ex_task i p) = 0" "tk_attempt (ex_task i p) = 0"
  "tk_not_before (ex_task i p) = None" "tk_type (ex_task i p) = ''sleep''"
  "tk_lease (ex_task i p) = None"
  by (simp_all add: ex_task_def)

lemma ex_running_sel [simp]: "tk_id ex_running_task = 10" "tk_status ex_running_task = RUNNING"
  "tk_result ex_running_task = None" "tk_worker ex_running_task = Some 1"
  "tk_attempt ex_running_task = 1" "tk_lease ex_running_task = Some 100"
  "tk_deadline ex_running_task = Some 120" "tk_excluded ex_running_task = None"
  "tk_type ex_running_task = ''sleep''"
  by (simp_all add: ex_running_task_def ex_task_def)

lemma ex_db_sel [simp]: "db_tasks (ex_db ts) = ts" "db_results (ex_db ts) = []"
  "db_attempts (ex_db ts) = []" "db_policies (ex_db ts) = []"
  "worker_known (ex_db ts) (Some 1)" "worker_known (ex_db ts) (Some 2)"
  by (simp_all add: ex_db_def worker_known_def ex_worker_def)

lemma ex_tasks [simp]: "db_tasks ex_queue = [ex_task 10 5, ex_task 11 1]"
  "db_tasks ex_running = [ex_running_task, ex_task 11 1]"
  by (simp_all add: ex_queue_def ex_running_def)

lemma ex_task_ok: "task_ok (ex_task i p)" "task_ok ex_running_task"
  by (simp_all add: task_ok_def ex_task_def ex_running_task_def unassigned_def leased_def)

lemma ex_db_ok:
  assumes "distinct (map tk_id ts)" "\<forall>t \<in> set ts. task_ok t \<and> tk_result t = None
     \<and> tk_worker t \<in> {None, Some 1, Some 2} \<and> tk_excluded t \<in> {None, Some 1, Some 2}"
  shows "db_ok (ex_db ts)"
proof -
  have "worker_known (ex_db ts) x" if "x \<in> {None, Some 1, Some 2}" for x
    using that by auto
  moreover have "result_refs (ex_db ts) = []"
    using assms(2) by (simp add: result_refs_def)
  ultimately show ?thesis
    using assms by (auto simp: db_ok_def keys_ok_def refs_ok_def rows_ok_def)
      (auto simp: ex_db_def ex_worker_def)
qed

lemma ex_queue_ok: "db_ok ex_queue"
  unfolding ex_queue_def by (rule ex_db_ok) (simp_all add: ex_task_ok)

lemma ex_running_ok: "db_ok ex_running"
  unfolding ex_running_def by (rule ex_db_ok) (simp_all add: ex_task_ok)

end
