(* ===== verification/QueueProperties.thy ===== *)
theory QueueProperties
  imports Examples
begin

text \<open>
  What the queue promises: which rows a claim takes and in what order, how an
  exclusion ends, how a claim and a cancellation exclude each other, what a bulk
  enqueue adds, that paging loses nothing, and what the counters and the retention
  sweep say.
\<close>

subsection \<open>Claiming\<close>

lemma dequeue_ids:
  assumes "dequeue c w limit mx types locked now d = Inr (rows, e)"
  shows "tk_id ` set rows = tk_id ` set (claim_list c w limit types locked now d)"
  unfolding dequeue_Inr(1) [OF assms] by (simp add: image_image)

lemma dequeue_find:
  assumes ok: "db_ok d" and dq: "dequeue c w limit mx types locked now d = Inr (rows, e)"
    and t: "t \<in> set (db_tasks d)"
  shows "find_task e (tk_id t) =
    Some (if tk_id t \<in> tk_id ` set rows then claim_stamp c d w now t else t)"
proof -
  show ?thesis
    using find_task_unique [OF db_ok_distinct [OF ok] t] dequeue_ids [OF dq]
    unfolding dequeue_Inr(2) [OF dq] by (simp add: find_task_map_tasks)
qed

lemma claimable_conditions:
  assumes "claimable c w types locked now t"
  shows "tk_status t = QUEUED \<and> tk_id t \<notin> locked \<and> (\<forall>b. tk_not_before t = Some b \<longrightarrow> b \<le> now)
    \<and> (tk_excluded t = Some w \<longrightarrow> (\<exists>b. tk_not_before t = Some b \<and> b + secs (cf_exclusion c) \<le> now))"
  using assms by (cases "tk_not_before t") (auto simp: claimable_def eligible_def split: option.splits)

text \<open>
  C4: A dequeue hands out rows that were claimable (queued, of a wanted type, past
  their backoff, not excluded for this worker, not locked by another transaction), as
  many as the limit and the queue allow, each once: a retried task only after its backoff,
  and to the worker that lost it only after the exclusion as well; in the database exactly those
  rows become ASSIGNED to the worker with the acknowledgement lease and the execution
  deadline of their type, and every other task is as it was.
\<close>

theorem dequeue_exact:
  assumes "db_ok d" and "dequeue c w limit mx types locked now d = Inr (rows, e)"
  shows "length rows = min (nat limit) (length (filter (claimable c w types locked now) (db_tasks d)))
    \<and> distinct (map tk_id rows)
    \<and> (\<forall>r \<in> set rows. \<exists>t \<in> set (db_tasks d). claimable c w types locked now t
         \<and> tk_status t = QUEUED \<and> tk_id t \<notin> locked \<and> (\<forall>b. tk_not_before t = Some b \<longrightarrow> b \<le> now)
         \<and> (tk_excluded t = Some w \<longrightarrow> (\<exists>b. tk_not_before t = Some b \<and> b + secs (cf_exclusion c) \<le> now))
         \<and> r = t\<lparr>tk_status := ASSIGNED, tk_worker := Some w, tk_assigned_at := Some now,
             tk_lease := Some (now + of_int (ack_seconds c d (tk_type t))),
             tk_deadline := Some (now + of_int (max_execution_seconds c d (tk_type t))),
             tk_updated_at := now\<rparr>
         \<and> find_task e (tk_id t) = Some r)
    \<and> (\<forall>t \<in> set (db_tasks d). tk_id t \<notin> tk_id ` set rows \<longrightarrow> find_task e (tk_id t) = Some t)"
proof (intro conjI ballI)
  note rows = dequeue_Inr(1) [OF assms(2)]
  show "length rows = min (nat limit) (length (filter (claimable c w types locked now) (db_tasks d)))"
    by (simp add: rows claim_list_length)
  show "distinct (map tk_id rows)"
    using claim_list_distinct [OF assms(1)] by (simp add: rows comp_def)
  show "\<exists>t \<in> set (db_tasks d). claimable c w types locked now t
         \<and> tk_status t = QUEUED \<and> tk_id t \<notin> locked \<and> (\<forall>b. tk_not_before t = Some b \<longrightarrow> b \<le> now)
         \<and> (tk_excluded t = Some w \<longrightarrow> (\<exists>b. tk_not_before t = Some b \<and> b + secs (cf_exclusion c) \<le> now))
         \<and> r = t\<lparr>tk_status := ASSIGNED, tk_worker := Some w, tk_assigned_at := Some now,
             tk_lease := Some (now + of_int (ack_seconds c d (tk_type t))),
             tk_deadline := Some (now + of_int (max_execution_seconds c d (tk_type t))),
             tk_updated_at := now\<rparr>
         \<and> find_task e (tk_id t) = Some r" if r: "r \<in> set rows" for r
  proof -
    obtain t where t: "t \<in> set (claim_list c w limit types locked now d)" "r = claim_stamp c d w now t"
      using r by (auto simp: rows)
    moreover have "tk_id t \<in> tk_id ` set rows" using t(1) by (simp add: dequeue_ids [OF assms(2)])
    ultimately show ?thesis
      using claim_list_mem [OF t(1)] dequeue_find [OF assms, of t] claimable_conditions [of c w types locked now t]
      by (intro bexI [of _ t]) (simp_all add: claim_stamp_def secs_def [symmetric])
  qed
  show "tk_id t \<notin> tk_id ` set rows \<longrightarrow> find_task e (tk_id t) = Some t" if "t \<in> set (db_tasks d)" for t
    using dequeue_find [OF assms that] by simp
qed

lemma ex_claim: "dequeue default_settings 2 1 100 None {} 50 ex_queue =
    Inr ([claim_stamp default_settings ex_queue 2 50 (ex_task 11 1)],
      map_tasks (\<lambda>t. tk_id t \<in> {11}) (claim_stamp default_settings ex_queue 2 50) ex_queue)"
proof -
  have "claim_list default_settings 2 1 None {} 50 ex_queue = [ex_task 11 1]"
    by (simp add: claim_list_def claimable_def eligible_def queue_key_def less_eq_prod_def)
  moreover have "worker_known ex_queue (Some 2)" by (simp add: ex_queue_def)
  ultimately show ?thesis
    by (simp add: dequeue_def Let_def)
qed

theorem dequeue_exact_witness:
  "length [claim_stamp default_settings ex_queue 2 50 (ex_task 11 1)] =
     min (nat 1) (length (filter (claimable default_settings 2 None {} 50) (db_tasks ex_queue)))"
  using dequeue_exact [OF ex_queue_ok ex_claim] by blast

text \<open>
  A single dequeuer is served in strict order: the rows come out sorted by
  priority and then age, and no claimable row that stays behind comes before a row
  that was handed out.
\<close>

theorem dequeue_order:
  assumes "db_ok d" and "dequeue c w limit mx types locked now d = Inr (rows, e)"
  shows "sorted (map queue_key rows)
    \<and> (\<forall>r \<in> set rows. \<forall>u \<in> set (db_tasks d). claimable c w types locked now u
         \<and> tk_id u \<notin> tk_id ` set rows \<longrightarrow> queue_key r \<le> queue_key u)"
proof -
  note rows = dequeue_Inr(1) [OF assms(2)]
  have key: "queue_key (claim_stamp c d w now t) = queue_key t" for t
    by (simp add: queue_key_def claim_stamp_def)
  have "map queue_key rows = map queue_key (claim_list c w limit types locked now d)"
    by (simp add: rows key comp_def)
  moreover have "queue_key r \<le> queue_key u"
    if r: "r \<in> set rows" and u: "u \<in> set (db_tasks d)" "claimable c w types locked now u"
      and new: "tk_id u \<notin> tk_id ` set rows" for r u
  proof -
    obtain t where t: "t \<in> set (claim_list c w limit types locked now d)" "r = claim_stamp c d w now t"
      using r by (auto simp: rows)
    have "u \<notin> set (claim_list c w limit types locked now d)"
      using new by (auto simp: dequeue_ids [OF assms(2)])
    then show ?thesis
      using claim_list_least [OF t(1) u] by (simp add: t(2) key)
  qed
  ultimately show ?thesis using claim_list_sorted by auto
qed

theorem dequeue_order_witness:
  "sorted (map queue_key [claim_stamp default_settings ex_queue 2 50 (ex_task 11 1)])"
  using dequeue_order [OF ex_queue_ok ex_claim] by blast

text \<open>
  The exclusion of the worker that lost a task is temporary: for every queued
  task there is a moment from which any worker that runs its type may claim it, so no
  task starves on a fleet of one worker.
\<close>

theorem exclusion_expires:
  assumes "task_ok t" and "tk_status t = QUEUED"
  shows "\<exists>since. \<forall>now \<ge> since. \<forall>w. claimable c w None {} now t"
proof (cases "tk_not_before t")
  case None
  then have "tk_excluded t = None" using assms(1) by (auto simp: task_ok_def)
  with None assms(2) show ?thesis by (auto simp: claimable_def eligible_def)
next
  case (Some b)
  then have "\<forall>now \<ge> max b (b + secs (cf_exclusion c)). \<forall>w. claimable c w None {} now t"
    using assms(2) by (auto simp: claimable_def eligible_def)
  then show ?thesis by blast
qed

theorem exclusion_expires_witness:
  "\<exists>since. \<forall>now \<ge> since. \<forall>w. claimable default_settings w None {} now
     ((ex_task 10 5)\<lparr>tk_not_before := Some 70, tk_excluded := Some 1\<rparr>)"
  by (rule exclusion_expires) (simp_all add: task_ok_def ex_task_def unassigned_def)

subsection \<open>Cancelling\<close>

text \<open>
  Cancelling a task that is still queued takes it out of every later claim,
  and cancelling a task that a dequeue has handed out is refused with its current
  status and changes nothing: whichever transaction comes first wins.
\<close>

theorem cancel_against_dequeue:
  assumes "db_ok d" and "find_task d i = Some t" "tk_status t = QUEUED"
  shows "\<exists>e. cancel_queued_task (uuid_str i) now d = Inr ((TRANSITIONED, Some QUEUED), e)
      \<and> map_option tk_status (find_task e i) = Some CANCELLED
      \<and> (\<forall>c w limit mx types locked now' rows f.
           dequeue c w limit mx types locked now' e = Inr (rows, f) \<longrightarrow> i \<notin> tk_id ` set rows)
    \<and> (\<forall>c w limit mx types locked now' rows f.
         dequeue c w limit mx types locked now' d = Inr (rows, f) \<and> i \<in> tk_id ` set rows \<longrightarrow>
         cancel_queued_task (uuid_str i) now f = Inr ((NOT_CANCELLABLE, Some ASSIGNED), f))"
proof -
  let ?e = "set_task i (cancel_stamp now) d"
  have c: "cancel_queued_task (uuid_str i) now d = Inr ((TRANSITIONED, Some QUEUED), ?e)"
    using cancel_found [OF parse_uuid_str assms(2)] assms(3) by simp
  have e: "find_task ?e i = Some (cancel_stamp now t)" "db_ok ?e"
    using assms(2) db_ok_cancel [OF assms(1) c] by (simp_all add: find_task_set_task cancel_stamp_def)
  have "i \<notin> tk_id ` set rows" if dq: "dequeue c w limit mx types locked now' ?e = Inr (rows, f)"
    for c w limit mx types locked now' rows f
  proof
    assume "i \<in> tk_id ` set rows"
    with dequeue_ids [OF dq] obtain u where u: "u \<in> set (claim_list c w limit types locked now' ?e)" "tk_id u = i"
      by auto
    then have "find_task ?e i = Some u" "tk_status u = QUEUED"
      using claim_list_mem [OF u(1)] find_task_unique [OF db_ok_distinct [OF e(2)]]
      by (auto simp: claimable_def)
    with e(1) show False by (simp add: cancel_stamp_def)
  qed
  moreover have "cancel_queued_task (uuid_str i) now f = Inr ((NOT_CANCELLABLE, Some ASSIGNED), f)"
    if "dequeue c w limit mx types locked now' d = Inr (rows, f)" "i \<in> tk_id ` set rows"
    for c w limit mx types locked now' rows f
    using dequeue_find [OF assms(1) that(1), of t] that(2) find_task_mem [OF assms(2)]
    by (simp add: cancel_found [OF parse_uuid_str] claim_stamp_def)
  moreover have "map_option tk_status (find_task ?e i) = Some CANCELLED"
    using e(1) by (simp add: cancel_stamp_def)
  ultimately show ?thesis using c by blast
qed

theorem cancel_against_dequeue_witness:
  "\<exists>e. cancel_queued_task (uuid_str 10) 60 ex_queue = Inr ((TRANSITIONED, Some QUEUED), e)"
  using cancel_against_dequeue [OF ex_queue_ok, of 10 "ex_task 10 5" 60]
  by (simp add: find_task_def) blast

subsection \<open>Reports from a worker\<close>

text \<open>
  A report moves a task only when the sender holds it and the state machine
  allows the move. A start replaces the delivery lease by an execution lease that
  never outlives the fresh deadline; a failure clears the lease, the deadline and the
  retry columns. Every other report (a malformed identifier, an unknown task, another
  worker's task, a repeat, an illegal move) leaves the database as it is.
\<close>

theorem mark_status_effect:
  assumes "db_ok d" and "s = RUNNING \<or> s = FAILED"
    and "mark_status c task_id w s now d = Inr (out, e)"
  shows "(out = TRANSITIONED \<longleftrightarrow> (\<exists>i t. parse_uuid task_id = Some i \<and> find_task d i = Some t
           \<and> tk_worker t = Some w \<and> (tk_status t, s) \<in> legal_moves))
    \<and> (out \<noteq> TRANSITIONED \<longrightarrow> e = d)
    \<and> (out = TRANSITIONED \<longrightarrow> (\<exists>i t u. find_task d i = Some t \<and> find_task e i = Some u
         \<and> tk_status u = s \<and> tk_worker u = Some w
         \<and> (s = RUNNING \<longrightarrow> tk_started_at u = Some now
              \<and> tk_deadline u = Some (now + of_int (max_execution_seconds c d (tk_type t)))
              \<and> (\<exists>l. tk_lease u = Some l \<and> l \<le> now + of_int (max_execution_seconds c d (tk_type t))
                    \<and> l \<le> now + of_int (lease_seconds c d (tk_type t))))
         \<and> (s = FAILED \<longrightarrow> settled u \<and> tk_not_before u = None \<and> tk_excluded u = None)))"
  using assms(3)
proof (cases rule: mark_status_cases)
  case 1
  have "\<not> (parse_uuid task_id = Some i \<and> find_task d i = Some t \<and> tk_worker t = Some w
      \<and> (tk_status t, s) \<in> legal_moves)" for i t
    using 1 assms(3) check_transition_write [of "tk_status t" s] by (auto simp: mark_status_found)
  with 1 show ?thesis by blast
next
  case (2 i t)
  have u: "find_task e i = Some (status_stamp c d s now t)"
    using 2 by (simp add: find_task_set_task)
  have "(s = RUNNING \<longrightarrow> tk_started_at (status_stamp c d s now t) = Some now
      \<and> tk_deadline (status_stamp c d s now t) = Some (now + of_int (max_execution_seconds c d (tk_type t)))
      \<and> (\<exists>l. tk_lease (status_stamp c d s now t) = Some l
           \<and> l \<le> now + of_int (max_execution_seconds c d (tk_type t))
           \<and> l \<le> now + of_int (lease_seconds c d (tk_type t))))
    \<and> (s = FAILED \<longrightarrow> settled (status_stamp c d s now t)
         \<and> tk_not_before (status_stamp c d s now t) = None
         \<and> tk_excluded (status_stamp c d s now t) = None)"
    by (auto simp: status_stamp_RUNNING status_stamp_final settled_def secs_def)
  with 2 u show ?thesis
    by (intro conjI impI exI [of _ i] exI [of _ t] exI [of _ "status_stamp c d s now t"]) auto
qed

lemma ex_start: "mark_status default_settings (uuid_str 10) 1 FAILED 60 ex_running =
    Inr (TRANSITIONED, set_task 10 (status_stamp default_settings ex_running FAILED 60) ex_running)"
  by (subst mark_status_found [OF parse_uuid_str, of _ _ ex_running_task]) (simp_all add: find_task_def)

theorem mark_status_effect_witness:
  "\<exists>i t u. find_task ex_running i = Some t
     \<and> find_task (set_task 10 (status_stamp default_settings ex_running FAILED 60) ex_running) i = Some u
     \<and> tk_status u = FAILED \<and> settled u"
  using mark_status_effect [OF ex_running_ok _ ex_start] by auto

subsection \<open>Enqueueing\<close>

text \<open>
  A bulk enqueue is all or nothing: it is refused outside the configured range and
  for parameters the registry rejects; accepted, it appends exactly the number of rows
  asked for, all queued in their first attempt with the normalised parameters, under
  the new identifiers it returns, and the depth of the queue grows by that number.
\<close>

theorem enqueue_batch_exact:
  assumes "db_ok d"
    and "enqueue_batch co ids ty corr n mx params payload priority now d = Inr (js, e)"
  shows "1 \<le> n \<and> n \<le> mx \<and> length js = nat n \<and> distinct js
    \<and> set js \<inter> tk_id ` set (db_tasks d) = {}
    \<and> queue_depth e = queue_depth d + nat n
    \<and> (\<exists>p. validate_parameters co ty params = Inr p
        \<and> (\<forall>j \<in> set js. \<exists>t. find_task e j = Some t \<and> newborn t \<and> tk_type t = ty \<and> tk_parameters t = p
             \<and> tk_priority t = priority \<and> tk_correlation t = corr))"
  using assms(2)
proof (rule enqueue_batch_Inr)
  fix rows
  assume r: "1 \<le> n" "n \<le> mx" "js = map tk_id rows" "insert_tasks rows d = Inr e"
      "length rows = nat n"
    and v: "\<And>k. k < nat n \<Longrightarrow>
      validated_row co (ids k) ty params payload priority corr now = Inr (rows ! k)"
  have e: "e = d\<lparr>db_tasks := db_tasks d @ rows\<rparr>" and dist: "distinct (map tk_id (db_tasks d @ rows))"
    using r(4) by (auto simp: insert_tasks_def split: if_splits)
  obtain p where p: "validate_parameters co ty params = Inr p"
    using validated_row_Inr [OF v [of 0]] r(1) by auto
  have row: "newborn t \<and> tk_type t = ty \<and> tk_parameters t = p \<and> tk_priority t = priority
      \<and> tk_correlation t = corr" if "t \<in> set rows" for t
  proof -
    from that r(5) have "\<exists>k < nat n. t = rows ! k" by (metis in_set_conv_nth)
    then obtain k where k: "k < nat n" "t = rows ! k" by blast
    show ?thesis
      using validated_newborn [OF v [OF k(1)]] validated_row_Inr [OF v [OF k(1)]] p
      by (auto simp: k(2))
  qed
  have "find_task e (tk_id t) = Some t" if "t \<in> set rows" for t
    by (rule find_task_unique) (use e dist that in auto)
  moreover have "queue_depth e = queue_depth d + nat n"
    using row r(5) by (simp add: queue_depth_def e newborn_def filter_id_conv [THEN iffD2])
  moreover have "distinct js" "set js \<inter> tk_id ` set (db_tasks d) = {}"
    using dist r(3) by auto
  ultimately show ?thesis
    using r p row by (auto intro!: exI [of _ p])
qed

lemma ex_batch: "enqueue_batch strict_coercion (\<lambda>k. of_nat (k + 20)) ''sleep'' ''corr'' 2 10
    (Some [(''seconds'', PInt 3)]) None 0 5 ex_queue =
  Inr ([20, 21], ex_queue\<lparr>db_tasks := db_tasks ex_queue @
    map (\<lambda>i. (ex_task i 0)\<lparr>tk_parameters := [(''seconds'', PFloat (Fin 3))], tk_created_at := 5,
      tk_updated_at := 5\<rparr>) [20, 21]\<rparr>)"
proof -
  have v: "validate_parameters strict_coercion ''sleep'' (Some [(''seconds'', PInt 3)])
      = Inr [(''seconds'', PFloat (Fin 3))]"
    by (simp add: validate_parameters_def SleepParams_def forbid_extra_def strict_coercion_def
        float_of_int_def float_limit_def)
  have "[0..<nat 2] = [0, Suc 0]" by (simp add: upt_rec)
  with v show ?thesis
    by (simp add: enqueue_batch_def validated_row_def insert_tasks_def int4_ok_def ex_task_def)
qed

theorem enqueue_batch_exact_witness: "length [20, 21 :: uuid] = nat 2 \<and> distinct [20, 21 :: uuid]"
  using enqueue_batch_exact [OF ex_queue_ok ex_batch] by blast

subsection \<open>Listing and counting\<close>

lemma list_tasks_Inr:
  assumes "1 \<le> limit" "limit \<le> mx" "0 \<le> offset" "set (fl_statuses f) \<subseteq> TASK_STATES"
    "filter_type_known f = Inr ()"
  shows "list_tasks f limit offset mx d = Inr (take (nat limit) (drop (nat offset) (listing f d)),
    nat offset + nat limit < length (listing f d))"
proof -
  have "find (\<lambda>s. s \<notin> TASK_STATES) (fl_statuses f) = None"
    using assms(4) by (auto simp: find_None_iff)
  moreover have "nat (limit + 1) = Suc (nat limit)" using assms(1) by simp
  ultimately show ?thesis
    using assms by (simp add: list_tasks_def Let_def min_def less_diff_conv add.commute) linarith
qed

text \<open>
  Paging loses and repeats nothing: every page of an accepted listing is answered,
  the pages put together are the whole filtered listing, newest first, with no task
  twice, and a page says that more follows exactly when a later task exists.
\<close>

theorem list_tasks_pages:
  assumes "db_ok d" and "1 \<le> limit" "limit \<le> mx" "set (fl_statuses f) \<subseteq> TASK_STATES"
    "filter_type_known f = Inr ()" and "length (listing f d) \<le> pages * nat limit"
  shows "\<exists>page. (\<forall>k. list_tasks f limit (int k * limit) mx d =
            Inr (page k, (k + 1) * nat limit < length (listing f d)))
      \<and> concat (map page [0..<pages]) = listing f d
      \<and> set (listing f d) = {t \<in> set (db_tasks d). listed f t} \<and> distinct (map tk_id (listing f d))
      \<and> sorted (map listing_key (rev (listing f d)))"
proof (intro exI conjI allI)
  let ?page = "\<lambda>k. take (nat limit) (drop (k * nat limit) (listing f d))"
  have off: "nat (int k * limit) = k * nat limit" for k
    using assms(2) by (simp add: nat_mult_distrib)
  show "list_tasks f limit (int k * limit) mx d =
      Inr (?page k, (k + 1) * nat limit < length (listing f d))" for k
    using assms(2) by (subst list_tasks_Inr [OF assms(2,3) _ assms(4,5)])
      (simp_all add: off add.commute)
  show "concat (map ?page [0..<pages]) = listing f d"
    using assms(2,6) by (intro pages_concat) simp_all
  show "set (listing f d) = {t \<in> set (db_tasks d). listed f t}"
    by (auto simp: listing_def)
  show "distinct (map tk_id (listing f d))"
    using distinct_map_filter [OF db_ok_distinct [OF assms(1)]]
    by (simp add: listing_def rev_map [symmetric] distinct_map)
  show "sorted (map listing_key (rev (listing f d)))"
    by (simp add: listing_def)
qed

theorem list_tasks_pages_witness:
  "\<exists>page. concat (map page [0..<2 :: nat]) =
     listing \<lparr>fl_statuses = [QUEUED], fl_type = None, fl_worker = None, fl_correlation = None\<rparr> ex_queue"
  using list_tasks_pages [OF ex_queue_ok, of 1 100
      "\<lparr>fl_statuses = [QUEUED], fl_type = None, fl_worker = None, fl_correlation = None\<rparr>" 2]
  by (auto simp: listing_def listed_def filter_type_known_def)

lemma length_filter_partition:
  "distinct bs \<Longrightarrow> sum_list (map (\<lambda>b. length (filter (\<lambda>x. f x = Some b) xs)) bs) =
     length (filter (\<lambda>x. \<exists>b \<in> set bs. f x = Some b) xs)"
proof (induction xs)
  case (Cons x xs)
  have "sum_list (map (\<lambda>b. (if f x = Some b then 1 else 0 :: nat)) bs) =
      (if \<exists>b \<in> set bs. f x = Some b then 1 else 0)"
    using Cons.prems by (induction bs) auto
  moreover have "length (filter (\<lambda>y. f y = Some b) (x # xs)) =
      (if f x = Some b then 1 else 0) + length (filter (\<lambda>y. f y = Some b) xs)" for b
    by simp
  ultimately show ?case using Cons by (simp add: sum_list_addf del: filter.simps)
      simp
qed simp

lemma minute_bucket_form:
  "minute_buckets m now = map (\<lambda>k. of_int (\<lfloor>now / 60\<rfloor> - (m - 1) + int k) * 60) [0..<nat m]"
  by (auto simp: minute_buckets_def minute_of_def algebra_simps)

lemma minute_of_bucket:
  assumes "1 \<le> m"
  shows "minute_of x \<in> set (minute_buckets m now) \<longleftrightarrow>
    window_start m now \<le> x \<and> x < minute_of now + 60"
proof -
  let ?n = "\<lfloor>now / 60\<rfloor>" and ?x = "\<lfloor>x / 60\<rfloor>"
  have "minute_of x \<in> set (minute_buckets m now) \<longleftrightarrow> (\<exists>k < nat m. ?x = ?n - (m - 1) + int k)"
    by (auto simp: minute_bucket_form minute_of_def image_iff simp flip: of_int_mult of_int_eq_iff)
  also have "\<dots> \<longleftrightarrow> ?n - (m - 1) \<le> ?x \<and> ?x \<le> ?n"
  proof
    assume "?n - (m - 1) \<le> ?x \<and> ?x \<le> ?n"
    then show "\<exists>k < nat m. ?x = ?n - (m - 1) + int k"
      using assms by (intro exI [of _ "nat (?x - (?n - (m - 1)))"]) auto
  qed auto
  also have "\<dots> \<longleftrightarrow> of_int (?n - (m - 1)) \<le> x / 60 \<and> x / 60 < of_int ?n + 1"
    unfolding le_floor_iff [of "?n - (m - 1)"] floor_le_iff [of _ ?n] by (rule refl)
  also have "\<dots> \<longleftrightarrow> window_start m now \<le> x \<and> x < minute_of now + 60"
    by (simp add: window_start_def minute_of_def field_simps)
  finally show ?thesis .
qed

text \<open>
  The throughput series has one entry per minute of the window, oldest first and
  ending with the current minute, empty minutes included; each count is the number of
  tasks completed in that minute, and the counts add up to the tasks completed in the
  window, so no completion is lost or counted twice.
\<close>

theorem completions_series:
  assumes "1 \<le> m" "m \<le> mx"
  shows "\<exists>series. completions_per_minute m mx now d = Inr series
    \<and> length series = nat m
    \<and> (\<forall>k < nat m. fst (series ! k) = minute_of now - of_int (m - 1 - int k) * 60
         \<and> snd (series ! k) = length (filter (\<lambda>t. map_option minute_of (tk_completed_at t)
              = Some (fst (series ! k))) (db_tasks d)))
    \<and> sum_list (map snd series) = length (filter
         (\<lambda>t. \<exists>x. tk_completed_at t = Some x \<and> window_start m now \<le> x \<and> x < minute_of now + 60)
         (db_tasks d))"
proof -
  let ?bs = "minute_buckets m now" and ?f = "\<lambda>t. map_option minute_of (tk_completed_at t)"
  let ?cnt = "\<lambda>b. length (filter (\<lambda>t. ?f t = Some b) (db_tasks d))"
  let ?hits = "filter (\<lambda>t. opt_cmp (\<lambda>x. window_start m now \<le> x) (tk_completed_at t)) (db_tasks d)"
  have hit: "length (filter (completed_in b) ?hits) = ?cnt b" if "b \<in> set ?bs" for b
  proof -
    have "opt_cmp (\<lambda>x. window_start m now \<le> x) (tk_completed_at t) \<and> completed_in b t \<longleftrightarrow> ?f t = Some b" for t
      using minute_of_bucket [OF assms(1), of _ now] that by (auto simp: completed_in_def opt_cmp_iff)
    then show ?thesis by simp
  qed
  then have s: "completions_per_minute m mx now d = Inr (map (\<lambda>b. (b, ?cnt b)) ?bs)"
    using assms by (simp add: completions_per_minute_def Let_def)
  have "distinct ?bs"
    by (simp add: minute_bucket_form distinct_map inj_on_def)
  from length_filter_partition [OF this, of ?f "db_tasks d"]
  have sum: "sum_list (map snd (map (\<lambda>b. (b, ?cnt b)) ?bs)) =
      length (filter (\<lambda>t. \<exists>b \<in> set ?bs. ?f t = Some b) (db_tasks d))"
    by (simp add: comp_def)
  have "(\<lambda>t. \<exists>b \<in> set ?bs. ?f t = Some b) =
      (\<lambda>t. \<exists>x. tk_completed_at t = Some x \<and> window_start m now \<le> x \<and> x < minute_of now + 60)"
    using minute_of_bucket [OF assms(1), of _ now] by (intro ext) auto
  from arg_cong [OF this, of "\<lambda>p. length (filter p (db_tasks d))"] sum
  have total: "sum_list (map snd (map (\<lambda>b. (b, ?cnt b)) ?bs)) = length (filter
      (\<lambda>t. \<exists>x. tk_completed_at t = Some x \<and> window_start m now \<le> x \<and> x < minute_of now + 60)
      (db_tasks d))" by (rule trans [rotated])
  have at: "?bs ! k = minute_of now - of_int (m - 1 - int k) * 60" if "k < nat m" for k
    using that by (simp add: minute_buckets_def algebra_simps)
  have len: "length ?bs = nat m" by (simp add: minute_buckets_def)
  show ?thesis
  proof (intro exI conjI allI impI)
    show "completions_per_minute m mx now d = Inr (map (\<lambda>b. (b, ?cnt b)) ?bs)" by (rule s)
  qed (use total at len in simp_all)
qed

theorem completions_series_witness:
  "\<exists>series. completions_per_minute 3 1440 200 ex_queue = Inr series \<and> length series = 3"
  using completions_series [of 3 1440 200 ex_queue] by auto

subsection \<open>Retention\<close>

text \<open>
  The retention sweep removes exactly the result bodies older than the period and
  leaves every task in place, completed as before, with its reference cleared exactly
  when its body went; a period of zero days or less removes nothing.
\<close>

theorem purge_exact:
  assumes "db_ok d" and "purge_expired_results days now d = (n, e)"
  shows "(days \<le> 0 \<longrightarrow> n = 0 \<and> e = d)
    \<and> (0 < days \<longrightarrow>
         set (db_results e) = {r \<in> set (db_results d). now - of_int (days * 86400) \<le> rs_submitted_at r}
       \<and> n + length (db_results e) = length (db_results d)
       \<and> (\<forall>t \<in> set (db_tasks d). \<exists>u. find_task e (tk_id t) = Some u
            \<and> u = t\<lparr>tk_result := (if Option.bind (tk_result t) (find_result e) = None then None
                                 else tk_result t)\<rparr>))"
proof (cases "0 < days")
  case True
  let ?over = "overdue_result days now"
  let ?gone = "rs_id ` {x \<in> set (db_results d). ?over x}"
  have e: "db_tasks e = map (unlink_results ?gone) (db_tasks d)"
      "db_results e = filter (\<lambda>r. \<not> ?over r) (db_results d)" and n: "n = length (filter ?over (db_results d))"
    using assms(2) True by (auto simp: purge_expired_results_def Let_def)
  have ok: "db_ok e" using db_ok_purge [OF assms] by simp
  have "find_task e (tk_id t) = Some (t\<lparr>tk_result := (if Option.bind (tk_result t) (find_result e) = None
      then None else tk_result t)\<rparr>)" if t: "t \<in> set (db_tasks d)" for t
  proof -
    have "unlink_results ?gone t \<in> set (db_tasks e)" using t e(1) by simp
    from find_task_unique [OF db_ok_distinct [OF ok] this]
    have f: "find_task e (tk_id t) = Some (unlink_results ?gone t)" by simp
    show ?thesis
    proof (cases "tk_result t")
      case None
      with f show ?thesis by (simp add: unlink_results_def)
    next
      case (Some r)
      have "r \<in> rs_id ` set (db_results d)"
        using assms(1) t Some by (force simp: db_ok_def refs_ok_def result_refs_def)
      moreover have "distinct (map rs_id (db_results d))"
        using assms(1) by (simp add: db_ok_def keys_ok_def)
      ultimately have "r \<in> ?gone \<longleftrightarrow> find_result e r = None"
        by (auto simp: find_result_def find_None_iff e(2) distinct_map inj_on_def)
      with f Some show ?thesis by (simp add: unlink_results_def)
    qed
  qed
  then show ?thesis
    using True sum_length_filter_compl [of ?over "db_results d"]
    by (auto simp: e(2) n overdue_result_def)
qed (use assms(2) in \<open>auto simp: purge_expired_results_def\<close>)

theorem purge_exact_witness:
  "set (db_results (snd (purge_expired_results 7 0 ex_queue))) = {}"
  using purge_exact [OF ex_queue_ok prod.collapse [symmetric], of 7 0] by (simp add: ex_queue_def)

end
