(* ===== verification/ReachedExamples.thy ===== *)
theory ReachedExamples
  imports Examples
begin

text \<open>
  A database the coordinator really reaches: a worker enrols, a task is submitted, the
  worker claims it and reports that it started. The properties of reachable databases
  are applied to it.
\<close>

definition ex_enrolled :: db where
  "ex_enrolled = empty_db\<lparr>db_workers := [enrolled_row 1 ''hash'' None ''10.0.0.1'' 0]\<rparr>"

definition ex_submitted :: db where
  "ex_submitted = ex_enrolled\<lparr>db_tasks := [ex_task 10 5]\<rparr>"

definition ex_claimed :: db where
  "ex_claimed = map_tasks (\<lambda>t. tk_id t \<in> {10}) (claim_stamp default_settings ex_submitted 1 40) ex_submitted"

definition ex_started :: db where
  "ex_started = set_task 10 (status_stamp default_settings ex_claimed RUNNING 41) ex_claimed"

lemma ex_enroll: "enroll 1 ''hash'' None ''10.0.0.1'' 0 empty_db = Inr (1, ex_enrolled)"
  by (simp add: enroll_def empty_db_def ex_enrolled_def)

lemma ex_submit: "enqueue strict_coercion 10 ''sleep'' ''corr'' (Some [(''seconds'', PFloat (Fin 1))]) None 5 0
    ex_enrolled = Inr (10, ex_submitted)"
proof -
  have "validate_parameters strict_coercion ''sleep'' (Some [(''seconds'', PFloat (Fin 1))])
      = Inr [(''seconds'', PFloat (Fin 1))]"
    by (simp add: validate_parameters_def strict_Sleep)
  then show ?thesis
    by (simp add: enqueue_def validated_row_def bind_exn_def insert_tasks_def ex_submitted_def
        ex_enrolled_def empty_db_def int4_ok_def ex_task_def)
qed

lemma ex_hand_out: "dequeue default_settings 1 1 100 None {} 40 ex_submitted =
    Inr ([claim_stamp default_settings ex_submitted 1 40 (ex_task 10 5)], ex_claimed)"
proof -
  have "claim_list default_settings 1 1 None {} 40 ex_submitted = [ex_task 10 5]"
    by (simp add: claim_list_def claimable_def eligible_def ex_submitted_def)
  moreover have "worker_known ex_submitted (Some 1)"
    by (simp add: worker_known_def ex_submitted_def ex_enrolled_def enrolled_row_def)
  ultimately show ?thesis
    by (simp add: dequeue_def Let_def ex_claimed_def)
qed

lemma ex_submitted_task: "find_task ex_submitted 10 = Some (ex_task 10 5)"
  by (simp add: ex_submitted_def find_task_def)

lemma ex_claimed_task: "find_task ex_claimed 10 =
    Some (claim_stamp default_settings ex_submitted 1 40 (ex_task 10 5))"
  using ex_submitted_task by (simp add: ex_claimed_def find_task_map_tasks)

lemma ex_begin: "mark_status default_settings (uuid_str 10) 1 RUNNING 41 ex_claimed =
    Inr (TRANSITIONED, ex_started)"
  by (subst mark_status_found [OF parse_uuid_str ex_claimed_task])
    (simp add: claim_stamp_def ex_started_def)

lemma ex_submitted_reachable: "reachable default_settings ex_submitted"
  by (rule reachable_step [OF reachable_step [OF reachable_empty enroll_step [OF ex_enroll]]
        enqueue_step [OF ex_submit]])

lemma ex_claimed_reachable: "reachable default_settings ex_claimed"
  by (rule reachable_step [OF ex_submitted_reachable dequeue_step [OF ex_hand_out]])

lemma ex_started_reachable: "reachable default_settings ex_started"
  by (rule reachable_step [OF ex_claimed_reachable started_step [OF ex_begin]])

definition ex_started_task :: task_row where
  "ex_started_task = status_stamp default_settings ex_claimed RUNNING 41
     (claim_stamp default_settings ex_submitted 1 40 (ex_task 10 5))"

lemma ex_started_find: "find_task ex_started 10 = Some ex_started_task"
  using ex_claimed_task by (simp add: ex_started_def find_task_set_task ex_started_task_def)

lemma ex_started_sel [simp]: "tk_status ex_started_task = RUNNING" "tk_id ex_started_task = 10"
  "tk_worker ex_started_task = Some 1" "tk_attempt ex_started_task = 0"
  by (simp_all add: ex_started_task_def claim_stamp_def)

lemma ex_started_mem: "ex_started_task \<in> set (db_tasks ex_started)"
  using find_task_mem [OF ex_started_find] by simp

end
