(* ===== verification/RowSteps.thy ===== *)
theory RowSteps
  imports Reachable
begin

text \<open>
  What one step of the database does to one row of the task table: nothing, or one of
  ten rewritings. A property of rows that every rewriting keeps, and that a new row
  has, holds of every task in every reachable database; the interface \<open>row_invariant\<close>
  says so once, and two invariants are instances: the lease of a running task never
  outlives its deadline, and attempts are bounded.
\<close>

inductive row_step :: "settings \<Rightarrow> db \<Rightarrow> task_row \<Rightarrow> task_row \<Rightarrow> bool" for c d where
  untouched: "row_step c d t t"
| claimed: "tk_status t = QUEUED \<Longrightarrow> row_step c d t (claim_stamp c d w now t)"
| reported: "s = RUNNING \<or> s = FAILED \<Longrightarrow> live_status (tk_status t) \<Longrightarrow>
    row_step c d t (status_stamp c d s now t)"
| completed: "live_status (tk_status t) \<Longrightarrow> row_step c d t (complete_stamp r now t)"
| cancelled: "tk_status t = QUEUED \<Longrightarrow> row_step c d t (cancel_stamp now t)"
| renewed: "live_status (tk_status t) \<Longrightarrow> row_step c d t (renew_stamp c now t)"
| shortened: "live_status (tk_status t) \<Longrightarrow> row_step c d t (shorten_stamp grace now t)"
| reclaimed: "overdue now t \<Longrightarrow> row_step c d t (reclaim_stamp c d rnd now t)"
| unlinked: "row_step c d t (unlink_results gone t)"

inductive_cases row_stepE: "row_step c d t u"

definition rows_step :: "settings \<Rightarrow> db \<Rightarrow> db \<Rightarrow> bool" where
  "rows_step c d e \<longleftrightarrow>
     (\<forall>u \<in> set (db_tasks e). (newborn u \<and> tk_id u \<notin> tk_id ` set (db_tasks d)) \<or> (\<exists>t \<in> set (db_tasks d). row_step c d t u))"

lemma rows_step_same: "db_tasks e = db_tasks d \<Longrightarrow> rows_step c d e"
  by (auto simp: rows_step_def intro: untouched)

lemma rows_step_map:
  assumes "db_tasks e = update_where p f (db_tasks d)"
    and "\<And>t. t \<in> set (db_tasks d) \<Longrightarrow> p t \<Longrightarrow> row_step c d t (f t)"
  shows "rows_step c d e"
  using assms(2) by (auto simp: rows_step_def assms(1) set_update_where intro: untouched)

lemma rows_step_one:
  assumes ok: "db_ok d" and t: "find_task d i = Some t" and r: "row_step c d t (f t)"
    and e: "db_tasks e = update_where (\<lambda>t. tk_id t = i) f (db_tasks d)"
  shows "rows_step c d e"
proof (rule rows_step_map [OF e])
  fix u assume "u \<in> set (db_tasks d)" "tk_id u = i"
  then have "u = t" using t find_task_unique [OF db_ok_distinct [OF ok]] by auto
  with r show "row_step c d u (f u)" by simp
qed

lemma rows_step_insert:
  assumes "insert_tasks rows d = Inr e" and "\<And>t. t \<in> set rows \<Longrightarrow> newborn t"
  shows "rows_step c d e"
proof -
  have e: "db_tasks e = db_tasks d @ rows" and ids: "distinct (map tk_id (db_tasks d @ rows))"
    using assms(1) by (auto simp: insert_tasks_def split: if_splits)
  have "tk_id u \<notin> tk_id ` set (db_tasks d)" if "u \<in> set rows" for u
    using ids that by auto
  then show ?thesis
    using assms(2) unfolding rows_step_def e by (auto intro: untouched)
qed

subsection \<open>Every step, row by row\<close>

lemma rows_step_enqueue:
  "enqueue co i ty corr params payload priority now d = Inr (j, e) \<Longrightarrow> rows_step c d e"
  by (erule enqueue_Inr, rule rows_step_insert) (auto dest: validated_newborn)

lemma rows_step_batch:
  assumes "enqueue_batch co ids ty corr n mx params payload priority now d = Inr (js, e)"
  shows "rows_step c d e"
  using assms
proof (rule enqueue_batch_Inr)
  fix rows assume rows: "insert_tasks rows d = Inr e" "length rows = nat n"
    "\<And>k. k < nat n \<Longrightarrow> validated_row co (ids k) ty params payload priority corr now = Inr (rows ! k)"
  have "newborn t" if "t \<in> set rows" for t
    using that rows(2,3) validated_newborn by (metis in_set_conv_nth)
  then show ?thesis by (rule rows_step_insert [OF rows(1)])
qed

lemma rows_step_dequeue:
  assumes ok: "db_ok d" and dq: "dequeue c w limit mx types locked now d = Inr (rows, e)"
  shows "rows_step c d e"
proof (rule rows_step_map)
  show "db_tasks e = update_where (\<lambda>t. tk_id t \<in> tk_id ` set (claim_list c w limit types locked now d))
      (claim_stamp c d w now) (db_tasks d)"
    by (simp add: dequeue_Inr(2) [OF dq] map_tasks_def)
  fix t assume "t \<in> set (db_tasks d)" "tk_id t \<in> tk_id ` set (claim_list c w limit types locked now d)"
  then have "t \<in> set (claim_list c w limit types locked now d)" by (rule claim_list_ids [OF ok])
  then have "tk_status t = QUEUED" using claim_list_mem by (auto simp: claimable_def)
  then show "row_step c d t (claim_stamp c d w now t)" by (rule claimed)
qed

lemma rows_step_mark:
  assumes ok: "db_ok d" and m: "mark_status c task_id w s now d = Inr (out, e)"
    and s: "s = RUNNING \<or> s = FAILED"
  shows "rows_step c d e"
  using m
proof (cases rule: mark_status_cases)
  case (2 i t)
  have "tk_status t \<noteq> QUEUED"
    using db_ok_find [OF ok 2(3)] 2(4) by (auto simp: task_ok_def unassigned_def)
  then have "live_status (tk_status t)" using 2(5) s by (auto simp: legal_moves_def)
  then show ?thesis
    using 2(6) s by (intro rows_step_one [OF ok 2(3), where f = "status_stamp c d s now"])
      (auto simp: set_task_def intro: reported)
qed (auto intro: rows_step_same)

lemma rows_step_complete:
  assumes ok: "db_ok d" and cm: "complete_task rp env w rid aid now d = Inr (out, e)"
  shows "rows_step c d e"
  using cm
proof (cases rule: complete_task_found)
  case (2 i t v)
  show ?thesis
    using db_ok_find [OF ok 2(3)] 2(4)
  proof (cases rule: complete_locked_cases)
    case (stored d')
    have "tk_id t = i" using find_task_mem [OF 2(3)] by simp
    then show ?thesis
      using insert_result_Inr [OF stored(5)] stored(6)
      by (intro rows_step_one [OF ok 2(3), where f = "complete_stamp rid now"])
        (auto simp: set_task_def intro: completed [OF stored(1)])
  next
    case (fenced reason)
    then show ?thesis
      using record_fence_cases [OF fenced(3)] by (auto simp: add_attempt_def intro!: rows_step_same)
  qed (auto intro: rows_step_same)
qed (auto intro: rows_step_same)

lemma rows_step_cancel:
  assumes ok: "db_ok d" and cn: "cancel_queued_task task_id now d = Inr (r, e)"
  shows "rows_step c d e"
  using cn
proof (cases rule: cancel_cases)
  case (2 i t)
  then show ?thesis
    by (intro rows_step_one [OF ok 2(3), where f = "cancel_stamp now"])
      (auto simp: set_task_def intro: cancelled)
qed (auto intro: rows_step_same)

lemma rows_step_reclaim:
  assumes ok: "db_ok d" and r: "reclaim_expired_leases c batch locked rnd ids now d = Inr (rows, e)"
  shows "rows_step c d e"
proof (rule rows_step_map [OF reclaim_Inr(3) [OF r]])
  fix t assume "t \<in> set (db_tasks d)" "tk_id t \<in> tk_id ` set (expired_list batch locked now d)"
  then have "overdue now t" using expired_list_mem expired_list_ids [OF ok] by blast
  then show "row_step c d t (reclaim_stamp c d rnd now t)" by (rule reclaimed)
qed

lemma rows_step_leases:
  "rows_step c d (snd (renew_lease c task_id w now d))"
  "rows_step c d (snd (renew_worker_leases c w now d))"
  "rows_step c d (snd (shorten_worker_leases w grace now d))"
proof -
  show "rows_step c d (snd (renew_lease c task_id w now d))"
  proof (cases "parse_uuid task_id")
    case (Some i)
    then show ?thesis
      by (intro rows_step_map [where p = "\<lambda>t. tk_id t = i \<and> held_live w t" and f = "renew_stamp c now"])
        (auto simp: renew_lease_def map_tasks_def held_live_def intro: renewed)
  qed (simp add: renew_lease_def rows_step_same)
  show "rows_step c d (snd (renew_worker_leases c w now d))"
    by (intro rows_step_map [where p = "held_live w" and f = "renew_stamp c now"])
      (auto simp: renew_worker_leases_def map_tasks_def held_live_def intro: renewed)
  show "rows_step c d (snd (shorten_worker_leases w grace now d))"
    by (intro rows_step_map [where p = "held_live w" and f = "shorten_stamp grace now"])
      (auto simp: shorten_worker_leases_def map_tasks_def held_live_def intro: shortened)
qed

lemma rows_step_purge: "purge_expired_results days now d = (n, e) \<Longrightarrow> rows_step c d e"
  unfolding rows_step_def purge_expired_results_def Let_def
  by (cases "days \<le> 0") (fastforce intro: untouched unlinked)+

lemma record_failure_tasks:
  "record_execution_failure task_id w err corr i now d = Inr (u, e) \<Longrightarrow> db_tasks e = db_tasks d"
  by (auto simp: record_execution_failure_def add_attempt_def split: option.splits if_splits)

lemma step_rows:
  assumes "step c d e" and ok: "db_ok d"
  shows "rows_step c d e"
  using assms(1)
proof cases
  case (renew_step task_id w now b)
  with rows_step_leases(1) [of c d task_id w now] show ?thesis by simp
next
  case (renew_worker_step w now ids)
  with rows_step_leases(2) [of c d w now] show ?thesis by simp
next
  case (shorten_step w grace now n)
  with rows_step_leases(3) [of c d w grace now] show ?thesis by simp
next
  case (failure_step task_id w err corr i now u)
  then show ?thesis by (intro rows_step_same record_failure_tasks)
next
  case (set_policy_step body vs ty now)
  then show ?thesis by (auto simp: set_policy_def intro!: rows_step_same split: if_splits)
next
  case (clear_policy_step ty b)
  then show ?thesis by (auto simp: clear_policy_def intro!: rows_step_same split: if_splits)
next
  case (enroll_step i h v ip now j)
  then show ?thesis by (auto simp: enroll_def intro!: rows_step_same split: if_splits)
qed (use ok in \<open>auto intro: rows_step_enqueue rows_step_batch rows_step_dequeue rows_step_mark
      rows_step_complete rows_step_cancel rows_step_reclaim rows_step_purge rows_step_same
      simp: write_status_def revoke_row_def reaffirm_version_def\<close>)

lemma row_step_id: "row_step c d t u \<Longrightarrow> tk_id u = tk_id t"
  by (erule row_stepE) (auto simp: claim_stamp_def status_stamp_def start_stamp_def settle_def Let_def
      complete_stamp_def cancel_stamp_def unlink_results_def)

lemma origin_of_row:
  assumes "step c d e" and ok: "db_ok d" and u: "find_task e i = Some u"
  shows "(newborn u \<and> find_task d i = None) \<or> (\<exists>t. find_task d i = Some t \<and> row_step c d t u)"
proof -
  note mem = find_task_mem [OF u]
  consider "newborn u" "tk_id u \<notin> tk_id ` set (db_tasks d)"
    | t where "t \<in> set (db_tasks d)" "row_step c d t u"
    using step_rows [OF assms(1) ok] mem unfolding rows_step_def by blast
  then show ?thesis
  proof cases
    case 1
    then show ?thesis using mem by (simp add: find_task_None)
  next
    case 2
    then show ?thesis
      using find_task_unique [OF db_ok_distinct [OF ok] 2(1)] row_step_id [OF 2(2)] mem by auto
  qed
qed

lemma row_of_step:
  assumes "step c d e" "db_ok d" "find_task d i = Some t"
  shows "\<exists>u. find_task e i = Some u \<and> row_step c d t u"
proof -
  obtain u where u: "find_task e i = Some u"
    using step_ok [OF assms(1,2)] evolves_find [OF _ _ assms(3)] by blast
  with origin_of_row [OF assms(1,2) u] assms(3) show ?thesis by auto
qed

text \<open>A relation between a row and its past that every rewriting respects holds along any run.\<close>

lemma row_along:
  assumes "(step c)\<^sup>*\<^sup>* d e" "reachable c d" "find_task d i = Some t" "P t"
    and kept: "\<And>d t u. row_step c d t u \<Longrightarrow> task_ok t \<Longrightarrow> P t \<Longrightarrow> P u"
  shows "\<exists>u. find_task e i = Some u \<and> P u"
  using assms(1)
proof (induction rule: rtranclp_induct)
  case base
  then show ?case using assms(3,4) by blast
next
  case (step e f)
  have ok: "db_ok e" by (rule reachable_ok [OF reachable_steps [OF assms(2) step.hyps(1)]])
  from step.IH obtain u where u: "find_task e i = Some u" "P u" by blast
  with row_of_step [OF step.hyps(2) ok u(1)] kept db_ok_find [OF ok u(1)] show ?case by blast
qed

subsection \<open>Row invariants\<close>

locale row_invariant =
  fixes c :: settings
    and env :: "db \<Rightarrow> bool"
    and inv :: "task_row \<Rightarrow> bool"
  assumes env_empty: "env empty_db"
    and env_step: "step c d e \<Longrightarrow> db_ok d \<Longrightarrow> env d \<Longrightarrow> env e"
    and inv_new: "newborn t \<Longrightarrow> inv t"
    and inv_step: "env d \<Longrightarrow> row_step c d t u \<Longrightarrow> task_ok t \<Longrightarrow> inv t \<Longrightarrow> inv u"
begin

lemma reachable_env_inv:
  "reachable c d \<Longrightarrow> env d \<and> (\<forall>t \<in> set (db_tasks d). inv t)"
  unfolding reachable_def
proof (induction rule: rtranclp_induct)
  case base
  then show ?case using env_empty by (simp add: empty_db_def)
next
  case (step d e)
  have ok: "db_ok d" using step.hyps(1) by (intro reachable_ok) (simp add: reachable_def)
  have "inv u" if "u \<in> set (db_tasks e)" for u
    using step_rows [OF step.hyps(2) ok] that step.IH db_ok_task [OF ok] inv_new inv_step
    unfolding rows_step_def by blast
  then show ?case using env_step [OF step.hyps(2) ok] step.IH by blast
qed

lemma reachable_inv: "reachable c d \<Longrightarrow> t \<in> set (db_tasks d) \<Longrightarrow> inv t"
  using reachable_env_inv by blast

end

text \<open>A running task has a lease, and it ends no later than the execution deadline.\<close>

definition capped :: "task_row \<Rightarrow> bool" where
  "capped t \<longleftrightarrow> (tk_status t = RUNNING \<longrightarrow>
     (\<exists>l dl. tk_lease t = Some l \<and> tk_deadline t = Some dl \<and> l \<le> dl))"

lemma capped_step:
  assumes "row_step c d t u" "task_ok t" "capped t"
  shows "capped u"
  using assms(1)
proof cases
  case (reported s now)
  then show ?thesis by (auto simp: capped_def status_stamp_RUNNING)
next
  case (renewed now)
  have "leased t" by (rule task_ok_live [OF assms(2) renewed(2)])
  with assms(3) show ?thesis
    by (auto simp: capped_def renewed renew_stamp_def renewal_target_def leased_def)
next
  case (shortened grace now)
  have "leased t" by (rule task_ok_live [OF assms(2) shortened(2)])
  with assms(3) show ?thesis
    by (auto simp: capped_def shortened shorten_stamp_def leased_def min_def)
qed (use assms(3) in \<open>auto simp: capped_def claim_stamp_def cancel_stamp_def reclaim_stamp_def unlink_results_def\<close>)

interpretation lease_cap: row_invariant c "\<lambda>_. True" capped for c
proof unfold_locales
  show "capped t" if "newborn t" for t using that by (simp add: newborn_def capped_def)
qed (auto intro: capped_step)

text \<open>With validated policies the attempt cap of every type is between 1 and 100.\<close>

definition policies_bounded :: "db \<Rightarrow> bool" where
  "policies_bounded d \<longleftrightarrow> (\<forall>f ty n. stored_policy d f ty = Some n \<longrightarrow> in_bounds f n)"

definition attempts_in :: "task_row \<Rightarrow> bool" where
  "attempts_in t \<longleftrightarrow> tk_attempt t \<le> MAX_MAX_ATTEMPTS
     \<and> (tk_status t \<notin> TERMINAL_STATES \<longrightarrow> tk_attempt t < MAX_MAX_ATTEMPTS)"

lemma stored_policy_cong: "db_policies e = db_policies d \<Longrightarrow> stored_policy e = stored_policy d"
  by (intro ext) (simp add: stored_policy_def find_policy_def)

lemma policies_kept:
  "enqueue co i ty corr params payload priority now d = Inr (j, e) \<Longrightarrow> db_policies e = db_policies d"
  "enqueue_batch co ids ty corr cnt mx params payload priority now d = Inr (js, e) \<Longrightarrow>
     db_policies e = db_policies d"
  "dequeue c w limit mx types locked now d = Inr (rows, e) \<Longrightarrow> db_policies e = db_policies d"
  "mark_status c task_id w s now d = Inr (out, e) \<Longrightarrow> db_policies e = db_policies d"
  "record_execution_failure task_id w err corr i now d = Inr (u, e) \<Longrightarrow> db_policies e = db_policies d"
  "cancel_queued_task task_id now d = Inr (r, e) \<Longrightarrow> db_policies e = db_policies d"
  "renew_lease c task_id w now d = (b, e) \<Longrightarrow> db_policies e = db_policies d"
  "renew_worker_leases c w now d = (tids, e) \<Longrightarrow> db_policies e = db_policies d"
  "shorten_worker_leases w grace now d = (n, e) \<Longrightarrow> db_policies e = db_policies d"
  "reclaim_expired_leases c batch locked rnd ids now d = Inr (rcs, e) \<Longrightarrow> db_policies e = db_policies d"
  "purge_expired_results days now d = (n, e) \<Longrightarrow> db_policies e = db_policies d"
  "enroll i h v ip now d = Inr (j, e) \<Longrightarrow> db_policies e = db_policies d"
proof -
  show "enqueue co i ty corr params payload priority now d = Inr (j, e) \<Longrightarrow> db_policies e = db_policies d"
    by (erule enqueue_Inr) (auto simp: insert_tasks_def split: if_splits)
  show "enqueue_batch co ids ty corr cnt mx params payload priority now d = Inr (js, e) \<Longrightarrow>
     db_policies e = db_policies d"
    by (erule enqueue_batch_Inr) (auto simp: insert_tasks_def split: if_splits)
  show "dequeue c w limit mx types locked now d = Inr (rows, e) \<Longrightarrow> db_policies e = db_policies d"
    by (drule dequeue_Inr(2)) simp
  show "mark_status c task_id w s now d = Inr (out, e) \<Longrightarrow> db_policies e = db_policies d"
    by (erule mark_status_cases) auto
  show "record_execution_failure task_id w err corr i now d = Inr (u, e) \<Longrightarrow> db_policies e = db_policies d"
    by (auto simp: record_execution_failure_def add_attempt_def split: option.splits if_splits)
  show "cancel_queued_task task_id now d = Inr (r, e) \<Longrightarrow> db_policies e = db_policies d"
    by (erule cancel_cases) auto
  show "renew_lease c task_id w now d = (b, e) \<Longrightarrow> db_policies e = db_policies d"
    by (auto simp: renew_lease_def split: option.splits)
  show "renew_worker_leases c w now d = (tids, e) \<Longrightarrow> db_policies e = db_policies d"
    by (auto simp: renew_worker_leases_def)
  show "shorten_worker_leases w grace now d = (n, e) \<Longrightarrow> db_policies e = db_policies d"
    by (auto simp: shorten_worker_leases_def)
  show "reclaim_expired_leases c batch locked rnd ids now d = Inr (rcs, e) \<Longrightarrow> db_policies e = db_policies d"
    by (rule reclaim_Inr(7))
  show "purge_expired_results days now d = (n, e) \<Longrightarrow> db_policies e = db_policies d"
    by (auto simp: purge_expired_results_def Let_def split: if_splits)
  show "enroll i h v ip now d = Inr (j, e) \<Longrightarrow> db_policies e = db_policies d"
    by (auto simp: enroll_def split: if_splits)
qed

lemma complete_policies:
  assumes "complete_task rp env w rid aid now d = Inr (out, e)" "db_ok d"
  shows "db_policies e = db_policies d"
  using assms(1)
proof (cases rule: complete_task_found)
  case (2 i t v)
  show ?thesis
    using db_ok_find [OF assms(2) 2(3)] 2(4)
  proof (cases rule: complete_locked_cases)
    case (stored d')
    then show ?thesis using insert_result_Inr [OF stored(5)] by auto
  next
    case (fenced reason)
    then show ?thesis using record_fence_cases [OF fenced(3)] by (auto simp: add_attempt_def)
  qed auto
qed simp

lemma policies_bounded_cong: "db_policies e = db_policies d \<Longrightarrow> policies_bounded e = policies_bounded d"
  using stored_policy_cong [of e d] by (simp add: policies_bounded_def)

lemma policies_bounded_step:
  assumes "step c d e" "policies_bounded d" and ok: "db_ok d"
  shows "policies_bounded e"
  using assms(1)
proof cases
  case (set_policy_step body vs ty now)
  have e: "e = upsert_policy ty vs now d"
    using set_policy_step(3) by (auto simp: set_policy_def split: if_splits)
  have "in_bounds f n" if "map_of vs f = Some n" for f n
    using validate_policy_range(3) [OF set_policy_step(2,1) map_of_SomeD [OF that]] by simp
  then show ?thesis
    using assms(2) validated_good [OF set_policy_step(2,1)]
    by (auto simp: policies_bounded_def e policies.read_put split: if_splits option.splits)
next
  case (clear_policy_step ty b)
  then have "e = delete_policy ty d" by (auto simp: clear_policy_def split: if_splits)
  with assms(2) show ?thesis by (auto simp: policies_bounded_def policies.read_del split: if_splits)
qed (rule policies_bounded_cong [THEN iffD2, OF _ assms(2)],
    use ok in \<open>auto dest: policies_kept complete_policies
      simp: write_status_def revoke_row_def reaffirm_version_def\<close>)+

lemma max_attempts_range:
  assumes "policies_bounded d" "1 \<le> cf_max_attempts c" "cf_max_attempts c \<le> MAX_MAX_ATTEMPTS"
  shows "1 \<le> max_attempts c d ty" "max_attempts c d ty \<le> MAX_MAX_ATTEMPTS"
proof -
  have "1 \<le> max_attempts c d ty \<and> max_attempts c d ty \<le> MAX_MAX_ATTEMPTS"
  proof (cases "stored_policy d ''max_attempts'' ty")
    case (Some n)
    then have "in_bounds ''max_attempts'' n" using assms(1) by (simp add: policies_bounded_def)
    with Some show ?thesis
      by (simp add: resolve_simps in_bounds_def policy_bounds_def MIN_MAX_ATTEMPTS_def)
  qed (use assms(2,3) in \<open>simp add: resolve_simps\<close>)
  then show "1 \<le> max_attempts c d ty" "max_attempts c d ty \<le> MAX_MAX_ATTEMPTS" by simp_all
qed

lemma attempts_in_step:
  assumes "policies_bounded d" "cf_max_attempts c \<le> MAX_MAX_ATTEMPTS" "1 \<le> cf_max_attempts c"
    and "row_step c d t u" "task_ok t" "attempts_in t"
  shows "attempts_in u"
  using assms(4)
proof cases
  case (reclaimed now rnd)
  have "tk_status t \<notin> TERMINAL_STATES"
    using live_not_terminal overdue_live [OF reclaimed(2)] by blast
  with assms(6) have "tk_attempt t < MAX_MAX_ATTEMPTS" by (simp add: attempts_in_def)
  with max_attempts_range(2) [OF assms(1,3,2), of "tk_type t"] show ?thesis
    by (auto simp: attempts_in_def reclaimed reclaim_stamp_def exhausted_def)
qed (use assms(6) live_not_terminal in \<open>auto simp: attempts_in_def claim_stamp_def cancel_stamp_def
      renew_stamp_def shorten_stamp_def unlink_results_def\<close>)

definition attempts_capped :: "settings \<Rightarrow> task_row \<Rightarrow> bool" where
  "attempts_capped c t \<longleftrightarrow>
     (1 \<le> cf_max_attempts c \<and> cf_max_attempts c \<le> MAX_MAX_ATTEMPTS \<longrightarrow> attempts_in t)"

interpretation attempt_cap: row_invariant c policies_bounded "attempts_capped c" for c
proof unfold_locales
  show "policies_bounded empty_db"
    by (simp add: policies_bounded_def stored_policy_def find_policy_def empty_db_def)
  show "policies_bounded e" if "step c d e" "db_ok d" "policies_bounded d" for d e
    using policies_bounded_step that by blast
  show "attempts_capped c t" if "newborn t" for t
    using that by (simp add: newborn_def attempts_capped_def attempts_in_def MAX_MAX_ATTEMPTS_def)
  show "attempts_capped c u"
    if "policies_bounded d" "row_step c d t u" "task_ok t" "attempts_capped c t" for d t u
    using attempts_in_step [OF that(1) _ _ that(2,3)] that(4) by (simp add: attempts_capped_def)
qed

end
