(* ===== verification/LeaseProperties.thy ===== *)
theory LeaseProperties
  imports ReachedExamples RowSteps
begin

text \<open>
  What the lease engine promises: a renewal never outlives the deadline, a closed
  socket only ever shortens, the reclaimer takes exactly the overdue tasks and either
  retries or ends them, the backoff stays inside its bound, attempts are bounded in
  every reachable database, and a task that is never finished is always recovered.
\<close>

subsection \<open>Renewal and shortening\<close>

lemma find_map_tasks_mem:
  "db_ok d \<Longrightarrow> t \<in> set (db_tasks d) \<Longrightarrow> (\<And>t. tk_id (f t) = tk_id t) \<Longrightarrow>
   find_task (map_tasks p f d) (tk_id t) = Some (if p t then f t else t)"
  using find_task_unique [OF db_ok_distinct] by (simp add: find_task_map_tasks)

text \<open>
  Renewing a lease works for the worker that holds the task while it is live, and
  for nobody else: then the lease is moved to one lease time from now but never past
  the execution deadline. Otherwise nothing changes, and in either case no other task
  and no other column but the update time does.
\<close>

theorem renew_lease_capped:
  assumes "db_ok d" and "renew_lease c (uuid_str i) w now d = (done, e)"
  shows "(done \<longleftrightarrow> (\<exists>t. find_task d i = Some t \<and> tk_worker t = Some w \<and> live_status (tk_status t)))
    \<and> (\<not> done \<longrightarrow> e = d)
    \<and> (\<forall>t \<in> set (db_tasks d). \<exists>u. find_task e (tk_id t) = Some u
         \<and> (if done \<and> tk_id t = i
            then u = t\<lparr>tk_lease := tk_lease u, tk_updated_at := now\<rparr>
              \<and> (\<exists>l. tk_lease u = Some l \<and> l \<le> now + of_int (cf_lease_ttl c)
                   \<and> (\<forall>dl. tk_deadline t = Some dl \<longrightarrow> l \<le> dl)
                   \<and> (l = now + of_int (cf_lease_ttl c) \<or> tk_deadline t = Some l))
            else u = t))"
proof -
  let ?p = "\<lambda>t. tk_id t = i \<and> held_live w t"
  have e: "e = map_tasks ?p (renew_stamp c now) d"
    and dn: "done \<longleftrightarrow> (\<exists>t \<in> set (db_tasks d). ?p t)"
    using assms(2) by (auto simp: renew_lease_def parse_uuid_str)
  have one: "(\<exists>t \<in> set (db_tasks d). ?p t) \<longleftrightarrow> (\<exists>t. find_task d i = Some t \<and> held_live w t)"
    using find_task_mem find_task_unique [OF db_ok_distinct [OF assms(1)]] by blast
  have same: "\<not> done \<Longrightarrow> e = d"
    unfolding e map_tasks_def using dn by (subst update_where_id) auto
  have upd: "find_task e (tk_id t) = Some (if ?p t then renew_stamp c now t else t)"
    if "t \<in> set (db_tasks d)" for t
    unfolding e by (rule find_map_tasks_mem [OF assms(1) that]) simp
  have held: "held_live w t" if "t \<in> set (db_tasks d)" "done" "tk_id t = i" for t
  proof -
    obtain s where "find_task d i = Some s" "held_live w s" using dn one \<open>done\<close> by blast
    then show ?thesis
      using find_task_unique [OF db_ok_distinct [OF assms(1)] \<open>t \<in> set (db_tasks d)\<close>] \<open>tk_id t = i\<close>
      by simp
  qed
  have lease: "\<exists>l. tk_lease (renew_stamp c now t) = Some l \<and> l \<le> now + of_int (cf_lease_ttl c)
      \<and> (\<forall>dl. tk_deadline t = Some dl \<longrightarrow> l \<le> dl)
      \<and> (l = now + of_int (cf_lease_ttl c) \<or> tk_deadline t = Some l)" for t
    by (cases "tk_deadline t") (auto simp: renew_stamp_def renewal_target_def secs_def min_def)
  have "\<exists>u. find_task e (tk_id t) = Some u \<and> (if done \<and> tk_id t = i
      then u = t\<lparr>tk_lease := tk_lease u, tk_updated_at := now\<rparr>
        \<and> (\<exists>l. tk_lease u = Some l \<and> l \<le> now + of_int (cf_lease_ttl c)
             \<and> (\<forall>dl. tk_deadline t = Some dl \<longrightarrow> l \<le> dl)
             \<and> (l = now + of_int (cf_lease_ttl c) \<or> tk_deadline t = Some l))
      else u = t)" if t: "t \<in> set (db_tasks d)" for t
  proof (cases "done \<and> tk_id t = i")
    case True
    then have "find_task e (tk_id t) = Some (renew_stamp c now t)"
      using upd [OF t] held [OF t] by simp
    moreover have "renew_stamp c now t =
        t\<lparr>tk_lease := tk_lease (renew_stamp c now t), tk_updated_at := now\<rparr>"
      by (simp add: renew_stamp_def)
    ultimately show ?thesis using True lease [of t] by simp
  next
    case False
    then have np: "\<not> ?p t" using t dn by blast
    have "find_task e (tk_id t) = Some t" using upd [OF t] unfolding if_not_P [OF np] .
    then show ?thesis using False by auto
  qed
  then show ?thesis
    using dn one same by (auto simp: held_live_def)
qed

lemma ex_renew: "renew_lease default_settings (uuid_str 10) 1 90 ex_running =
    (True, map_tasks (\<lambda>t. tk_id t = 10 \<and> held_live 1 t) (renew_stamp default_settings 90) ex_running)"
  by (simp add: renew_lease_def held_live_def parse_uuid_str)

theorem renew_lease_capped_witness:
  "\<exists>u l. find_task (map_tasks (\<lambda>t. tk_id t = 10 \<and> held_live 1 t) (renew_stamp default_settings 90) ex_running) 10
       = Some u \<and> tk_lease u = Some l \<and> l \<le> 120"
  using renew_lease_capped [OF ex_running_ok ex_renew] by auto

text \<open>
  Observing a closed socket cuts the leases of that worker's live tasks to the
  grace period and never extends one; observing it again later, with the same grace,
  leaves every lease where the first cut put it; tasks of other workers and finished
  tasks are untouched.
\<close>

theorem shorten_only_shortens:
  assumes "db_ok d" and "shorten_worker_leases w grace now d = (n, e)"
    and "shorten_worker_leases w grace later e = (m, f)" "now \<le> later" "t \<in> set (db_tasks d)"
  shows "\<exists>u v. find_task e (tk_id t) = Some u \<and> find_task f (tk_id t) = Some v
    \<and> tk_lease v = tk_lease u \<and> n = m
    \<and> (if tk_worker t = Some w \<and> live_status (tk_status t)
       then (\<exists>l. tk_lease u = Some l \<and> l \<le> now + of_int grace
               \<and> (\<forall>k. tk_lease t = Some k \<longrightarrow> l \<le> k \<and> (l = k \<or> l = now + of_int grace)))
       else u = t \<and> v = t)"
proof -
  have e: "e = map_tasks (held_live w) (shorten_stamp grace now) d"
    and f: "f = map_tasks (held_live w) (shorten_stamp grace later) e"
    and nm: "n = length (filter (held_live w) (db_tasks d))" "m = length (filter (held_live w) (db_tasks e))"
    using assms(2,3) by (auto simp: shorten_worker_leases_def)
  let ?u = "if held_live w t then shorten_stamp grace now t else t"
  have held: "held_live w (shorten_stamp g x s) = held_live w s" for g x s
    by (simp add: held_live_def shorten_stamp_def)
  have hu: "held_live w ?u = held_live w t" by (simp add: held)
  have "filter (held_live w) (db_tasks e) = map (shorten_stamp grace now) (filter (held_live w) (db_tasks d))"
    by (simp add: e map_tasks_def filter_update_where held)
  then have "n = m" by (simp add: nm)
  moreover have "find_task e (tk_id t) = Some ?u"
    unfolding e by (rule find_map_tasks_mem [OF assms(1,5)]) simp
  moreover have "find_task f (tk_id t) = Some (if held_live w t then shorten_stamp grace later ?u else ?u)"
    unfolding f using calculation(2) hu by (simp add: find_task_map_tasks)
  moreover have "least_opt (later + secs grace) (Some (least_opt (now + secs grace) (tk_lease t)))
      = least_opt (now + secs grace) (tk_lease t)"
    using assms(4) by (cases "tk_lease t") (auto simp: min_def)
  ultimately show ?thesis
    by (auto simp: shorten_stamp_def held_live_def secs_def min_def split: if_splits option.splits)
      (cases "tk_lease t"; auto simp: min_def)+
qed

theorem shorten_only_shortens_witness:
  "\<exists>u l. find_task (snd (shorten_worker_leases 1 15 50 ex_running)) 10 = Some u
     \<and> tk_lease u = Some l \<and> l \<le> 65"
  using shorten_only_shortens [OF ex_running_ok prod.collapse [symmetric] prod.collapse [symmetric],
      of 50 60 ex_running_task 1 15]
  by auto

subsection \<open>Reclaiming\<close>

lemma lease_key_overdue: "overdue now t \<Longrightarrow> lease_key t = the (tk_lease t)"
  by (auto simp: overdue_def lease_key_def)

lemma expired_list_sorted: "sorted (map (\<lambda>t. the (tk_lease t)) (expired_list batch locked now d))"
proof -
  have "map (\<lambda>t. the (tk_lease t)) (expired_list batch locked now d) = map lease_key (expired_list batch locked now d)"
    by (rule map_cong) (auto dest!: expired_list_mem simp: lease_key_overdue)
  then show ?thesis by (simp add: expired_list_def take_map [symmetric] sorted_wrt_take)
qed

lemma expired_list_first:
  assumes "t \<in> set (expired_list batch locked now d)"
    and "u \<in> set (db_tasks d)" "overdue now u" "tk_id u \<notin> locked" "u \<notin> set (expired_list batch locked now d)"
  shows "the (tk_lease t) \<le> the (tk_lease u)"
proof -
  let ?s = "sort_key lease_key (filter (\<lambda>t. overdue now t \<and> tk_id t \<notin> locked) (db_tasks d))"
  let ?n = "nat batch"
  have "u \<in> set ?s" using assms(2-4) by simp
  then have "u \<in> set (take ?n ?s) \<union> set (drop ?n ?s)" by (metis append_take_drop_id set_append)
  with assms(5) have "u \<in> set (drop ?n ?s)" by (simp add: expired_list_def)
  moreover have "sorted (map lease_key (take ?n ?s @ drop ?n ?s))" by simp
  ultimately have "lease_key t \<le> lease_key u"
    using assms(1) unfolding map_append sorted_append by (auto simp: expired_list_def)
  then show ?thesis using expired_list_mem [OF assms(1)] assms(3)
    by (simp add: lease_key_overdue [of now])
qed

lemma expired_list_distinct: "db_ok d \<Longrightarrow> distinct (map tk_id (expired_list batch locked now d))"
  using db_ok_distinct [of d] unfolding expired_list_def
  by (auto simp: distinct_map intro!: distinct_take inj_on_subset [of tk_id "set (db_tasks d)"] dest: in_set_takeD)

text \<open>
  C21: The reclaimer takes overdue live tasks that are not locked, as many as the batch
  allows, in the order their leases ran out: one it leaves behind expired no earlier than any
  it takes. Each goes back to the queue with its next attempt number, the worker that lost it
  excluded and a random share of its exponential backoff to wait, or becomes FAILED when its
  attempts are used up; the columns of its holder are cleared and no other column changes.
  Exactly one attempt row is written for each, naming the worker that lost it, the attempt
  that ended, whether it was reassigned or exhausted, and the clock that ran out. No other
  row of any table changes.
\<close>

theorem reclaim_exact:
  assumes "db_ok d" and "reclaim_expired_leases c batch locked rnd ids now d = Inr (rows, e)"
  shows "length rows = min (nat batch)
      (length (filter (\<lambda>t. overdue now t \<and> tk_id t \<notin> locked) (db_tasks d)))
    \<and> distinct (map (\<lambda>r. tk_id (rc_task r)) rows) \<and> sorted (map (\<lambda>r. the (rc_expired_at r)) rows)
    \<and> (\<forall>k < length rows. \<exists>t \<in> set (db_tasks d). overdue now t \<and> tk_id t \<notin> locked
         \<and> (\<forall>u \<in> set (db_tasks d). overdue now u \<and> tk_id u \<notin> locked
              \<and> tk_id u \<notin> (\<lambda>r. tk_id (rc_task r)) ` set rows \<longrightarrow> the (tk_lease t) \<le> the (tk_lease u))
         \<and> (let used_up = max_attempts c d (tk_type t) \<le> tk_attempt t + 1 in
              rc_task (rows ! k) = t\<lparr>tk_status := (if used_up then FAILED else QUEUED),
                tk_worker := None, tk_assigned_at := None, tk_started_at := None,
                tk_lease := None, tk_deadline := None, tk_attempt := tk_attempt t + 1,
                tk_excluded := (if used_up then None else tk_worker t),
                tk_not_before := (if used_up then None else Some (now + rnd (tk_id t)
                  * min (cf_backoff_max c) (cf_backoff_base c * cf_backoff_factor c ^ nat (tk_attempt t)))),
                tk_updated_at := now\<rparr>
            \<and> db_attempts e ! (length (db_attempts d) + k) = \<lparr>at_id = ids k, at_task = tk_id t,
                at_number = tk_attempt t, at_worker = tk_worker t,
                at_outcome = (if used_up then EXHAUSTED_OUTCOME else REASSIGNED_OUTCOME),
                at_reason = Some (if \<exists>dl. tk_deadline t = Some dl \<and> dl \<le> now
                  then REASON_DEADLINE_EXCEEDED else REASON_LEASE_EXPIRED),
                at_correlation = Some (tk_correlation t), at_recorded_at = now\<rparr>)
         \<and> find_task e (tk_id t) = Some (rc_task (rows ! k)))
    \<and> length (db_attempts e) = length (db_attempts d) + length rows
    \<and> take (length (db_attempts d)) (db_attempts e) = db_attempts d
    \<and> (\<forall>t \<in> set (db_tasks d). tk_id t \<notin> (\<lambda>r. tk_id (rc_task r)) ` set rows \<longrightarrow>
         find_task e (tk_id t) = Some t)
    \<and> map tk_id (db_tasks e) = map tk_id (db_tasks d)
    \<and> db_results e = db_results d \<and> db_workers e = db_workers d \<and> db_policies e = db_policies d"
    (is "_ \<and> _ \<and> _ \<and> (\<forall>k < _. \<exists>t \<in> _. ?taken k t) \<and> _")
proof (intro conjI allI ballI impI)
  let ?ex = "expired_list batch locked now d"
  note rows = reclaim_Inr(2) [OF assms(2)] and att = reclaim_Inr(4) [OF assms(2)]
  have ids: "(\<lambda>r. tk_id (rc_task r)) ` set rows = tk_id ` set ?ex"
    by (auto simp: rows reclaimed_of_def image_image reclaim_stamp_def)
  have find: "find_task e (tk_id t) =
      Some (if tk_id t \<in> tk_id ` set ?ex then reclaim_stamp c d rnd now t else t)"
    if t: "t \<in> set (db_tasks d)" for t
    using find_task_unique [OF db_ok_distinct [OF assms(1)] t]
    by (simp add: find_task_def reclaim_Inr(3) [OF assms(2)] find_update_where)
  show "length rows = min (nat batch)
      (length (filter (\<lambda>t. overdue now t \<and> tk_id t \<notin> locked) (db_tasks d)))"
    by (simp add: rows expired_list_length)
  show "distinct (map (\<lambda>r. tk_id (rc_task r)) rows)"
    using expired_list_distinct [OF assms(1)] by (simp add: rows comp_def reclaimed_of_def reclaim_stamp_def)
  show "sorted (map (\<lambda>r. the (rc_expired_at r)) rows)"
    using expired_list_sorted by (simp add: rows comp_def reclaimed_of_def)
  show "length (db_attempts e) = length (db_attempts d) + length rows"
    "take (length (db_attempts d)) (db_attempts e) = db_attempts d"
    by (simp_all add: att)
  show "find_task e (tk_id t) = Some t"
    if "t \<in> set (db_tasks d)" "tk_id t \<notin> (\<lambda>r. tk_id (rc_task r)) ` set rows" for t
    using find [OF that(1)] that(2) by (simp add: ids)
  show "map tk_id (db_tasks e) = map tk_id (db_tasks d)"
    by (simp add: reclaim_Inr(3) [OF assms(2)] update_where_def reclaim_stamp_def)
  show "db_results e = db_results d" "db_workers e = db_workers d" "db_policies e = db_policies d"
    by (rule reclaim_Inr(5-7) [OF assms(2)])+
  fix k assume k: "k < length rows"
  let ?t = "?ex ! k"
  have t: "?t \<in> set ?ex" and r: "rows ! k = reclaimed_of c d rnd now ?t"
    using k by (simp_all add: rows)
  have a: "db_attempts e ! (length (db_attempts d) + k) = expiry_attempt (ids k) now (rows ! k)"
    using k by (simp add: att nth_append nth_enumerate_eq)
  have first: "the (tk_lease ?t) \<le> the (tk_lease u)"
    if "u \<in> set (db_tasks d)" "overdue now u" "tk_id u \<notin> locked" "tk_id u \<notin> tk_id ` set ?ex" for u
    by (rule expired_list_first [OF t that(1-3)]) (use that(4) in blast)
  show "\<exists>t \<in> set (db_tasks d). ?taken k t"
    using expired_list_mem [OF t] find [of ?t] t first
    by (intro bexI [of _ ?t])
      (simp_all add: a r ids Let_def reclaimed_of_def expiry_attempt_def reclaim_stamp_def exhausted_def
        retry_backoff_def opt_cmp_iff)
qed

lemma ex_reclaim: "reclaim_expired_leases default_settings 100 {} (\<lambda>_. 1 / 2) (\<lambda>_. 30) 130 ex_running =
    Inr ([reclaimed_of default_settings ex_running (\<lambda>_. 1 / 2) 130 ex_running_task],
      (map_tasks (\<lambda>t. tk_id t = 10) (reclaim_stamp default_settings ex_running (\<lambda>_. 1 / 2) 130) ex_running)
        \<lparr>db_attempts := [expiry_attempt 30 130
           (reclaimed_of default_settings ex_running (\<lambda>_. 1 / 2) 130 ex_running_task)]\<rparr>)"
proof -
  have "expired_list 100 {} 130 ex_running = [ex_running_task]"
    by (simp add: expired_list_def overdue_def)
  moreover have "db_attempts ex_running = []" by (simp add: ex_running_def)
  ultimately show ?thesis by (simp add: reclaim_expired_leases_def Let_def)
qed

theorem reclaim_exact_witness:
  "length [reclaimed_of default_settings ex_running (\<lambda>_. 1 / 2) 130 ex_running_task] = min (nat 100)
     (length (filter (\<lambda>t. overdue 130 t \<and> tk_id t \<notin> {}) (db_tasks ex_running)))"
  using reclaim_exact [OF ex_running_ok ex_reclaim] by blast

text \<open>
  With full jitter the backoff of a retried task lies between now and now plus
  the configured ceiling, and within the exponential bound of its attempt; the task
  is queued, unassigned and kept from the worker that lost it.
\<close>

theorem retry_backoff_bounded:
  assumes "db_ok d" and "reclaim_expired_leases c batch locked rnd ids now d = Inr (rows, e)"
    and "sane_settings c" and "\<forall>i. 0 \<le> rnd i \<and> rnd i < 1"
    and "r \<in> set rows" "tk_status (rc_task r) = QUEUED"
  shows "\<exists>b. tk_not_before (rc_task r) = Some b \<and> now \<le> b \<and> b \<le> now + cf_backoff_max c
    \<and> b \<le> now + cf_backoff_base c * cf_backoff_factor c ^ nat (tk_attempt (rc_task r) - 1)
    \<and> unassigned (rc_task r) \<and> tk_excluded (rc_task r) = rc_previous_worker r
    \<and> rc_previous_worker r \<noteq> None"
proof -
  obtain t where t: "t \<in> set (expired_list batch locked now d)" "r = reclaimed_of c d rnd now t"
    using assms(5) by (auto simp: reclaim_Inr(2) [OF assms(2)])
  have live: "live_status (tk_status t)" and mem: "t \<in> set (db_tasks d)"
    using expired_list_mem [OF t(1)] overdue_live by auto
  have ne: "\<not> exhausted c d t"
    using assms(6) by (auto simp: t(2) reclaimed_of_def reclaim_stamp_def)
  let ?m = "min (cf_backoff_max c) (cf_backoff_base c * cf_backoff_factor c ^ nat (tk_attempt t))"
  have m: "0 \<le> ?m" using assms(3) by (simp add: sane_settings_def)
  have x: "0 \<le> rnd (tk_id t)" "rnd (tk_id t) \<le> 1" using assms(4) by (auto intro: less_imp_le)
  have "0 \<le> retry_backoff c (rnd (tk_id t)) t" "retry_backoff c (rnd (tk_id t)) t \<le> ?m"
    using mult_nonneg_nonneg [OF x(1) m] mult_left_le_one_le [OF m x] by (simp_all add: retry_backoff_def)
  moreover have "leased t" by (rule task_ok_live [OF db_ok_task [OF assms(1) mem] live])
  ultimately show ?thesis
    using ne by (auto simp: t(2) reclaimed_of_def reclaim_stamp_def unassigned_def leased_def)
qed

theorem retry_backoff_bounded_witness:
  "\<exists>b. tk_not_before (reclaim_stamp default_settings ex_running (\<lambda>_. 1 / 2) 130 ex_running_task) = Some b
     \<and> 130 \<le> b \<and> b \<le> 190"
proof -
  have q: "tk_status (rc_task (reclaimed_of default_settings ex_running (\<lambda>_. 1 / 2) 130 ex_running_task)) = QUEUED"
    by (simp add: reclaimed_of_def reclaim_stamp_def exhausted_def resolve_simps stored_policy_def
        find_policy_def ex_running_def default_settings_def)
  show ?thesis
    using retry_backoff_bounded [OF ex_running_ok ex_reclaim sane_default _ _ q]
    by (simp add: reclaimed_of_def default_settings_def) blast
qed

subsection \<open>Recovery\<close>

text \<open>
  C22: In every reachable database a running task has a lease that ends no later than
  its execution deadline, so once the deadline has passed the task is overdue: no
  stream of renewals keeps a hung execution alive.
\<close>

theorem running_lease_capped:
  assumes "reachable c d" and "t \<in> set (db_tasks d)" "tk_status t = RUNNING"
  shows "\<exists>l dl. tk_lease t = Some l \<and> tk_deadline t = Some dl \<and> l \<le> dl
    \<and> (\<forall>now > dl. overdue now t)"
proof -
  obtain l dl where "tk_lease t = Some l" "tk_deadline t = Some dl" "l \<le> dl"
    using lease_cap.reachable_inv [OF assms(1,2)] assms(3) by (auto simp: capped_def)
  then show ?thesis using assms(3) by (auto simp: overdue_def)
qed

theorem running_lease_capped_witness:
  "\<exists>l dl. tk_lease ex_started_task = Some l \<and> tk_deadline ex_started_task = Some dl \<and> l \<le> dl"
  using running_lease_capped [OF ex_started_reachable ex_started_mem] by auto

text \<open>
  A reclaim pass whose batch covers the backlog and that finds no row locked
  leaves no overdue task behind, whoever holds it and whatever its worker reported.
\<close>

theorem reclaim_drains:
  assumes "db_ok d" and "reclaim_expired_leases c batch {} rnd ids now d = Inr (rows, e)"
    and "int (expired_lease_count now d) \<le> batch"
  shows "expired_lease_count now e = 0"
proof -
  have all: "set (expired_list batch {} now d) = {t \<in> set (db_tasks d). overdue now t}"
  proof -
    have "length (filter (overdue now) (db_tasks d)) \<le> nat batch"
      using assms(3) by (simp add: expired_lease_count_def)
    then show ?thesis by (simp add: expired_list_def take_all)
  qed
  have "\<not> overdue now u" if mem: "u \<in> set (db_tasks e)" for u
  proof -
    obtain t where t: "t \<in> set (db_tasks d)" and u: "u = (if tk_id t \<in> tk_id ` set (expired_list batch {} now d)
        then reclaim_stamp c d rnd now t else t)"
      using mem unfolding reclaim_Inr(3) [OF assms(2)] set_update_where by blast
    show ?thesis
      using t all by (auto simp: u overdue_def reclaim_stamp_def)
  qed
  then show ?thesis by (simp add: expired_lease_count_def filter_empty_conv)
qed

theorem reclaim_drains_witness:
  "expired_lease_count 130 ((map_tasks (\<lambda>t. tk_id t = 10)
      (reclaim_stamp default_settings ex_running (\<lambda>_. 1 / 2) 130) ex_running)
        \<lparr>db_attempts := [expiry_attempt 30 130
           (reclaimed_of default_settings ex_running (\<lambda>_. 1 / 2) 130 ex_running_task)]\<rparr>) = 0"
  using reclaim_drains [OF ex_running_ok ex_reclaim]
  by (simp add: expired_lease_count_def overdue_def)

text \<open>
  C23: With a configured cap in the operator's range, no task ever exceeds 100 attempts,
  in any database any sequence of statements and policy changes can reach, and a task
  that is not finished still has one left.
\<close>

theorem attempts_bounded:
  assumes "reachable c d" and "1 \<le> cf_max_attempts c" "cf_max_attempts c \<le> 100"
    and "t \<in> set (db_tasks d)"
  shows "0 \<le> tk_attempt t \<and> tk_attempt t \<le> 100
    \<and> (tk_status t \<notin> TERMINAL_STATES \<longrightarrow> tk_attempt t < 100)"
  using attempt_cap.reachable_inv [OF assms(1,4)] assms(2,3)
    db_ok_task [OF reachable_ok [OF assms(1)] assms(4)]
  by (simp add: attempts_capped_def attempts_in_def MAX_MAX_ATTEMPTS_def task_ok_def)

theorem attempts_bounded_witness: "tk_attempt ex_started_task < 100"
  using attempts_bounded [OF ex_started_reachable _ _ ex_started_mem]
  by (simp add: default_settings_def)

end
