(* ===== verification/CompletionProperties.thy ===== *)
theory CompletionProperties
  imports ReachedExamples
begin

text \<open>
  What completing a task promises: a result is accepted exactly from the worker that
  holds the live task at its current attempt, and then the result and the status are
  one change; every other answer leaves tasks and results alone; submitting twice,
  at any later time, never has a second effect.
\<close>

lemma complete_task_at:
  "envelope_for env i n epoch token \<Longrightarrow> complete_task rp env w rid aid now d =
     (case find_task d i of None \<Rightarrow> Inr (NOT_FOUND, d)
      | Some t \<Rightarrow> complete_locked env w rid aid t now d)"
  by (auto simp: envelope_for_def dict_get_def complete_task_def parse_uuid_str
      split: option.splits)

lemma envelope_for_get:
  assumes "envelope_for env i n epoch token"
  shows "dict_get env ''attempt_number'' = PInt n" "dict_get env ''idempotency_token'' = PStr token"
    "token \<noteq> []"
  using assms by (simp_all add: envelope_for_def)

lemma stored_token_envelope: "envelope_for env i n epoch token \<Longrightarrow> stored_token env = Some token"
  by (simp add: stored_token_def envelope_for_get)

lemma complete_cases:
  assumes ok: "db_ok d" and env: "envelope_for env i n epoch token"
    and c: "complete_task rp env w rid aid now d = Inr (out, e)"
  obtains (absent) "find_task d i = None" "out = NOT_FOUND" "e = d"
  | (terminal) t where "find_task d i = Some t" "tk_status t \<in> TERMINAL_STATES"
      "out = terminal_result_outcome d (tk_result t) (PStr token)" "e = d"
  | (stored) t d' where "find_task d i = Some t" "tk_id t = i" "live_status (tk_status t)"
      "tk_worker t = Some w" "tk_attempt t = n" "out = TRANSITIONED"
      "insert_result rid env now d = Inr d'" "e = set_task i (complete_stamp rid now) d'"
  | (refused) t where "find_task d i = Some t" "tk_status t \<notin> TERMINAL_STATES" "out = NOT_OWNER"
      "e = d" "tk_worker t \<noteq> Some w"
  | (fenced) t reason where "find_task d i = Some t" "tk_status t \<notin> TERMINAL_STATES"
      "out = FENCED" "record_fence aid t (PInt n) w reason now d = Inr e"
      "ever_held d i w (tk_worker t)" "tk_worker t \<noteq> Some w \<or> tk_attempt t \<noteq> n" "tk_id t = i"
proof (cases "find_task d i")
  case None
  with c have "out = NOT_FOUND" "e = d" by (simp_all add: complete_task_at [OF env])
  with None show ?thesis by (rule that(1))
next
  case (Some t)
  have cl: "complete_locked env w rid aid t now d = Inr (out, e)"
    using c Some by (simp add: complete_task_at [OF env])
  have ti: "tk_id t = i" using find_task_mem [OF Some] by simp
  note get = envelope_for_get(1) [OF env] and tok = envelope_for_get(2) [OF env]
  show ?thesis
    using db_ok_find [OF ok Some] cl
  proof (cases rule: complete_locked_cases)
    case terminal: terminal
    have "out = terminal_result_outcome d (tk_result t) (PStr token)"
      using cl by (auto simp: complete_locked_terminal [OF terminal(1)] tok)
    then show ?thesis using terminal by (intro that(2) [OF Some])
  next
    case (stored d')
    have "tk_attempt t = n" using stored(3) by (simp add: get)
    then show ?thesis using stored ti by (intro that(3) [OF Some ti, of d']) simp_all
  next
    case refused
    have "tk_worker t \<noteq> Some w" using refused(4) by (simp add: ever_held_def)
    then show ?thesis using refused by (intro that(4) [OF Some])
  next
    case (fenced reason)
    have "tk_worker t \<noteq> Some w \<or> tk_attempt t \<noteq> n" using fenced(5) by (auto simp: get)
    then show ?thesis using fenced ti by (intro that(5) [OF Some, of reason]) (auto simp: get)
  qed
qed

subsection \<open>Acceptance\<close>

text \<open>
  C3: A submitted result is accepted exactly when its sender holds the task, the task
  is still assigned or running, and the attempt it names is the current one. Then one
  transaction stores the envelope and makes the task COMPLETED with its lease, deadline
  and retry columns cleared, and no other task changes.
\<close>

theorem complete_accepts_holder:
  assumes "db_ok d" and "envelope_for env i n epoch token"
    and "complete_task rp env w rid aid now d = Inr (out, e)"
  shows "(out = TRANSITIONED \<longleftrightarrow> (\<exists>t. find_task d i = Some t \<and> live_status (tk_status t)
           \<and> tk_worker t = Some w \<and> tk_attempt t = n))
    \<and> (out = TRANSITIONED \<longrightarrow> (\<exists>u r. find_task e i = Some u \<and> tk_status u = COMPLETED
         \<and> tk_result u = Some rid \<and> tk_completed_at u = Some now \<and> tk_started_at u \<noteq> None
         \<and> settled u \<and> tk_not_before u = None \<and> tk_excluded u = None
         \<and> find_result d rid = None \<and> find_result e rid = Some r \<and> rs_payload r = env
         \<and> rs_submitted_at r = now)
       \<and> db_attempts e = db_attempts d
       \<and> (\<forall>j. j \<noteq> i \<longrightarrow> find_task e j = find_task d j))"
  using assms
proof (cases rule: complete_cases)
  case (terminal t)
  then show ?thesis
    using terminal_outcome_range [of d "tk_result t" "PStr token"] live_not_terminal by auto
next
  case (stored t d')
  obtain m where new: "rid \<notin> rs_id ` set (db_results d)"
    and d': "d' = d\<lparr>db_results := db_results d @ [\<lparr>rs_id = rid, rs_payload = env,
          rs_size_bytes = m, rs_submitted_at = now\<rparr>]\<rparr>"
    using insert_result_Inr [OF stored(7)] by blast
  have "find_result d rid = None" using new by (auto simp: find_result_def find_None_iff)
  moreover have "find_task e i = Some (complete_stamp rid now t)"
    using stored(1) by (simp add: stored(8) d' find_task_set_task)
  moreover have "find_task e j = find_task d j" if "j \<noteq> i" for j
    using that by (simp add: stored(8) d' find_task_set_task)
  moreover have "find_result e rid = Some \<lparr>rs_id = rid, rs_payload = env, rs_size_bytes = m,
      rs_submitted_at = now\<rparr>"
    using \<open>find_result d rid = None\<close> by (simp add: find_result_def stored(8) d' find_snoc)
  ultimately show ?thesis
    using stored by (auto simp: d' complete_stamp_def settled_def)
next
  case (fenced t reason)
  then show ?thesis by auto
qed auto

definition ex_envelope :: "int \<Rightarrow> pydict" where
  "ex_envelope n = base_envelope (uuid_str 10) COMPLETED n 3 ''token'' (Fin 2) PNone False PNone
     @ [(''size_bytes'', PInt 180)]"

lemma ex_envelope_for: "0 \<le> n \<Longrightarrow> envelope_for (ex_envelope n) 10 n 3 ''token''"
  by (simp add: envelope_for_def ex_envelope_def base_envelope_def dict_get_def MAX_TOKEN_CHARS_def)

lemma ex_running_results: "db_results ex_running = []" "db_results ex_started = []"
  by (simp_all add: ex_running_def ex_started_def ex_claimed_def ex_submitted_def ex_enrolled_def empty_db_def)

lemma ex_running_find: "find_task ex_running 10 = Some ex_running_task"
  by (simp add: find_task_def)

lemma no_nul_uuid: "no_nul (uuid_str i)"
proof -
  have "(of_char c :: nat) \<noteq> 0" if "is_hex c" for c
    using that by (auto simp: is_hex_def)
  then show ?thesis
    using hex_digits_is_hex [of 32] set_with_dashes [of "hex_digits 32 (unat i)"]
    by (auto simp: no_nul_def uuid_str_def)
qed

definition ex_stored :: "int \<Rightarrow> db \<Rightarrow> db" where
  "ex_stored n d = set_task 10 (complete_stamp 20 60) (d\<lparr>db_results := [\<lparr>rs_id = 20,
     rs_payload = ex_envelope n, rs_size_bytes = 180, rs_submitted_at = 60\<rparr>]\<rparr>)"

text \<open>The holder of task 10 submits its result at 60.\<close>

lemma ex_complete:
  assumes "find_task d 10 = Some t" "tk_status t = RUNNING" "tk_worker t = Some 1" "tk_attempt t = n"
    "0 \<le> n" "db_results d = []"
  shows "complete_task (\<lambda>_. []) (ex_envelope n) 1 20 21 60 d = Inr (TRANSITIONED, ex_stored n d)"
proof -
  have "insert_result 20 (ex_envelope n) 60 d = Inr (d\<lparr>db_results := [\<lparr>rs_id = 20,
     rs_payload = ex_envelope n, rs_size_bytes = 180, rs_submitted_at = 60\<rparr>]\<rparr>)"
    using assms(6) by (simp add: insert_result_def ex_envelope_def base_envelope_def bind_exn_def
        int4_ok_def no_nul_uuid) (simp add: no_nul_def COMPLETED_def)
  moreover have "tk_id t = 10" using find_task_mem [OF assms(1)] by simp
  ultimately show ?thesis
    using assms by (simp add: complete_task_at [OF ex_envelope_for [OF assms(5)]] complete_locked_live
        envelope_for_get [OF ex_envelope_for [OF assms(5)]] store_result_live bind_exn_def ex_stored_def)
qed

lemmas ex_complete_running = ex_complete [OF ex_running_find ex_running_sel(2,4,5) _ ex_running_results(1)]
lemmas ex_complete_started = ex_complete [OF ex_started_find ex_started_sel(1,3,4) _ ex_running_results(2)]

theorem complete_accepts_holder_witness:
  "\<exists>u r. find_task (ex_stored 1 ex_running) 10 = Some u \<and> tk_status u = COMPLETED
     \<and> find_result (ex_stored 1 ex_running) 20 = Some r \<and> rs_payload r = ex_envelope 1"
  using complete_accepts_holder [OF ex_running_ok ex_envelope_for ex_complete_running] by simp blast

subsection \<open>Refusal\<close>

lemma record_fence_int:
  "record_fence aid t (PInt n) w reason now d = Inr e \<Longrightarrow>
   e = d \<or> (0 \<le> n \<and> n \<le> tk_attempt t \<and> \<not> has_attempt d (tk_id t) w n FENCED_OUTCOME
     \<and> e = add_attempt (fence_row aid t n w reason now) d)"
  by (auto simp: record_fence_def split: if_splits)

lemma add_attempt_frame [simp, db_simps]:
  "db_tasks (add_attempt a d) = db_tasks d" "db_results (add_attempt a d) = db_results d"
  "db_workers (add_attempt a d) = db_workers d" "find_task (add_attempt a d) i = find_task d i"
  "db_attempts (add_attempt a d) = db_attempts d @ [a]"
  by (simp_all add: add_attempt_def)

text \<open>
  A submission that is not accepted writes no result and touches no task. At most it
  leaves one FENCED row in the attempt history, and only when its sender once held the
  task and the attempt it names was reached: never a second one for the same worker and
  attempt. A worker that never held the task is told so and leaves nothing.
\<close>

theorem complete_refusal_harmless:
  assumes "db_ok d" and "envelope_for env i n epoch token"
    and "complete_task rp env w rid aid now d = Inr (out, e)" "out \<noteq> TRANSITIONED"
  shows "db_tasks e = db_tasks d \<and> db_results e = db_results d
    \<and> (db_attempts e = db_attempts d \<or> (out = FENCED \<and> (\<exists>a t. find_task d i = Some t
         \<and> db_attempts e = db_attempts d @ [a] \<and> at_task a = i \<and> at_worker a = Some w
         \<and> at_number a = n \<and> 0 \<le> n \<and> n \<le> tk_attempt t \<and> at_outcome a = FENCED_OUTCOME
         \<and> ever_held d i w (tk_worker t) \<and> \<not> has_attempt d i w n FENCED_OUTCOME)))"
  using assms(1-3)
proof (cases rule: complete_cases)
  case (fenced t reason)
  from record_fence_int [OF fenced(4)] show ?thesis
  proof
    assume "0 \<le> n \<and> n \<le> tk_attempt t \<and> \<not> has_attempt d (tk_id t) w n FENCED_OUTCOME
      \<and> e = add_attempt (fence_row aid t n w reason now) d"
    with fenced show ?thesis by (auto simp: fence_row_def)
  qed simp
qed (use assms(4) in auto)


lemma ex_stale: "complete_task (\<lambda>_. []) (ex_envelope 0) 1 20 21 60 ex_running =
    Inr (FENCED, add_attempt (fence_row 21 ex_running_task 0 1 REASON_STALE_ATTEMPT 60) ex_running)"
proof -
  have "db_attempts ex_running = []" "worker_known ex_running (Some 1)"
    by (simp_all add: ex_running_def)
  then show ?thesis
    by (simp add: complete_task_at [OF ex_envelope_for [of 0, simplified]] ex_running_find
        complete_locked_live envelope_for_get [OF ex_envelope_for [of 0, simplified]]
        fence_or_refuse_def ever_held_def record_fence_def has_attempt_def bind_exn_def)
qed

theorem complete_refusal_harmless_witness:
  "db_tasks (add_attempt (fence_row 21 ex_running_task 0 1 REASON_STALE_ATTEMPT 60) ex_running)
     = db_tasks ex_running"
  using complete_refusal_harmless [OF ex_running_ok ex_envelope_for [of 0, simplified] ex_stale] by simp

subsection \<open>Exactly once\<close>

lemma completed_forever:
  assumes "reachable c e" "(step c)\<^sup>*\<^sup>* e f" "find_task e i = Some u" "tk_status u = COMPLETED"
  shows "\<exists>v. find_task f i = Some v \<and> frozen u v"
  using steps_find [OF assms(1-3)] assms(4) by (metis row_evolves_def TERMINAL_mem(1))

text \<open>
  C2: A completed task stays completed through everything that can happen to the
  database afterwards, and no later submission for it, by anyone and of any attempt,
  stores a second result: it is answered DUPLICATE or SUPERSEDED and changes nothing.
  Repeating the accepted submission at once is answered DUPLICATE.
\<close>

theorem completes_exactly_once:
  assumes "reachable c d" and "envelope_for env i n epoch token"
    and "complete_task rp env w rid aid now d = Inr (TRANSITIONED, e)" "(step c)\<^sup>*\<^sup>* e f"
  shows "(\<exists>v. find_task f i = Some v \<and> tk_status v = COMPLETED)
    \<and> (\<forall>env' n' epoch' token' rp' w' rid' aid' later. envelope_for env' i n' epoch' token' \<longrightarrow>
         complete_task rp' env' w' rid' aid' later f \<in> {Inr (DUPLICATE, f), Inr (SUPERSEDED, f)})
    \<and> complete_task rp env w rid' aid' later e = Inr (DUPLICATE, e)"
proof -
  have ok: "db_ok d" by (rule reachable_ok [OF assms(1)])
  have re: "reachable c e" by (rule reachable_step [OF assms(1) complete_step [OF assms(3)]])
  from ok assms(2,3) obtain u r where u: "find_task e i = Some u" "tk_status u = COMPLETED" "tk_result u = Some rid"
      and r: "find_result e rid = Some r" "rs_payload r = env"
  proof (cases rule: complete_cases)
    case (terminal t)
    then show ?thesis using terminal_outcome_range [of d "tk_result t" "PStr token"] by auto
  next
    case (stored t d')
    obtain m where new: "rid \<notin> rs_id ` set (db_results d)"
      and d': "d' = d\<lparr>db_results := db_results d @ [\<lparr>rs_id = rid, rs_payload = env,
          rs_size_bytes = m, rs_submitted_at = now\<rparr>]\<rparr>"
      using insert_result_Inr [OF stored(7)] by blast
    have "find (\<lambda>r. rs_id r = rid) (db_results d) = None" using new by (auto simp: find_None_iff)
    then show ?thesis
      using stored(1) by (intro that) (auto simp: stored(8) d' find_task_set_task find_result_def find_snoc)
  qed auto
  obtain v where v: "find_task f i = Some v" "tk_status v = COMPLETED"
    using completed_forever [OF re assms(4) u(1,2)] u(2) frozen_status by metis
  have "complete_task rp' env' w' rid' aid' later f \<in> {Inr (DUPLICATE, f), Inr (SUPERSEDED, f)}"
    if "envelope_for env' i n' epoch' token'" for env' n' epoch' token' rp' w' rid' aid' later
    using terminal_outcome_range [of f "tk_result v" "dict_get env' ''idempotency_token''"] v
    by (auto simp: complete_task_at [OF that] complete_locked_terminal)
  moreover have "complete_task rp env w rid' aid' later e = Inr (DUPLICATE, e)"
    using u r stored_token_envelope [OF assms(2)]
    by (simp add: complete_task_at [OF assms(2)] complete_locked_terminal terminal_result_outcome_def
        envelope_for_get [OF assms(2)])
  ultimately show ?thesis using v by blast
qed

theorem completes_exactly_once_witness:
  "complete_task (\<lambda>_. []) (ex_envelope 0) 1 30 31 90 (ex_stored 0 ex_started)
     = Inr (DUPLICATE, ex_stored 0 ex_started)"
  using completes_exactly_once [OF ex_started_reachable ex_envelope_for ex_complete_started
      rtranclp.rtrancl_refl] by simp

end
