(* ===== verification/ResultProperties.thy ===== *)
theory ResultProperties
  imports Results
begin

text \<open>
  What the validation of a submitted result promises: which submissions are accepted,
  what the envelope it stores says, and which exceptions a submission can raise.
\<close>

abbreviation submitted :: "pydict option \<Rightarrow> pydict" where
  "submitted p \<equiv> (case p of None \<Rightarrow> [] | Some d \<Rightarrow> d)"

text \<open>The submissions that are results, read off the fields alone.\<close>

definition acceptable_duration :: "pyval \<Rightarrow> bool" where
  "acceptable_duration v \<longleftrightarrow> (\<exists>n. v = PInt n \<and> 0 \<le> n \<and> n < float_limit)
     \<or> (\<exists>x. v = PFloat x \<and> \<not> negative_float x)"

definition acceptable :: "(pyval \<Rightarrow> string) \<Rightarrow> (rat \<Rightarrow> string) \<Rightarrow> pydict \<Rightarrow> bool" where
  "acceptable rp fr d \<longleftrightarrow> parse_uuid (get_str rp d ''task_id'' []) \<noteq> None
     \<and> get_str rp d ''status'' [] = COMPLETED
     \<and> (\<exists>s. dict_get d ''idempotency_token'' = PStr s \<and> s \<noteq> [] \<and> length s \<le> MAX_TOKEN_CHARS)
     \<and> acceptable_duration (dict_get d ''duration_seconds'')
     \<and> (\<exists>n. dict_get d ''attempt_number'' = PInt n \<and> 0 \<le> n)
     \<and> (\<exists>n. dict_get d ''session_epoch'' = PInt n \<and> 0 \<le> n)
     \<and> encodable fr (dict_get d ''result'')"

lemma require_duration_Inr: "require_duration d = Inr v \<longleftrightarrow> v = dict_get d ''duration_seconds''
    \<and> ((\<exists>n. v = PInt n \<and> 0 \<le> n) \<or> (\<exists>x. v = PFloat x \<and> \<not> negative_float x))"
  by (auto simp: require_duration_def split: pyval.splits)

lemma acceptable_duration_iff: "acceptable_duration (dict_get d ''duration_seconds'') \<longleftrightarrow>
    (\<exists>v x. require_duration d = Inr v \<and> py_float v = Inr x)"
proof -
  have "(\<exists>x. py_float (PInt n) = Inr x) \<longleftrightarrow> n < float_limit" if "0 \<le> n" for n
    using that by (auto simp: float_of_int_def)
  then show ?thesis
    unfolding require_duration_Inr acceptable_duration_def by fastforce
qed

lemma encodable_optional_int [simp]: "encodable fr (optional_int v)"
  by (cases v) auto

lemma base_envelope_encodable:
  "(\<exists>n. json_size fr (base_envelope i s a e t x r tr og) = Inr n) \<longleftrightarrow> encodable fr r"
  unfolding json_size_ok_iff by (auto simp: base_envelope_def)

lemma seal_accepts: "(\<exists>env. seal fr mb e = Inr env) \<longleftrightarrow> (\<exists>n. json_size fr e = Inr n)"
proof (cases "json_size fr e")
  case (Inr n)
  then obtain m where "json_size fr (stripped_envelope n e) = Inr m"
    using stripped_size by blast
  with Inr show ?thesis by (simp add: seal_total)
qed (simp add: seal_total)

text \<open>
  C25: A submission is accepted exactly when its task identifier is a UUID, it reports a
  completion, carries a non-empty token of at most 128 characters, a duration that is a
  non-negative number a float can hold, a non-negative attempt and epoch, and its body
  has a JSON form: whatever the size limit and whatever else it carries.
\<close>

theorem validate_accepts:
  "(\<exists>env. validate rp fr mb p = Inr env) \<longleftrightarrow> acceptable rp fr (submitted p)"
proof -
  let ?d = "submitted p"
  have "(\<exists>env. validate rp fr mb p = Inr env) \<longleftrightarrow>
    (\<exists>i s t v a e x. require_task_id rp ?d = Inr i \<and> require_status rp ?d = Inr s
      \<and> require_token ?d = Inr t \<and> require_duration ?d = Inr v
      \<and> require_int ?d ''attempt_number'' REJECT_BAD_ATTEMPT 0 = Inr a
      \<and> require_int ?d ''session_epoch'' REJECT_BAD_EPOCH 0 = Inr e \<and> py_float v = Inr x
      \<and> (\<exists>env. seal fr mb (base_envelope i s a e t x (dict_get ?d ''result'')
          (truthy (dict_get ?d ''truncated'')) (dict_get ?d ''original_size_bytes'')) = Inr env))"
    by (simp add: validate_def Let_def bind_exn_def split: sum.splits)
  then show ?thesis
    unfolding seal_accepts base_envelope_encodable acceptable_def acceptable_duration_iff
    by (auto simp: require_task_id_Inr require_status_Inr require_token_Inr require_int_Inr)
qed

text \<open>
  The stored envelope names the task in canonical form, the attempt, the epoch and
  the token of the submission; its size field is the length of the rest as JSON; and the
  body is kept as it was submitted, unless it made the envelope larger than the limit:
  then the body is null, the envelope says so, and it records the size it had.
\<close>

theorem validate_envelope:
  assumes "validate rp fr mb p = Inr env"
  shows "\<exists>i n epoch token. envelope_for env i n epoch token
    \<and> parse_uuid (get_str rp (submitted p) ''task_id'' []) = Some i
    \<and> dict_get (submitted p) ''attempt_number'' = PInt n
    \<and> dict_get (submitted p) ''session_epoch'' = PInt epoch
    \<and> dict_get (submitted p) ''idempotency_token'' = PStr token
    \<and> (\<exists>body m k. env = AList.update ''size_bytes'' (PInt m) body \<and> json_size fr body = Inr m
        \<and> (if k \<le> mb then k = m \<and> dict_get env ''result'' = dict_get (submitted p) ''result''
             \<and> dict_get env ''truncated'' = PBool (truthy (dict_get (submitted p) ''truncated''))
           else dict_get env ''result'' = PNone \<and> dict_get env ''truncated'' = PBool True
             \<and> dict_get env ''original_size_bytes'' = PInt k))"
  using assms
proof (rule validate_Inr)
  fix i token dur attempt epoch x
  assume i: "parse_uuid (get_str rp (submitted p) ''task_id'' []) = Some i"
    and t: "require_token (submitted p) = Inr token"
    and n: "dict_get (submitted p) ''attempt_number'' = PInt attempt" "0 \<le> attempt"
      "dict_get (submitted p) ''session_epoch'' = PInt epoch" "0 \<le> epoch"
    and sl: "seal fr mb (base_envelope (uuid_str i) COMPLETED attempt epoch token x
       (dict_get (submitted p) ''result'') (truthy (dict_get (submitted p) ''truncated''))
       (dict_get (submitted p) ''original_size_bytes'')) = Inr env" (is "seal fr mb ?e = _")
  have "envelope_for env i attempt epoch token"
    using seal_get [OF sl] n t by (simp add: envelope_for_def base_envelope_get require_token_Inr)
  moreover obtain k m where "json_size fr ?e = Inr k"
      "json_size fr (if mb < k then stripped_envelope k ?e else ?e) = Inr m"
      "env = AList.update ''size_bytes'' (PInt m) (if mb < k then stripped_envelope k ?e else ?e)"
    by (rule seal_Inr [OF sl])
  then have "\<exists>body m k. env = AList.update ''size_bytes'' (PInt m) body \<and> json_size fr body = Inr m
        \<and> (if k \<le> mb then k = m \<and> dict_get env ''result'' = dict_get (submitted p) ''result''
             \<and> dict_get env ''truncated'' = PBool (truthy (dict_get (submitted p) ''truncated''))
           else dict_get env ''result'' = PNone \<and> dict_get env ''truncated'' = PBool True
             \<and> dict_get env ''original_size_bytes'' = PInt k)"
    by (intro exI [of _ "if mb < k then stripped_envelope k ?e else ?e"] exI [of _ m] exI [of _ k])
      (auto simp: dict_get_update stripped_envelope_def base_envelope_get)
  ultimately show ?thesis using i n t by (auto simp: require_token_Inr)
qed

definition ex_submission :: pydict where
  "ex_submission = [(''task_id'', PStr (uuid_str 10)), (''status'', PStr ''COMPLETED''),
     (''idempotency_token'', PStr ''token''), (''duration_seconds'', PInt 2),
     (''attempt_number'', PInt 1), (''session_epoch'', PInt 3), (''result'', PBool True)]"

lemma ex_submission_get:
  "get_str rp ex_submission ''task_id'' [] = uuid_str 10"
  "get_str rp ex_submission ''status'' [] = COMPLETED"
  "dict_get ex_submission ''idempotency_token'' = PStr ''token''"
  "dict_get ex_submission ''duration_seconds'' = PInt 2"
  "dict_get ex_submission ''attempt_number'' = PInt 1"
  "dict_get ex_submission ''session_epoch'' = PInt 3"
  "dict_get ex_submission ''result'' = PBool True"
  by (simp_all add: ex_submission_def dict_get_def COMPLETED_def)

lemma ex_submission_acceptable: "acceptable rp fr ex_submission"
  by (simp add: acceptable_def ex_submission_get parse_uuid_str acceptable_duration_def float_limit_def
      MAX_TOKEN_CHARS_def)

text \<open>The body of the example does not fit into no bytes at all.\<close>

theorem validate_envelope_witness:
  "\<exists>env. validate (\<lambda>_. []) (\<lambda>_. []) 0 (Some ex_submission) = Inr env
     \<and> dict_get env ''attempt_number'' = PInt 1 \<and> dict_get env ''idempotency_token'' = PStr ''token''"
proof -
  obtain env where v: "validate (\<lambda>_. []) (\<lambda>_. []) 0 (Some ex_submission) = Inr env"
    using validate_accepts [of "\<lambda>_. []" "\<lambda>_. []" 0 "Some ex_submission"] ex_submission_acceptable by auto
  show ?thesis
    using validate_envelope [OF v] v by (auto simp: ex_submission_get envelope_for_def)
qed

subsection \<open>Errors\<close>

definition REJECTION_CODES :: "string list" where
  "REJECTION_CODES = [REJECT_BAD_TASK_ID, REJECT_BAD_STATUS, REJECT_MISSING_TOKEN, REJECT_BAD_DURATION,
     REJECT_BAD_ATTEMPT, REJECT_BAD_EPOCH, REJECT_UNSERIALISABLE]"

lemma require_errors:
  "require_task_id rp d = Inl x \<Longrightarrow> x = MalformedResult REJECT_BAD_TASK_ID"
  "require_status rp d = Inl x \<Longrightarrow> x = MalformedResult REJECT_BAD_STATUS"
  "require_token d = Inl x \<Longrightarrow> x = MalformedResult REJECT_MISSING_TOKEN"
  "require_duration d = Inl x \<Longrightarrow> x = MalformedResult REJECT_BAD_DURATION"
  "require_int d k code m = Inl x \<Longrightarrow> x = MalformedResult code"
  by (auto simp: require_task_id_def require_status_def require_token_def require_duration_def
      require_int_def Let_def split: option.splits pyval.splits if_splits)

text \<open>
  C26: A refused submission raises MalformedResult with one of the seven codes, with a
  single exception: an integer duration that is too large for a float raises
  OverflowError.
\<close>

theorem validate_errors_complete:
  assumes "validate rp fr mb p = Inl x"
  shows "(\<exists>code \<in> set REJECTION_CODES. x = MalformedResult code)
    \<or> (x = OverflowError \<and> (\<exists>n. dict_get (submitted p) ''duration_seconds'' = PInt n \<and> float_limit \<le> n))"
proof -
  have "x = OverflowError \<and> (\<exists>n. dict_get (submitted p) ''duration_seconds'' = PInt n \<and> float_limit \<le> n)"
    if "require_duration (submitted p) = Inr v" "py_float v = Inl x" for v
    using that by (auto simp: require_duration_Inr float_of_int_def split: if_splits)
  with assms show ?thesis
    by (auto simp: validate_def Let_def bind_exn_def REJECTION_CODES_def dest!: require_errors seal_error
        split: sum.splits)
qed

definition ex_long :: pydict where
  "ex_long = AList.update ''duration_seconds'' (PInt float_limit) ex_submission"

lemma ex_long_get:
  "dict_get ex_long ''duration_seconds'' = PInt float_limit"
  "get_str rp ex_long ''task_id'' [] = uuid_str 10" "get_str rp ex_long ''status'' [] = COMPLETED"
  "dict_get ex_long ''idempotency_token'' = PStr ''token''"
  "dict_get ex_long ''attempt_number'' = PInt 1" "dict_get ex_long ''session_epoch'' = PInt 3"
  using ex_submission_get by (simp_all add: ex_long_def dict_get_update get_str_def)

lemma ex_long_overflows: "validate (\<lambda>_. []) (\<lambda>_. []) 1024 (Some ex_long) = Inl OverflowError"
proof -
  have "require_task_id (\<lambda>_. []) ex_long = Inr (uuid_str 10)"
    by (simp add: require_task_id_Inr ex_long_get parse_uuid_str)
  moreover have "require_status (\<lambda>_. []) ex_long = Inr COMPLETED"
    by (simp add: require_status_Inr ex_long_get)
  moreover have "require_token ex_long = Inr ''token''"
    by (simp add: require_token_Inr ex_long_get MAX_TOKEN_CHARS_def)
  moreover have "require_duration ex_long = Inr (PInt float_limit)"
    by (simp add: require_duration_Inr ex_long_get) (simp add: float_limit_def)
  moreover have "require_int ex_long ''attempt_number'' REJECT_BAD_ATTEMPT 0 = Inr 1"
    "require_int ex_long ''session_epoch'' REJECT_BAD_EPOCH 0 = Inr 3"
    by (simp_all add: require_int_Inr ex_long_get)
  moreover have "0 \<le> float_limit" by (simp add: float_limit_def)
  ultimately show ?thesis
    by (simp add: validate_def Let_def bind_exn_def float_of_int_def)
qed

theorem validate_errors_complete_witness:
  "\<exists>n. dict_get ex_long ''duration_seconds'' = PInt n \<and> float_limit \<le> n"
  using validate_errors_complete [OF ex_long_overflows] by auto

end
