(* ===== verification/PolicyProperties.thy ===== *)
theory PolicyProperties
  imports Reachable
begin

text \<open>
  What the per-type policies promise: an accepted body is in force after it is written
  and nothing else moves, the report tells what the statements will use, and clearing a
  type restores the configured defaults.
\<close>

lemma clean_fields_nonempty:
  assumes c: "clean_fields body [] = Inr cleaned" and d: "distinct (map fst body)"
  shows "cleaned \<noteq> [] \<longleftrightarrow> (\<exists>(f, v) \<in> set body. v \<noteq> PNone)"
proof -
  have m: "map_of cleaned f = Option.bind (map_of body f) supplied" for f
    using clean_fields_map [OF c d, of f] by (simp split: option.splits)
  have s: "supplied v \<noteq> None \<longleftrightarrow> v \<noteq> PNone" if "(f, v) \<in> set body" for f v
    using clean_fields_accepts [of body "[]"] c that
    by (auto simp: supplied_def field_ok_def split: sum.splits)
  have b: "map_of body f = Some v \<longleftrightarrow> (f, v) \<in> set body" for f v
    using d by simp
  have "cleaned \<noteq> [] \<longleftrightarrow> (\<exists>f. map_of cleaned f \<noteq> None)" by (cases cleaned) auto
  also have "\<dots> \<longleftrightarrow> (\<exists>f v. (f, v) \<in> set body \<and> supplied v \<noteq> None)"
    unfolding m by (auto simp: bind_eq_Some_conv b simp del: map_of_eq_Some_iff)
  also have "\<dots> \<longleftrightarrow> (\<exists>(f, v) \<in> set body. v \<noteq> PNone)"
    using s by blast
  finally show ?thesis .
qed

text \<open>
  The operator's body is accepted exactly when every field is known, every value
  that is not null reads as an integer inside the bounds of its field, and at least one
  value is given; what is accepted are those values and nothing else.
\<close>

theorem policy_validation:
  assumes "distinct (map fst body)"
  shows "((\<exists>values. validate_policy body = Inr values) \<longleftrightarrow>
      (\<forall>(f, v) \<in> set body. field_ok f v) \<and> (\<exists>(f, v) \<in> set body. v \<noteq> PNone))
    \<and> (\<forall>values. validate_policy body = Inr values \<longrightarrow>
      (\<forall>f. map_of values f = Option.bind (map_of body f) supplied)
      \<and> (\<forall>(f, n) \<in> set values. f \<in> set POLICY_FIELDS \<and> in_bounds f n))"
proof (intro conjI allI impI)
  show "(\<exists>values. validate_policy body = Inr values) \<longleftrightarrow>
      (\<forall>(f, v) \<in> set body. field_ok f v) \<and> (\<exists>(f, v) \<in> set body. v \<noteq> PNone)"
    using validate_policy_accepts [of body] clean_fields_accepts [of body "[]"]
      clean_fields_nonempty [OF _ assms] by metis
next
  fix vs f assume v: "validate_policy body = Inr vs"
  show "map_of vs f = Option.bind (map_of body f) supplied"
    by (rule validate_policy_map [OF v assms])
  show "\<forall>(f, n) \<in> set vs. f \<in> set POLICY_FIELDS \<and> in_bounds f n"
    using validate_policy_range(3) [OF v assms] by blast
qed

definition ex_policy :: pydict where
  "ex_policy = [(''ack_timeout_seconds'', PInt 5), (''max_attempts'', PStr ''7''),
     (''lease_ttl_seconds'', PNone)]"

lemma ex_policy_valid:
  "validate_policy ex_policy = Inr [(''ack_timeout_seconds'', 5), (''max_attempts'', 7)]"
  by (simp add: validate_policy_def ex_policy_def POLICY_FIELDS_def in_bounds_def policy_bounds_def
      policy_bound_defs read_int_def strip_by_def is_space_def digit_val_def Let_def)

theorem policy_validation_witness:
  "field_ok ''max_attempts'' (PStr ''7'')"
proof -
  have d: "distinct (map fst ex_policy)" by (simp add: ex_policy_def)
  show ?thesis
    using policy_validation [OF d] ex_policy_valid by (auto simp: ex_policy_def)
qed

subsection \<open>Writing, reading, clearing\<close>

text \<open>The four numbers the statements use for a type.\<close>

definition effective :: "settings \<Rightarrow> db \<Rightarrow> string \<Rightarrow> string \<Rightarrow> int" where
  "effective c d ty f = (if f = ''ack_timeout_seconds'' then ack_seconds c d ty
     else if f = ''lease_ttl_seconds'' then lease_seconds c d ty
     else if f = ''max_execution_seconds'' then max_execution_seconds c d ty
     else max_attempts c d ty)"

lemma effective_coalesce: "f \<in> set POLICY_FIELDS \<Longrightarrow>
    effective c d ty f = coalesce (stored_policy d f ty) (effective c empty_db ty f)"
proof -
  have "stored_policy empty_db g ty = None" for g
    by (simp add: stored_policy_def find_policy_def empty_db_def)
  then show "f \<in> set POLICY_FIELDS \<Longrightarrow> ?thesis"
    by (auto simp: POLICY_FIELDS_def effective_def resolve_simps max_execution_seconds_def)
qed

text \<open>
  C27: Writing an accepted body puts every value it gives in force for that type at
  once, leaves every field it does not give and every other type as they were, and
  clearing the type brings the configured defaults back.
\<close>

theorem policy_round_trip:
  assumes "distinct (map fst body)" and "validate_policy body = Inr values"
    and "ty \<in> set task_type_names" and "f \<in> set POLICY_FIELDS"
  shows "\<exists>e. set_policy ty values now d = Inr e
    \<and> effective c e ty' f = (if ty' = ty
        then (case Option.bind (map_of body f) supplied of Some n \<Rightarrow> n | None \<Rightarrow> effective c d ty f)
        else effective c d ty' f)
    \<and> db_tasks e = db_tasks d
    \<and> clear_policy ty e = Inr (True, delete_policy ty e)
    \<and> effective c (delete_policy ty e) ty f = effective c empty_db ty f"
proof -
  note good = validated_good [OF assms(2,1)] and m = validate_policy_map [OF assms(2,1)]
  have "find_policy (upsert_policy ty values now d) ty \<noteq> None"
    by (simp add: find_policy_upsert)
  moreover have "effective c (upsert_policy ty values now d) ty' f = (if ty' = ty
      then (case Option.bind (map_of body f) supplied of Some n \<Rightarrow> n | None \<Rightarrow> effective c d ty f)
      else effective c d ty' f)"
    unfolding effective_coalesce [OF assms(4), of c "upsert_policy ty values now d"]
      effective_coalesce [OF assms(4), of c d] policies.read_put [OF good]
    by (auto simp: m split: option.splits)
  moreover have "effective c (delete_policy ty e) ty f = effective c empty_db ty f" for e
    unfolding effective_coalesce [OF assms(4), of c "delete_policy ty e"] policies.read_del by simp
  ultimately show ?thesis
    using assms(3) set_policy_validated [OF assms(2,1,3)]
    by (intro exI [of _ "upsert_policy ty values now d"]) (simp add: clear_policy_def)
qed

theorem policy_round_trip_witness:
  "\<exists>e. set_policy ''sleep'' [(''ack_timeout_seconds'', 5), (''max_attempts'', 7)] 0 empty_db = Inr e
     \<and> effective default_settings e ''sleep'' ''max_attempts'' = 7"
proof -
  have "Option.bind (map_of ex_policy ''max_attempts'') supplied = Some 7"
    using validate_policy_map [OF ex_policy_valid, of "''max_attempts''"] by (simp add: ex_policy_def)
  then show ?thesis
    using policy_round_trip [OF _ ex_policy_valid, of "''sleep''" "''max_attempts''" 0 empty_db
        default_settings "''sleep''"]
    by (auto simp: ex_policy_def task_type_names POLICY_FIELDS_def)
qed

text \<open>
  The report lists every registered task type once and gives for each of the four
  fields the number the statements will use, marked as a policy exactly when the type
  overrides it.
\<close>

theorem report_is_resolution:
  "\<exists>entries. effective_policies c d = Inr entries
    \<and> map pe_type entries = sorted_types \<and> set sorted_types = set task_type_names
    \<and> (\<forall>p \<in> set entries. pe_values p = map (\<lambda>f. (f, effective c d (pe_type p) f,
         if stored_policy d f (pe_type p) = None then ''default'' else ''policy'')) POLICY_FIELDS)"
proof -
  let ?entry = "\<lambda>ty. \<lparr>pe_type = ty, pe_values = map (\<lambda>f. (f, effective c d ty f,
         if stored_policy d f ty = None then ''default'' else ''policy'')) POLICY_FIELDS,
      pe_updated_at = map_option po_updated_at (find_policy d ty)\<rparr>"
  have "report_entry c d ty = Inr (?entry ty)" if "ty \<in> set sorted_types" for ty
    using report_entry_value [of ty "\<lambda>f. if stored_policy d f ty = None then ''default'' else ''policy''"] that
    by (simp add: sorted_types_registered POLICY_FIELDS_def effective_def)
  then have "effective_policies c d = Inr (map ?entry sorted_types)"
    unfolding effective_policies_def by (rule collect_Inr)
  then show ?thesis using sorted_types_registered by (auto simp: comp_def)
qed

theorem report_is_resolution_witness:
  "\<exists>entries. effective_policies default_settings empty_db = Inr entries \<and> map pe_type entries = sorted_types"
  using report_is_resolution [of default_settings empty_db] by blast

end
