(* ===== verification/SystemProperties.thy ===== *)
theory SystemProperties
  imports CompletionProperties
begin

text \<open>
  What holds of the whole coordinator, whatever order its replicas run their statements
  in: the data invariant, the life of a task, and the fencing of a stale holder.
\<close>

lemma reached_row:
  assumes "reachable c d" "(step c)\<^sup>*\<^sup>* d e" "find_task d i = Some t"
  shows "\<exists>u. find_task e i = Some u \<and> row_evolves t u"
  using steps_find [OF assms] by blast

text \<open>
  C5: Every database the coordinator can reach is well formed: identifiers are unique,
  each task has exactly the columns its status allows (a queued task has no worker, a
  live one has a worker, a lease and a deadline, a finished one has no lease, only a
  completed one has a result and a completion time), each stored result belongs to
  exactly one task, and every attempt belongs to a task that reached it.
\<close>

theorem reachable_invariant:
  assumes "reachable c d"
  shows "distinct (map tk_id (db_tasks d)) \<and> (\<forall>t \<in> set (db_tasks d). task_ok t)
    \<and> (\<forall>r \<in> set (db_results d). \<exists>!t. t \<in> set (db_tasks d) \<and> tk_result t = Some (rs_id r))
    \<and> (\<forall>t \<in> set (db_tasks d). \<forall>r. tk_result t = Some r \<longrightarrow> find_result d r \<noteq> None)
    \<and> (\<forall>a \<in> set (db_attempts d). \<exists>t. find_task d (at_task a) = Some t
         \<and> 0 \<le> at_number a \<and> at_number a \<le> tk_attempt t)"
proof -
  have ok: "db_ok d" by (rule reachable_ok [OF assms])
  have refs: "distinct (refs_of (db_tasks d))" "set (refs_of (db_tasks d)) = rs_id ` set (db_results d)"
    using ok by (simp_all add: db_ok_def refs_ok_def result_refs_def refs_of_def)
  have mem: "r \<in> set (refs_of ts) \<longleftrightarrow> (\<exists>t \<in> set ts. tk_result t = Some r)" for r ts
    by (force simp: refs_of_def split: option.splits)
  have uniq: "t = u" if "distinct (refs_of ts)" "t \<in> set ts" "u \<in> set ts" "tk_result t = Some r"
      "tk_result u = Some r" for ts t u r
    using that
  proof (induction ts)
    case (Cons v ts)
    have d: "distinct (refs_of ts)" "tk_result v = Some r \<longrightarrow> r \<notin> set (refs_of ts)"
      using Cons.prems(1) by (auto simp: refs_of_def split: option.splits)
    with Cons mem show ?case by auto
  qed simp
  have "\<exists>!t. t \<in> set (db_tasks d) \<and> tk_result t = Some (rs_id r)" if "r \<in> set (db_results d)" for r
  proof -
    have "rs_id r \<in> set (refs_of (db_tasks d))" using refs(2) that by blast
    then show ?thesis using mem uniq [OF refs(1)] by blast
  qed
  moreover have "find_result d r \<noteq> None" if "t \<in> set (db_tasks d)" "tk_result t = Some r" for t r
  proof -
    have "r \<in> rs_id ` set (db_results d)" using refs(2) mem that by blast
    then show ?thesis by (auto simp: find_result_def find_None_iff)
  qed
  moreover have "\<exists>t. find_task d (at_task a) = Some t \<and> 0 \<le> at_number a \<and> at_number a \<le> tk_attempt t"
    if "a \<in> set (db_attempts d)" for a
    using ok that find_task_unique [OF db_ok_distinct [OF ok]]
    by (fastforce simp: db_ok_def refs_ok_def attempt_ok_def)
  ultimately show ?thesis using ok by (auto simp: db_ok_distinct db_ok_task)
qed

theorem reachable_invariant_witness: "task_ok ex_started_task"
  using reachable_invariant [OF ex_started_reachable] ex_started_mem by blast

text \<open>
  C7: Over any sequence of steps a task keeps its identity, its status only moves along
  the table of the state machine, its attempt number never decreases, one attempt number
  has one holder, and a finished task never changes again, except that retention may take
  the body of its result.
\<close>

theorem task_history:
  assumes "reachable c d" "(step c)\<^sup>*\<^sup>* d e" "find_task d i = Some t"
  shows "\<exists>u. find_task e i = Some u \<and> tk_type u = tk_type t \<and> tk_parameters u = tk_parameters t
    \<and> tk_priority u = tk_priority t \<and> tk_created_at u = tk_created_at t
    \<and> (tk_status t, tk_status u) \<in> {(a, b). check_transition a b = Inr True}\<^sup>*
    \<and> tk_attempt t \<le> tk_attempt u
    \<and> (tk_attempt u = tk_attempt t \<and> tk_worker t \<noteq> None \<longrightarrow> tk_worker u = tk_worker t)
    \<and> (tk_status t \<in> TERMINAL_STATES \<longrightarrow> u = t \<or> u = t\<lparr>tk_result := None\<rparr>)"
proof -
  obtain u where "find_task e i = Some u" "row_evolves t u" using reached_row [OF assms] by blast
  moreover have "{(a, b). check_transition a b = Inr True} = legal_moves"
    by (auto simp: check_transition_write)
  ultimately show ?thesis
    by (auto simp: row_evolves_def same_identity_def same_attempt_def frozen_def)
qed

theorem task_history_witness:
  "\<exists>u. find_task ex_started 10 = Some u \<and> tk_worker u = Some 1"
proof -
  have "(step default_settings)\<^sup>*\<^sup>* ex_claimed ex_started"
    by (rule r_into_rtranclp [of "step default_settings", OF started_step [OF ex_begin]])
  then show ?thesis
    using task_history [OF ex_claimed_reachable _ ex_claimed_task] ex_started_find
    by (auto simp: claim_stamp_def)
qed

text \<open>
  C1: Once a task has moved past an attempt, a result of that attempt is never accepted
  again, from whichever worker, at whatever later moment and however the statements in
  between were ordered.
\<close>

theorem stale_result_fenced:
  assumes "reachable c d" "find_task d i = Some t" "(step c)\<^sup>*\<^sup>* d e"
    and "envelope_for env i n epoch token" "n < tk_attempt t"
    and "complete_task rp env w rid aid now e = Inr (out, f)"
  shows "out \<noteq> TRANSITIONED \<and> db_tasks f = db_tasks e \<and> db_results f = db_results e"
proof -
  obtain u where u: "find_task e i = Some u" "tk_attempt t \<le> tk_attempt u"
    using reached_row [OF assms(1,3,2)] by (auto simp: row_evolves_def)
  have "db_ok e" by (rule reachable_ok [OF reachable_steps [OF assms(1,3)]])
  from this assms(4,6) show ?thesis
  proof (cases rule: complete_cases)
    case (terminal v)
    then show ?thesis using terminal_outcome_range [of e "tk_result v" "PStr token"] by auto
  next
    case (stored v d')
    then show ?thesis using u assms(5) by simp
  next
    case (fenced v reason)
    then show ?thesis using record_fence_int [OF fenced(4)] by auto
  qed auto
qed

text \<open>The lease of the running example runs out and the task goes back to the queue.\<close>

definition ex_retried :: db where
  "ex_retried = (map_tasks (\<lambda>t. tk_id t = 10) (reclaim_stamp default_settings ex_started (\<lambda>_. 0) 5000) ex_started)
     \<lparr>db_attempts := [expiry_attempt 40 5000 (reclaimed_of default_settings ex_started (\<lambda>_. 0) 5000 ex_started_task)]\<rparr>"

lemma ex_started_rows: "db_tasks ex_started = [ex_started_task]" "db_attempts ex_started = []"
  by (simp_all add: ex_started_def ex_claimed_def ex_submitted_def ex_enrolled_def empty_db_def
      set_task_def map_tasks_def ex_started_task_def)

lemma ex_started_lease: "tk_lease ex_started_task = Some 101"
proof -
  have "stored_policy ex_claimed f ty = None" for f ty
    by (simp add: stored_policy_def find_policy_def ex_claimed_def ex_submitted_def ex_enrolled_def empty_db_def)
  then show ?thesis
    by (simp add: ex_started_task_def status_stamp_RUNNING resolve_simps max_execution_seconds_def
        max_execution_default_case_def DEFAULT_MAX_EXECUTION_SECONDS_def default_settings_def
        claim_stamp_def ex_task_def secs_def)
qed

lemma ex_retry: "reclaim_expired_leases default_settings 1 {} (\<lambda>_. 0) (\<lambda>_. 40) 5000 ex_started =
    Inr ([reclaimed_of default_settings ex_started (\<lambda>_. 0) 5000 ex_started_task], ex_retried)"
proof -
  have "expired_list 1 {} 5000 ex_started = [ex_started_task]"
    by (simp add: expired_list_def overdue_def ex_started_rows ex_started_lease)
  then show ?thesis
    by (simp add: reclaim_expired_leases_def Let_def ex_retried_def ex_started_rows)
qed

lemma ex_retried_find: "find_task ex_retried 10 =
    Some (reclaim_stamp default_settings ex_started (\<lambda>_. 0) 5000 ex_started_task)"
  using ex_started_find by (simp add: ex_retried_def find_task_map_tasks)

lemma ex_retried_reachable: "reachable default_settings ex_retried"
  by (rule reachable_step [OF ex_started_reachable reclaim_step [OF ex_retry]])

text \<open>The worker that lost it submits the result of its attempt.\<close>

theorem stale_result_fenced_witness:
  "\<exists>f. complete_task (\<lambda>_. []) (ex_envelope 0) 1 20 21 5100 ex_retried = Inr (FENCED, f)
     \<and> db_tasks f = db_tasks ex_retried \<and> db_results f = db_results ex_retried"
proof -
  let ?t = "reclaim_stamp default_settings ex_started (\<lambda>_. 0) 5000 ex_started_task"
  have "\<not> exhausted default_settings ex_started ex_started_task"
    by (simp add: exhausted_def resolve_simps stored_policy_def find_policy_def ex_started_def
        ex_claimed_def ex_submitted_def ex_enrolled_def empty_db_def default_settings_def)
  then have t: "tk_status ?t = QUEUED" "tk_worker ?t = None" "tk_attempt ?t = 1" "tk_id ?t = 10"
    by (simp_all add: reclaim_stamp_def)
  have "ever_held ex_retried 10 1 None" "worker_known ex_retried (Some 1)"
    by (simp_all add: ever_held_def ex_retried_def expiry_attempt_def reclaimed_of_def reclaim_stamp_def
        worker_known_def ex_started_def ex_claimed_def ex_submitted_def ex_enrolled_def set_task_def
        map_tasks_def enrolled_row_def)
  then obtain f where f: "complete_task (\<lambda>_. []) (ex_envelope 0) 1 20 21 5100 ex_retried = Inr (FENCED, f)"
    using t by (cases "has_attempt ex_retried 10 1 0 FENCED_OUTCOME")
      (simp_all add: complete_task_at [OF ex_envelope_for [of 0, simplified]] ex_retried_find
        complete_locked_live envelope_for_get [OF ex_envelope_for [of 0, simplified]]
        fence_or_refuse_def record_fence_def bind_exn_def)
  show ?thesis
    using stale_result_fenced [OF ex_retried_reachable ex_retried_find rtranclp.rtrancl_refl
        ex_envelope_for [of 0, simplified] _ f] f t by simp
qed

end
