(* ===== verification/CodecProperties.thy ===== *)
theory CodecProperties
  imports TaskTypes TaskStates Uuid
begin

text \<open>
  The pure layers under the tables: identifiers and payloads survive their text form,
  a normalised parameter object is in range and is its own normal form, and the state
  machine has exactly the moves of its table.
\<close>

text \<open>
  The canonical text of an identifier reads back as that identifier, and two
  identifiers have the same text only when they are the same: comparing what was
  written as text with what the database holds loses nothing.
\<close>

lemma uuid_round_trip:
  "parse_uuid (uuid_str u) = Some u \<and> (uuid_str u = uuid_str v \<longleftrightarrow> u = v)"
  by (simp add: parse_uuid_str)

text \<open>
  Decoding what the encoder wrote gives the bytes back, and a decoded payload is
  never longer than three quarters of its text.
\<close>

lemma base64_round_trip:
  assumes "\<forall>b \<in> set bs. b < 256"
  shows "b64_decode (b64_encode bs) = Some bs \<and> 4 * length bs \<le> 3 * length (b64_encode bs)"
  using b64_decode_encode [OF assms] b64_decode_bytes by blast

text \<open>
  C40: Parameters that pass the registry are stored in the range of their schema, whatever
  the coercion library did to get there: counts and rounds are bounded, a sleep is a finite
  positive time of at most an hour, a payload is strict base64 of at most the size limit.
  Validating the stored object again accepts it unchanged, and a refusal names the type.
\<close>

theorem parameters_normalised:
  "case validate_parameters co ty p of
     Inr d \<Rightarrow> ty \<in> set task_type_names \<and> well_formed_parameters ty d
       \<and> validate_parameters strict_coercion ty (Some d) = Inr d
   | Inl e \<Rightarrow> e = (if ty \<in> set task_type_names then InvalidTaskParameters ty else UnknownTaskType ty)"
proof (cases "validate_parameters co ty p")
  case (Inl e)
  then show ?thesis
    using validate_unknown [of ty co p] validate_errors [OF Inl]
    by (auto simp: validate_parameters_def task_type_names_def split: option.splits dest: map_of_eq_None_iff [THEN iffD1])
next
  case (Inr d)
  then show ?thesis
    using validate_known validated_well_formed validate_strict_idempotent by auto
qed

text \<open>
  The state machine allows a write exactly along the ten documented moves; a repeat
  of the current state is recognised and writes nothing; from a terminal state nothing
  moves, and from every other state of a stored task a terminal state can be reached.
\<close>

theorem transition_table:
  "(check_transition s t = Inr True \<longleftrightarrow> (s, t) \<in> legal_moves)
   \<and> (check_transition s t = Inr False \<longleftrightarrow> s = t \<and> s \<in> TASK_STATES)
   \<and> (check_transition s t = Inl (UnknownTaskState u) \<longleftrightarrow>
        u \<notin> TASK_STATES \<and> (u = s \<or> (s \<in> TASK_STATES \<and> u = t)))
   \<and> {a. \<exists>b. check_transition a b = Inr True} = TASK_STATES - TERMINAL_STATES - {REASSIGNED}
   \<and> (\<forall>a \<in> {QUEUED, ASSIGNED, RUNNING}. \<exists>b \<in> TERMINAL_STATES. check_transition a b = Inr True)"
proof (intro conjI)
  show "check_transition s t = Inr True \<longleftrightarrow> (s, t) \<in> legal_moves" by (rule check_transition_write)
  show "check_transition s t = Inr False \<longleftrightarrow> s = t \<and> s \<in> TASK_STATES" by (rule check_transition_noop)
  show "check_transition s t = Inl (UnknownTaskState u) \<longleftrightarrow>
        u \<notin> TASK_STATES \<and> (u = s \<or> (s \<in> TASK_STATES \<and> u = t))"
    using ALLOWED_dom [of s] by (auto simp: check_transition_def split: option.splits if_splits)
  show "{a. \<exists>b. check_transition a b = Inr True} = TASK_STATES - TERMINAL_STATES - {REASSIGNED}"
    by (auto simp: check_transition_write legal_moves_def TASK_STATES_def)
  show "\<forall>a \<in> {QUEUED, ASSIGNED, RUNNING}. \<exists>b \<in> TERMINAL_STATES. check_transition a b = Inr True"
    by (auto simp: check_transition_write legal_moves_def TERMINAL_STATES_def)
qed

theorem transition_table_witness: "\<exists>b \<in> TERMINAL_STATES. check_transition QUEUED b = Inr True"
  using transition_table [of QUEUED QUEUED QUEUED] by (elim conjE) (erule bspec, simp)

end
