(* ===== verification/LocalSession.thy ===== *)
theory LocalSession
  imports Completion
begin

text \<open>
  \<open>coordinator/app/assignment.py\<close>, the state of one worker socket: what a \<open>hello\<close>
  declares and how it is sanitised, the credit accounting, and the lazy renewal clock.
  A Python dictionary is an association list in insertion order. The socket itself and
  its send lock are not state: whether a send succeeds is an argument of the operations.
  \<open>ls_worker\<close> is the identifier whose text form the source keeps in \<open>worker_id\<close>.
\<close>

definition REFUSE_AT_CAPACITY :: string where "REFUSE_AT_CAPACITY = ''at_capacity''"
definition REFUSE_UNSUPPORTED_TYPE :: string where
  "REFUSE_UNSUPPORTED_TYPE = ''unsupported_task_type''"

record local_session =
  ls_worker :: uuid
  ls_epoch :: int
  ls_max :: int
  ls_types :: "string list"
  ls_pending :: "(string \<times> string) list"
  ls_credited :: "(string \<times> string) list"
  ls_residual :: int
  ls_current :: "(string \<times> pydict) list"
  ls_renew_due :: "(string \<times> time) list"
  ls_recovered :: "string set"
  ls_saturated :: bool

definition in_flight :: "local_session \<Rightarrow> int" where
  "in_flight s = ls_residual s + int (length (ls_credited s))"

definition free_credits :: "local_session \<Rightarrow> int" where
  "free_credits s = (if ls_saturated s then 0 else max 0 (ls_max s - in_flight s))"

subsection \<open>What a worker declares\<close>

definition is_registered :: "pyval \<Rightarrow> bool" where
  "is_registered v = (case v of PStr t \<Rightarrow> t \<in> set task_type_names | _ \<Rightarrow> False)"

definition text_of :: "pyval \<Rightarrow> string" where
  "text_of v = (case v of PStr t \<Rightarrow> t | _ \<Rightarrow> [])"

definition supported_types :: "pyval \<Rightarrow> string list" where
  "supported_types v = (case v of
      PNone \<Rightarrow> task_type_names
    | PList xs \<Rightarrow> map text_of (filter is_registered xs)
    | _ \<Rightarrow> [])"

definition parse_capabilities :: "settings \<Rightarrow> pydict option \<Rightarrow> exn + int \<times> string list" where
  "parse_capabilities c p =
     (let payload = (case p of None \<Rightarrow> [] | Some d \<Rightarrow> d);
          declared = (case py_int (dict_get payload ''max_concurrent'') of
              Inr n \<Rightarrow> Inr n
            | Inl e \<Rightarrow> if e = TypeError \<or> e = ValueError then Inr (cf_conc_default c) else Inl e)
      in bind_exn declared (\<lambda>n.
           Inr (max 1 (min n (cf_conc_ceiling c)),
                supported_types (dict_get payload ''supported_task_types''))))"

definition parse_tasks_in_flight :: "pydict option \<Rightarrow> int \<Rightarrow> exn + int" where
  "parse_tasks_in_flight p max_concurrent =
     (let payload = (case p of None \<Rightarrow> [] | Some d \<Rightarrow> d);
          raw = dict_get payload ''tasks_in_flight''
      in if raw = PNone then Inr 0
         else case py_int raw of
             Inr v \<Rightarrow> Inr (max 0 (min v max_concurrent))
           | Inl e \<Rightarrow> if e = TypeError \<or> e = ValueError then Inr 0 else Inl e)"

text \<open>The session a handshake opens.\<close>

definition open_session :: "uuid \<Rightarrow> int \<Rightarrow> int \<Rightarrow> string list \<Rightarrow> int \<Rightarrow> local_session" where
  "open_session w epoch max_concurrent types residual =
     \<lparr>ls_worker = w, ls_epoch = epoch, ls_max = max_concurrent, ls_types = types,
      ls_pending = [], ls_credited = [], ls_residual = residual, ls_current = [],
      ls_renew_due = [], ls_recovered = {}, ls_saturated = False\<rparr>"

subsection \<open>Credits\<close>

definition holds :: "local_session \<Rightarrow> string \<Rightarrow> bool" where
  "holds s i \<longleftrightarrow> i \<in> fst ` set (ls_credited s)"

text \<open>The unnamed release: residue first, then the oldest credits.\<close>

definition release_unnamed :: "int \<Rightarrow> local_session \<Rightarrow> bool \<times> local_session" where
  "release_unnamed freed s =
     (let from_residual = min (max 1 freed) (ls_residual s);
          popped = min (nat (freed - from_residual)) (length (ls_credited s))
      in (0 < from_residual + int popped,
          s\<lparr>ls_residual := ls_residual s - from_residual,
            ls_credited := drop popped (ls_credited s)\<rparr>))"

definition release_credit :: "string \<Rightarrow> int \<Rightarrow> local_session \<Rightarrow> bool \<times> local_session" where
  "release_credit i freed s =
     (if i \<noteq> [] then
        (if holds s i then (True, s\<lparr>ls_credited := AList.delete i (ls_credited s)\<rparr>)
         else if 0 < ls_residual s then (True, s\<lparr>ls_residual := ls_residual s - 1\<rparr>)
         else (False, s))
      else release_unnamed freed s)"

text \<open>The four things every final report clears besides the credit.\<close>

definition forget_task :: "string \<Rightarrow> local_session \<Rightarrow> local_session" where
  "forget_task i s = s\<lparr>ls_current := AList.delete i (ls_current s),
     ls_renew_due := AList.delete i (ls_renew_due s),
     ls_recovered := ls_recovered s - {i}, ls_saturated := False\<rparr>"

definition credit :: "string \<Rightarrow> string \<Rightarrow> local_session \<Rightarrow> local_session" where
  "credit i corr s = s\<lparr>ls_pending := AList.update i corr (ls_pending s),
     ls_credited := AList.update i corr (ls_credited s)\<rparr>"

subsection \<open>The renewal clock\<close>

definition lease_due :: "local_session \<Rightarrow> string \<Rightarrow> time \<Rightarrow> bool" where
  "lease_due s i tick = (case map_of (ls_renew_due s) i of None \<Rightarrow> True | Some due \<Rightarrow> due \<le> tick)"

definition mark_renewed :: "settings \<Rightarrow> string \<Rightarrow> time \<Rightarrow> local_session \<Rightarrow> local_session" where
  "mark_renewed c i tick s = s\<lparr>ls_renew_due := AList.update i
     (tick + of_int (cf_lease_ttl c) * cf_renew_fraction c) (ls_renew_due s)\<rparr>"

definition entitled :: "local_session \<Rightarrow> string \<Rightarrow> bool" where
  "entitled s i \<longleftrightarrow> holds s i \<or> i \<in> ls_recovered s"

text \<open>\<open>up\<close> says whether the database answers; an error there is logged and swallowed.\<close>

definition renew_if_due ::
  "settings \<Rightarrow> bool \<Rightarrow> time \<Rightarrow> time \<Rightarrow> string \<Rightarrow> local_session \<times> db \<Rightarrow> local_session \<times> db" where
  "renew_if_due c up now tick i sd = (case sd of (s, d) \<Rightarrow>
     if \<not> entitled s i then (s, d)
     else if \<not> lease_due s i tick then (s, d)
     else if \<not> up then (s, d)
     else let (applied, e) = renew_lease c i (ls_worker s) now d
          in (mark_renewed c i tick s, if applied then e else d))"

subsection \<open>The ledger invariant\<close>

text \<open>
  The session never counts more than the worker may run, and never less than nothing;
  a task holds at most one credit.
\<close>

definition session_ok :: "local_session \<Rightarrow> bool" where
  "session_ok s \<longleftrightarrow> distinct (map fst (ls_credited s)) \<and> 0 \<le> ls_residual s
     \<and> in_flight s \<le> ls_max s \<and> 1 \<le> ls_max s"

text \<open>What a step may do to the ledger: nothing is credited, and the rest stays.\<close>

definition ledger_shrinks :: "local_session \<Rightarrow> local_session \<Rightarrow> bool" where
  "ledger_shrinks s s' \<longleftrightarrow> ls_max s' = ls_max s \<and> ls_worker s' = ls_worker s \<and> ls_types s' = ls_types s
     \<and> ls_epoch s' = ls_epoch s \<and> fst ` set (ls_credited s') \<subseteq> fst ` set (ls_credited s)
     \<and> (session_ok s \<longrightarrow> session_ok s' \<and> in_flight s' \<le> in_flight s)"

lemma free_credits_range: "0 \<le> free_credits s" "session_ok s \<Longrightarrow> free_credits s \<le> ls_max s"
  by (auto simp: free_credits_def session_ok_def in_flight_def)

lemma ledger_refl [simp, intro]: "ledger_shrinks s s"
  by (simp add: ledger_shrinks_def)

lemma ledger_trans: "ledger_shrinks s t \<Longrightarrow> ledger_shrinks t u \<Longrightarrow> ledger_shrinks s u"
proof -
  assume a: "ledger_shrinks s t" "ledger_shrinks t u"
  then have "fst ` set (ls_credited u) \<subseteq> fst ` set (ls_credited s)"
    unfolding ledger_shrinks_def by (blast intro: order_trans)
  moreover have "session_ok s \<longrightarrow> session_ok u \<and> in_flight u \<le> in_flight s"
    using a order_trans [of "in_flight u" "in_flight t" "in_flight s"] unfolding ledger_shrinks_def by blast
  ultimately show ?thesis using a unfolding ledger_shrinks_def by presburger
qed

lemma ledger_same:
  assumes "ls_credited s' = ls_credited s" "ls_residual s' = ls_residual s" "ls_max s' = ls_max s"
    "ls_worker s' = ls_worker s" "ls_types s' = ls_types s" "ls_epoch s' = ls_epoch s"
  shows "ledger_shrinks s s'"
  using assms by (simp add: ledger_shrinks_def in_flight_def session_ok_def)

lemma ledger_forget [simp, intro]: "ledger_shrinks s (forget_task i s)"
  by (rule ledger_same) (simp_all add: forget_task_def)

lemma ledger_marked [simp, intro]: "ledger_shrinks s (mark_renewed c i tick s)"
  by (rule ledger_same) (simp_all add: mark_renewed_def)

lemma fst_delete: "fst ` set (AList.delete i d) = fst ` set d - {i}"
proof -
  have "fst ` set (AList.delete i d) = set (map fst (AList.delete i d))" by simp
  then show ?thesis unfolding delete_keys by auto
qed

lemma release_named_held:
  assumes "session_ok s" "holds s i" "i \<noteq> []"
  shows "in_flight (snd (release_credit i n s)) = in_flight s - 1"
    "\<not> holds (snd (release_credit i n s)) i"
proof -
  have len: "length (AList.delete i (ls_credited s)) = length (ls_credited s) - 1"
    using length_delete_distinct [of "ls_credited s" i] assms by (simp add: session_ok_def holds_def)
  have "ls_credited s \<noteq> []" using assms(2) by (auto simp: holds_def)
  then show "in_flight (snd (release_credit i n s)) = in_flight s - 1"
    using assms len by (simp add: release_credit_def in_flight_def of_nat_diff Suc_leI)
  show "\<not> holds (snd (release_credit i n s)) i"
    using assms by (simp add: release_credit_def holds_def fst_delete)
qed

lemma shrink_ok:
  "session_ok s \<Longrightarrow> 0 \<le> m \<Longrightarrow> m \<le> ls_residual s \<Longrightarrow>
   s' = s\<lparr>ls_residual := ls_residual s - m, ls_credited := drop k (ls_credited s)\<rparr> \<Longrightarrow>
   session_ok s' \<and> in_flight s' \<le> in_flight s"
  by (auto simp: session_ok_def in_flight_def drop_map [symmetric])

lemma release_unnamed_ok:
  "session_ok s \<Longrightarrow> session_ok (snd (release_unnamed n s)) \<and> in_flight (snd (release_unnamed n s)) \<le> in_flight s"
  by (rule shrink_ok [where m = "min (max 1 n) (ls_residual s)"])
    (auto simp: release_unnamed_def Let_def session_ok_def)

lemma ledger_release [simp, intro]: "ledger_shrinks s (snd (release_credit i n s))"
proof (cases "i = []")
  case True
  have "fst ` set (ls_credited (snd (release_unnamed n s))) \<subseteq> fst ` set (ls_credited s)"
    by (auto simp: release_unnamed_def Let_def dest: in_set_dropD)
  with True release_unnamed_ok [of s n] show ?thesis
    by (simp add: release_credit_def ledger_shrinks_def) (simp add: release_unnamed_def Let_def)
next
  case False
  show ?thesis
  proof (cases "holds s i")
    case True
    have "length (AList.delete i (ls_credited s)) \<le> length (ls_credited s)"
      by (rule length_delete_le)
    moreover have "distinct (map fst (ls_credited s)) \<Longrightarrow> distinct (map fst (AList.delete i (ls_credited s)))"
      by (rule distinct_delete)
    ultimately show ?thesis
      using True False
      by (auto simp: release_credit_def ledger_shrinks_def in_flight_def session_ok_def fst_delete)
  qed (use False in \<open>auto simp: release_credit_def ledger_shrinks_def in_flight_def session_ok_def\<close>)
qed

end
