(* ===== verification/Wire.thy ===== *)
theory Wire
  imports Prelude
begin

text \<open>
  \<open>protocol/envelope.py\<close>: the message envelope both ends share. \<open>to_dict\<close> is the
  dictionary of the fields in their order, \<open>from_dict\<close> the constructor called with
  keyword arguments: an unknown keyword or a missing \<open>message_type\<close> is a \<open>TypeError\<close>,
  and nothing is checked about the values. The two default factories draw a fresh
  correlation identifier and the current time; both are arguments.
\<close>

definition PROTOCOL_VERSION :: string where "PROTOCOL_VERSION = ''1.0''"

record envelope =
  en_type :: pyval
  en_payload :: pyval
  en_version :: pyval
  en_correlation :: pyval
  en_worker :: pyval
  en_epoch :: pyval
  en_timestamp :: pyval

definition envelope_fields :: "string list" where
  "envelope_fields = [''message_type'', ''payload'', ''protocol_version'', ''correlation_id'',
     ''worker_id'', ''session_epoch'', ''timestamp'']"

definition to_dict :: "envelope \<Rightarrow> pydict" where
  "to_dict e = [(''message_type'', en_type e), (''payload'', en_payload e),
     (''protocol_version'', en_version e), (''correlation_id'', en_correlation e),
     (''worker_id'', en_worker e), (''session_epoch'', en_epoch e), (''timestamp'', en_timestamp e)]"

definition from_dict :: "string \<Rightarrow> string \<Rightarrow> pydict \<Rightarrow> exn + envelope" where
  "from_dict fresh now d =
     (if \<not> set (map fst d) \<subseteq> set envelope_fields \<or> map_of d ''message_type'' = None
      then Inl TypeError
      else Inr \<lparr>en_type = dict_get d ''message_type'',
        en_payload = dict_get_default d ''payload'' (PDict []),
        en_version = dict_get_default d ''protocol_version'' (PStr PROTOCOL_VERSION),
        en_correlation = dict_get_default d ''correlation_id'' (PStr fresh),
        en_worker = dict_get_default d ''worker_id'' PNone,
        en_epoch = dict_get_default d ''session_epoch'' (PInt 0),
        en_timestamp = dict_get_default d ''timestamp'' (PStr now)\<rparr>)"

lemma from_to_dict: "from_dict fresh now (to_dict e) = Inr e"
  by (simp add: from_dict_def to_dict_def envelope_fields_def dict_get_def dict_get_default_def)

lemma to_dict_keys: "map fst (to_dict e) = envelope_fields"
  by (simp add: to_dict_def envelope_fields_def)

end
