(* ===== verification/Assignment.thy ===== *)
theory Assignment
  imports LocalSession Wire
begin

text \<open>
  \<open>coordinator/app/assignment.py\<close>: what the coordinator does with each message of a
  worker, and the two engines of a replica, the assignment pass and the reclaim pass.
  A handler runs against the session, the database and the doorbell of its replica and
  returns them with the exception it raised, if any: a handler that raises after it has
  changed the session leaves that change behind. Clocks, drawn identifiers, the health
  of the database and of Redis, and whether a socket takes a frame are arguments.
\<close>

record ctx =
  cx_settings :: settings
  cx_repr :: "pyval \<Rightarrow> string"
  cx_float :: "rat \<Rightarrow> string"
  cx_up :: bool
  cx_redis :: bool
  cx_now :: time
  cx_tick :: time
  cx_wall :: string
  cx_rid :: uuid
  cx_aid :: uuid

record hub =
  hb_session :: local_session
  hb_db :: db
  hb_bell :: bool
  hb_shown :: "pydict list"
  hb_sent :: "(string \<times> pydict) list"

text \<open>\<open>get_session()\<close> and the statements in it raise when the database is away.\<close>

definition in_session :: "ctx \<Rightarrow> exn + 'a \<Rightarrow> exn + 'a" where
  "in_session cx r = (if cx_up cx then r else Inl DatabaseError)"

definition on_session :: "(local_session \<Rightarrow> local_session) \<Rightarrow> hub \<Rightarrow> hub" where
  "on_session f h = h\<lparr>hb_session := f (hb_session h)\<rparr>"

definition notify_local :: "hub \<Rightarrow> hub" where
  "notify_local h = h\<lparr>hb_bell := True\<rparr>"

definition publish_current_tasks :: "ctx \<Rightarrow> hub \<Rightarrow> hub" where
  "publish_current_tasks cx h =
     (if cx_redis cx then h\<lparr>hb_shown := map snd (ls_current (hb_session h))\<rparr> else h)"

definition send_to_session :: "string \<Rightarrow> pydict \<Rightarrow> hub \<Rightarrow> hub" where
  "send_to_session corr payload h = h\<lparr>hb_sent := hb_sent h @ [(corr, payload)]\<rparr>"

definition renew :: "ctx \<Rightarrow> string \<Rightarrow> hub \<Rightarrow> hub" where
  "renew cx i h = (let (s, d) = renew_if_due (cx_settings cx) (cx_up cx) (cx_now cx) (cx_tick cx) i
       (hb_session h, hb_db h)
     in h\<lparr>hb_session := s, hb_db := d\<rparr>)"

text \<open>The task identifier and the correlation identifier a message carries.\<close>

definition message_task :: "ctx \<Rightarrow> pydict \<Rightarrow> string" where
  "message_task cx payload = get_str (cx_repr cx) payload ''task_id'' []"

definition message_correlation :: "ctx \<Rightarrow> pydict \<Rightarrow> string" where
  "message_correlation cx message = get_str (cx_repr cx) message ''correlation_id'' []"

definition with_payload :: "pydict \<Rightarrow> hub \<Rightarrow> (pydict \<Rightarrow> exn option \<times> hub) \<Rightarrow> exn option \<times> hub" where
  "with_payload message h f = (case payload_of message of Inl e \<Rightarrow> (Some e, h) | Inr p \<Rightarrow> f p)"

subsection \<open>Acknowledgements and capacity\<close>

definition handle_task_ack :: "ctx \<Rightarrow> pydict \<Rightarrow> hub \<Rightarrow> exn option \<times> hub" where
  "handle_task_ack cx message h = with_payload message h (\<lambda>payload.
     let i = message_task cx payload;
         accepted = truthy (dict_get_default payload ''accepted'' (PBool True))
     in case map_of (ls_pending (hb_session h)) i of
         None \<Rightarrow> (None, h)
       | Some corr \<Rightarrow>
           let h1 = on_session (\<lambda>s. s\<lparr>ls_pending := AList.delete i (ls_pending s)\<rparr>) h
           in if accepted then (None, renew cx i h1)
              else if get_str (cx_repr cx) payload ''reason_code'' REFUSE_UNSUPPORTED_TYPE
                        = REFUSE_AT_CAPACITY
              then (None, on_session (\<lambda>s. s\<lparr>ls_saturated := True\<rparr>) h1)
              else (None, notify_local (on_session (\<lambda>s. snd (release_credit i 1 s)) h1)))"

definition freed_slots :: "pydict \<Rightarrow> exn + int" where
  "freed_slots payload = (case py_int (dict_get_default payload ''freed'' (PInt 1)) of
      Inr n \<Rightarrow> Inr n
    | Inl e \<Rightarrow> if e = TypeError \<or> e = ValueError then Inr 1 else Inl e)"

definition handle_capacity :: "ctx \<Rightarrow> pydict \<Rightarrow> hub \<Rightarrow> exn option \<times> hub" where
  "handle_capacity cx message h = with_payload message h (\<lambda>payload.
     case freed_slots payload of
       Inl e \<Rightarrow> (Some e, h)
     | Inr freed \<Rightarrow>
         if freed < 1 then (None, h)
         else let i = message_task cx payload
              in (None, notify_local (publish_current_tasks cx
                   (on_session (\<lambda>s. forget_task i (snd (release_credit i freed s))) h))))"

subsection \<open>Progress of a task\<close>

definition started_entry :: "ctx \<Rightarrow> string \<Rightarrow> string \<Rightarrow> pydict \<Rightarrow> pydict" where
  "started_entry cx i corr payload =
     [(''task_id'', PStr i), (''task_type'', dict_get payload ''task_type''),
      (''progress'', PFloat (Fin 0)), (''started_at'', PStr (cx_wall cx)),
      (''correlation_id'', PStr corr)]"

definition handle_task_started :: "ctx \<Rightarrow> pydict \<Rightarrow> hub \<Rightarrow> exn option \<times> hub" where
  "handle_task_started cx message h = with_payload message h (\<lambda>payload.
     let i = message_task cx payload; corr = message_correlation cx message; s = hb_session h
     in case in_session cx (mark_status (cx_settings cx) i (ls_worker s) RUNNING (cx_now cx) (hb_db h)) of
         Inl e \<Rightarrow> (Some e, h)
       | Inr (outcome, d) \<Rightarrow>
           if outcome \<noteq> TRANSITIONED then (None, h)
           else (None, publish_current_tasks cx (on_session
             (\<lambda>s. (mark_renewed (cx_settings cx) i (cx_tick cx) s)
                \<lparr>ls_current := AList.update i (started_entry cx i corr payload) (ls_current s)\<rparr>)
             (h\<lparr>hb_db := d\<rparr>))))"

text \<open>\<open>max(0.0, min(1.0, x))\<close> with Python's comparisons: a NaN reads as 1.\<close>

fun clamp_unit :: "pyfloat \<Rightarrow> rat" where
  "clamp_unit (Fin r) = max 0 (min 1 r)"
| "clamp_unit NegInf = 0"
| "clamp_unit _ = 1"

definition reported_progress :: "pydict \<Rightarrow> exn + rat" where
  "reported_progress payload = (case py_float (dict_get_default payload ''progress'' (PFloat (Fin 0))) of
      Inr x \<Rightarrow> Inr (clamp_unit x)
    | Inl e \<Rightarrow> if e = TypeError \<or> e = ValueError then Inr 0 else Inl e)"

definition progress_entry :: "ctx \<Rightarrow> pydict \<Rightarrow> rat \<Rightarrow> pydict \<Rightarrow> pydict" where
  "progress_entry cx payload x entry =
     AList.update ''updated_at'' (PStr (cx_wall cx))
       (AList.update ''elapsed_seconds'' (dict_get payload ''elapsed_seconds'')
         (AList.update ''progress'' (PFloat (Fin x)) entry))"

definition handle_task_progress :: "ctx \<Rightarrow> pydict \<Rightarrow> hub \<Rightarrow> exn option \<times> hub" where
  "handle_task_progress cx message h = with_payload message h (\<lambda>payload.
     let i = message_task cx payload; h1 = renew cx i h
     in case map_of (ls_current (hb_session h1)) i of
         None \<Rightarrow> (None, h1)
       | Some entry \<Rightarrow> (case reported_progress payload of
             Inl e \<Rightarrow> (Some e, h1)
           | Inr x \<Rightarrow> (None, publish_current_tasks cx (on_session
               (\<lambda>s. s\<lparr>ls_current := AList.update i (progress_entry cx payload x entry) (ls_current s)\<rparr>)
               h1))))"

subsection \<open>Final reports\<close>

text \<open>The failure and its attempt row are one transaction.\<close>

definition fail_task :: "ctx \<Rightarrow> string \<Rightarrow> uuid \<Rightarrow> string \<Rightarrow> string \<Rightarrow> db \<Rightarrow> exn + outcome \<times> db" where
  "fail_task cx i w error_type corr d =
     bind_exn (mark_status (cx_settings cx) i w FAILED (cx_now cx) d) (\<lambda>(outcome, d1).
       if outcome \<noteq> TRANSITIONED then Inr (outcome, d)
       else bind_exn (record_execution_failure i w error_type corr (cx_aid cx) (cx_now cx) d1)
              (\<lambda>(_, d2). Inr (outcome, d2)))"

definition settle_session :: "bool \<Rightarrow> string \<Rightarrow> local_session \<Rightarrow> local_session" where
  "settle_session release i s = forget_task i (if release then snd (release_credit i 1 s) else s)"

definition handle_task_failed :: "ctx \<Rightarrow> pydict \<Rightarrow> hub \<Rightarrow> exn option \<times> hub" where
  "handle_task_failed cx message h = with_payload message h (\<lambda>payload.
     let i = message_task cx payload;
         error_type = take 100 (get_str (cx_repr cx) payload ''error_type'' ''unknown'');
         corr = message_correlation cx message; s = hb_session h
     in case in_session cx (fail_task cx i (ls_worker s) error_type corr (hb_db h)) of
         Inl e \<Rightarrow> (Some e, h)
       | Inr (outcome, d) \<Rightarrow>
           (None, notify_local (publish_current_tasks cx (on_session
             (settle_session (outcome \<notin> {NOT_OWNER, NOT_FOUND} \<or> holds s i) i)
             (h\<lparr>hb_db := d\<rparr>)))))"

definition outcome_text :: "outcome \<Rightarrow> string" where
  "outcome_text out = (case out of TRANSITIONED \<Rightarrow> ''transitioned'' | NOOP \<Rightarrow> ''noop''
     | NOT_FOUND \<Rightarrow> ''not_found'' | NOT_OWNER \<Rightarrow> ''not_owner'' | ILLEGAL \<Rightarrow> ''illegal''
     | DUPLICATE \<Rightarrow> ''duplicate'' | SUPERSEDED \<Rightarrow> ''superseded'' | FENCED \<Rightarrow> ''fenced''
     | NOT_CANCELLABLE \<Rightarrow> ''not_cancellable'')"

definition rejected_ack :: "string \<Rightarrow> string \<Rightarrow> pydict" where
  "rejected_ack i code = [(''task_id'', PStr i), (''accepted'', PBool False),
     (''outcome'', PStr ''rejected''), (''reason_code'', PStr code)]"

definition result_ack :: "string \<Rightarrow> outcome \<Rightarrow> pydict" where
  "result_ack i out = [(''task_id'', PStr i), (''accepted'', PBool (out \<in> {TRANSITIONED, DUPLICATE})),
     (''outcome'', PStr (outcome_text out))]"

definition reject_result :: "ctx \<Rightarrow> string \<Rightarrow> string \<Rightarrow> string \<Rightarrow> hub \<Rightarrow> hub" where
  "reject_result cx i corr code h =
     (let h1 = renew cx i h;
          h2 = publish_current_tasks cx
                 (on_session (settle_session (i \<noteq> [] \<and> holds (hb_session h1) i) i) h1)
      in notify_local (send_to_session corr (rejected_ack i code) h2))"

definition finish_result :: "ctx \<Rightarrow> string \<Rightarrow> string \<Rightarrow> outcome \<Rightarrow> db \<Rightarrow> hub \<Rightarrow> hub" where
  "finish_result cx i corr outcome d h =
     (let h1 = h\<lparr>hb_db := (if outcome \<in> {TRANSITIONED, FENCED} then d else hb_db h)\<rparr>;
          h2 = (if outcome \<notin> {NOT_OWNER, NOT_FOUND, FENCED} \<or> holds (hb_session h) i
                then publish_current_tasks cx (on_session (settle_session True i) h1)
                else h1)
      in notify_local (send_to_session corr (result_ack i outcome) h2))"

definition handle_task_result :: "ctx \<Rightarrow> pydict \<Rightarrow> hub \<Rightarrow> exn option \<times> hub" where
  "handle_task_result cx message h = with_payload message h (\<lambda>payload.
     let corr = message_correlation cx message; raw = message_task cx payload
     in case validate (cx_repr cx) (cx_float cx) (cf_result_max (cx_settings cx)) (Some payload) of
         Inl (MalformedResult code) \<Rightarrow> (None, reject_result cx raw corr code h)
       | Inl e \<Rightarrow> (Some e, h)
       | Inr env \<Rightarrow> (case in_session cx (complete_task (cx_repr cx) env (ls_worker (hb_session h))
                        (cx_rid cx) (cx_aid cx) (cx_now cx) (hb_db h)) of
             Inl e \<Rightarrow> (Some e, h)
           | Inr (outcome, d) \<Rightarrow>
               (None, finish_result cx (text_of (dict_get env ''task_id'')) corr outcome d h)))"

subsection \<open>The read loop of a socket\<close>

text \<open>The messages of the task protocol, as the read loop of a socket dispatches them.\<close>

definition dispatch :: "ctx \<Rightarrow> pydict \<Rightarrow> hub \<Rightarrow> exn option \<times> hub" where
  "dispatch cx message h =
     (let kind = dict_get message ''message_type'' in
      if kind = PStr ''task_ack'' then handle_task_ack cx message h
      else if kind = PStr ''capacity'' then handle_capacity cx message h
      else if kind = PStr ''task_started'' then handle_task_started cx message h
      else if kind = PStr ''task_progress'' then handle_task_progress cx message h
      else if kind = PStr ''task_failed'' then handle_task_failed cx message h
      else if kind = PStr ''task_result'' then handle_task_result cx message h
      else (None, h))"

end
