(* ===== verification/Replica.thy ===== *)
theory Replica
  imports Assignment
begin

text \<open>
  \<open>coordinator/app/assignment.py\<close>, one coordinator process: the map of the sockets it
  holds, the draining flag, the assignment pass that turns free credits into claimed
  tasks, and the reclaim pass with the wake-up it schedules. A pass awaits the database and
  the sockets; at each of these points the other coroutines of the process, and the other
  processes, may do anything they can do, which the model takes as a function on the state.
  A session is an object: the worker and the epoch name it, and a pass goes on working with
  an object the map has let go of, so these are kept too.
\<close>

record replica =
  rp_sessions :: "(uuid \<times> local_session) list"
  rp_left :: "local_session list"
  rp_db :: db
  rp_bell :: bool
  rp_draining :: bool

definition begin_drain :: "replica \<Rightarrow> replica" where
  "begin_drain r = r\<lparr>rp_draining := True\<rparr>"

definition leave :: "local_session option \<Rightarrow> local_session list \<Rightarrow> local_session list" where
  "leave old xs = (case old of None \<Rightarrow> xs | Some s \<Rightarrow> s # xs)"

definition register_session :: "local_session \<Rightarrow> replica \<Rightarrow> replica" where
  "register_session s r = r\<lparr>rp_left := leave (map_of (rp_sessions r) (ls_worker s)) (rp_left r),
     rp_sessions := AList.update (ls_worker s) s (rp_sessions r), rp_bell := True\<rparr>"

definition unregister_session :: "uuid \<Rightarrow> int \<Rightarrow> replica \<Rightarrow> replica" where
  "unregister_session w epoch r = (case map_of (rp_sessions r) w of
      Some s \<Rightarrow> if ls_epoch s = epoch
        then r\<lparr>rp_left := s # rp_left r, rp_sessions := AList.delete w (rp_sessions r)\<rparr> else r
    | None \<Rightarrow> r)"

text \<open>Following a reference, and assigning to the object behind it.\<close>

definition objects :: "replica \<Rightarrow> local_session list" where
  "objects r = map snd (rp_sessions r) @ rp_left r"

definition object_at :: "replica \<Rightarrow> uuid \<Rightarrow> int \<Rightarrow> local_session option" where
  "object_at r w epoch = find (\<lambda>s. ls_worker s = w \<and> ls_epoch s = epoch) (objects r)"

definition assigned_object :: "local_session \<Rightarrow> local_session \<Rightarrow> local_session" where
  "assigned_object s t = (if ls_worker t = ls_worker s \<and> ls_epoch t = ls_epoch s then s else t)"

definition set_object :: "local_session \<Rightarrow> replica \<Rightarrow> replica" where
  "set_object s r = r\<lparr>rp_sessions := map (map_prod id (assigned_object s)) (rp_sessions r),
     rp_left := map (assigned_object s) (rp_left r)\<rparr>"

definition log_unacknowledged :: "local_session \<Rightarrow> (string \<times> string) list" where
  "log_unacknowledged s = ls_pending s"

subsection \<open>Delivery\<close>

definition assign_payload :: "(time \<Rightarrow> string) \<Rightarrow> task_row \<Rightarrow> pydict" where
  "assign_payload fmt t = [(''task_id'', PStr (uuid_str (tk_id t))), (''task_type'', PStr (tk_type t)),
     (''parameters'', PDict (tk_parameters t)),
     (''payload'', (case tk_payload t of None \<Rightarrow> PNone | Some p \<Rightarrow> PDict p)),
     (''priority'', PInt (tk_priority t)),
     (''assigned_at'', (case tk_assigned_at t of None \<Rightarrow> PNone | Some x \<Rightarrow> PStr (fmt x))),
     (''attempt'', PInt (tk_attempt t))]"

text \<open>
  What one turn of a pass meets: what the others do between the reading of the credits and
  the claim, between the claim and the first send and during each send, the clock and the
  locked rows of the statement, whether the database answers, and whether the socket takes
  a frame.
\<close>

record turn_env =
  te_before :: "replica \<Rightarrow> replica"
  te_now :: time
  te_locked :: "uuid set"
  te_answers :: bool
  te_after :: "replica \<Rightarrow> replica"
  te_sends :: "string \<Rightarrow> bool"
  te_sending :: "string \<Rightarrow> replica \<Rightarrow> replica"

text \<open>The credit is taken on the object of the session, as it is when the send has returned.\<close>

definition deliver :: "turn_env \<Rightarrow> uuid \<Rightarrow> int \<Rightarrow> task_row \<Rightarrow> replica \<Rightarrow> bool \<times> replica" where
  "deliver te w epoch t r =
     (let i = uuid_str (tk_id t); r1 = te_sending te i r
      in if \<not> te_sends te i then (False, r1)
         else (True, case object_at r1 w epoch of
             None \<Rightarrow> r1
           | Some s \<Rightarrow> set_object (credit i (tk_correlation t) s) r1))"

fun deliver_all :: "turn_env \<Rightarrow> uuid \<Rightarrow> int \<Rightarrow> task_row list \<Rightarrow> replica \<Rightarrow> nat \<times> replica" where
  "deliver_all te w epoch [] r = (0, r)"
| "deliver_all te w epoch (t # ts) r =
     (let (sent, r1) = deliver te w epoch t r; (n, r2) = deliver_all te w epoch ts r1
      in ((if sent then Suc n else n), r2))"

subsection \<open>The assignment pass\<close>

record pass_env =
  pv_up :: bool
  pv_counting :: "replica \<Rightarrow> replica"
  pv_turn :: "nat \<Rightarrow> turn_env"
  pv_yield :: "replica \<Rightarrow> replica"

definition candidates :: "replica \<Rightarrow> (uuid \<times> int) list" where
  "candidates r = map (\<lambda>(w, s). (w, ls_epoch s))
     (filter (\<lambda>(w, s). 0 < free_credits s \<and> ls_types s \<noteq> []) (rp_sessions r))"

text \<open>
  A claim that committed, for the record: the session as its turn came, the rows, the tasks
  whose frame the socket took, and the database the commit left.
\<close>

record claim_event =
  cm_session :: local_session
  cm_rows :: "task_row list"
  cm_sent :: "string list"
  cm_db :: db

definition sent_ids :: "turn_env \<Rightarrow> task_row list \<Rightarrow> string list" where
  "sent_ids te rows = filter (te_sends te) (map (\<lambda>t. uuid_str (tk_id t)) rows)"

text \<open>
  One turn after the other. The credits are read when the turn comes, not when the candidates
  were chosen. A session the pass refers to is never gone; the first branch is not taken.
\<close>

fun assign_loop ::
  "settings \<Rightarrow> (nat \<Rightarrow> turn_env) \<Rightarrow> (uuid \<times> int) list \<Rightarrow> nat \<Rightarrow> nat \<Rightarrow> replica
     \<Rightarrow> (exn + nat) \<times> claim_event list \<times> replica" where
  "assign_loop c turns [] i n r = (Inr n, [], r)"
| "assign_loop c turns ((w, epoch) # cs) i n r = (case object_at r w epoch of
      None \<Rightarrow> assign_loop c turns cs (Suc i) n r
    | Some s \<Rightarrow>
        let te = turns i; r1 = te_before te r
        in (case dequeue c w (min (free_credits s) (cf_dequeue_max c)) (cf_dequeue_max c) (Some (ls_types s))
                  (te_locked te) (te_now te) (rp_db r1) of
             Inl e \<Rightarrow> (Inl e, [], r1)
           | Inr (rows, d) \<Rightarrow>
               if \<not> te_answers te then (Inl DatabaseError, [], r1)
               else if rows = [] then assign_loop c turns cs (Suc i) n (te_after te r1)
               else let (k, r2) = deliver_all te w epoch rows (te_after te (r1\<lparr>rp_db := d\<rparr>));
                        (res, evs, r3) = assign_loop c turns cs (Suc i) (n + k) r2
                    in (res, \<lparr>cm_session = s, cm_rows = rows, cm_sent = sent_ids te rows, cm_db = d\<rparr> # evs, r3)))"

definition assign_once ::
  "settings \<Rightarrow> pass_env \<Rightarrow> replica \<Rightarrow> (exn + nat) \<times> claim_event list \<times> replica" where
  "assign_once c env r =
     (if rp_draining r then (Inr 0, [], r)
      else if candidates r = [] then (Inr 0, [], r)
      else let r1 = pv_counting env r
           in if \<not> pv_up env then (Inl DatabaseError, [], r1)
              else if queue_depth (rp_db r1) = 0 then (Inr 0, [], r1)
              else assign_loop c (pv_turn env) (candidates r) 0 0 r1)"

subsection \<open>Draining and disconnecting\<close>

definition outstanding :: "replica \<Rightarrow> nat" where
  "outstanding r = sum_list (map (\<lambda>(w, s). length (ls_pending s)) (rp_sessions r))"

text \<open>
  The wait of a graceful shutdown over the sequence of states its polls see, each with
  the time elapsed since the start; the last poll is the one the wait ends on.
\<close>

fun drain_wait :: "time \<Rightarrow> (replica \<times> time) list \<Rightarrow> (replica \<times> time) option" where
  "drain_wait timeout [] = None"
| "drain_wait timeout ((r, elapsed) # polls) =
     (if 0 < outstanding r \<and> elapsed < timeout then drain_wait timeout polls else Some (r, elapsed))"

record drain_report =
  dr_sessions :: nat
  dr_at_start :: nat
  dr_at_end :: nat
  dr_waited :: time
  dr_timed_out :: bool

definition drain_local_sessions :: "time \<Rightarrow> (replica \<times> time) list \<Rightarrow> drain_report option" where
  "drain_local_sessions timeout polls = (case polls of [] \<Rightarrow> None | (r0, _) # _ \<Rightarrow>
     map_option (\<lambda>(r, elapsed). \<lparr>dr_sessions = length (rp_sessions r), dr_at_start = outstanding r0,
       dr_at_end = outstanding r, dr_waited = of_int (round_half_even (elapsed * 1000)) / 1000,
       dr_timed_out = (0 < outstanding r)\<rparr>) (drain_wait timeout polls))"

definition shorten_local_leases :: "settings \<Rightarrow> bool \<Rightarrow> uuid \<Rightarrow> time \<Rightarrow> db \<Rightarrow> nat \<times> db" where
  "shorten_local_leases c up w now d =
     (if \<not> up then (0, d)
      else let (n, e) = shorten_worker_leases w (cf_disconnect_grace c) now d
           in (n, if n = 0 then d else e))"

subsection \<open>The reclaim pass\<close>

definition cancel_payload :: "string \<Rightarrow> pydict" where
  "cancel_payload task_id = [(''task_id'', PStr task_id), (''reason'', PStr ''lease_expired'')]"

text \<open>The push message for the worker that lost a task: its address, the task's trace and the body.\<close>

definition cancel_on_worker :: "reclaimed \<Rightarrow> (uuid \<times> string \<times> pydict) list" where
  "cancel_on_worker row = (case rc_previous_worker row of
      None \<Rightarrow> []
    | Some w \<Rightarrow> [(w, tk_correlation (rc_task row), cancel_payload (uuid_str (tk_id (rc_task row))))])"

text \<open>The delay of the wake-up, if one is scheduled.\<close>

definition schedule_retry_wake :: "time \<Rightarrow> reclaimed list \<Rightarrow> time option" where
  "schedule_retry_wake now rows =
     (let moments = concat (map (\<lambda>row. case tk_not_before (rc_task row) of
            None \<Rightarrow> [] | Some b \<Rightarrow> [b]) rows)
      in case moments of
          [] \<Rightarrow> None
        | m # ms \<Rightarrow> let delay = fold min ms m - now in if delay \<le> 0 then None else Some delay)"

record reclaim_env =
  rv_up :: bool
  rv_now :: time
  rv_wall :: time
  rv_locked :: "uuid set"
  rv_random :: "uuid \<Rightarrow> rat"
  rv_ids :: "nat \<Rightarrow> uuid"
  rv_yield :: "replica \<Rightarrow> replica"

record reclaim_effects =
  ef_cancels :: "(uuid \<times> string \<times> pydict) list"
  ef_published :: bool
  ef_wake :: "time option"

definition reclaim_once ::
  "settings \<Rightarrow> reclaim_env \<Rightarrow> replica \<Rightarrow> (exn + nat \<times> reclaim_effects) \<times> replica" where
  "reclaim_once c env r =
     (if \<not> rv_up env then (Inl DatabaseError, r)
      else case reclaim_expired_leases c (cf_reclaim_batch c) (rv_locked env) (rv_random env) (rv_ids env)
              (rv_now env) (rp_db r) of
          Inl e \<Rightarrow> (Inl e, r)
        | Inr (rows, d) \<Rightarrow>
            if rows = [] then (Inr (0, \<lparr>ef_cancels = [], ef_published = False, ef_wake = None\<rparr>), r)
            else (Inr (length rows, \<lparr>ef_cancels = concat (map cancel_on_worker rows), ef_published = True,
                         ef_wake = schedule_retry_wake (rv_wall env) rows\<rparr>),
                  r\<lparr>rp_db := d, rp_bell := True\<rparr>))"

subsection \<open>Each pass makes the work ahead smaller\<close>

lemma length_filter_update:
  assumes "\<And>x. x \<in> set xs \<Longrightarrow> p x \<Longrightarrow> \<not> q (f x)" and "\<And>x. x \<in> set xs \<Longrightarrow> p x \<Longrightarrow> q x"
    and "\<exists>x \<in> set xs. p x"
  shows "length (filter q (update_where p f xs)) < length (filter q xs)"
proof -
  have le: "length (filter q (update_where p f ys)) \<le> length (filter q ys)"
    if "\<And>x. x \<in> set ys \<Longrightarrow> p x \<Longrightarrow> \<not> q (f x)" for ys
    using that by (induction ys) auto
  from assms show ?thesis
  proof (induction xs)
    case (Cons x xs)
    show ?case
    proof (cases "p x")
      case True
      with Cons.prems le [of xs] show ?thesis by (auto simp: less_Suc_eq_le)
    next
      case False
      with Cons show ?thesis by auto
    qed
  qed simp
qed

lemma dequeue_shrinks_queue:
  assumes dq: "dequeue c w limit mx types locked now d = Inr (rows, e)" and ne: "rows \<noteq> []"
    and ok: "distinct (map tk_id (db_tasks d))"
  shows "queue_depth e < queue_depth d"
proof -
  let ?cl = "claim_list c w limit types locked now d"
  have e: "db_tasks e = update_where (\<lambda>t. tk_id t \<in> tk_id ` set ?cl) (claim_stamp c d w now) (db_tasks d)"
    by (simp add: dequeue_Inr(2) [OF dq] map_tasks_def)
  have cl: "?cl \<noteq> []" using ne dequeue_Inr(1) [OF dq] by auto
  have q: "tk_status t = QUEUED"
    if t: "t \<in> set (db_tasks d)" and i: "tk_id t \<in> tk_id ` set ?cl" for t
  proof -
    obtain u where u: "u \<in> set ?cl" "tk_id t = tk_id u" using i by blast
    then have "u \<in> set (db_tasks d)" "tk_status u = QUEUED"
      using claim_list_mem [OF u(1)] by (auto simp: claimable_def)
    with ok u t have "t = u" by (auto simp: distinct_map inj_on_def)
    with \<open>tk_status u = QUEUED\<close> show ?thesis by simp
  qed
  have some: "\<exists>t \<in> set (db_tasks d). tk_id t \<in> tk_id ` set ?cl"
    using cl claim_list_mem [of "hd ?cl"] by (metis hd_in_set imageI)
  show ?thesis
    unfolding queue_depth_def e by (rule length_filter_update [OF _ _ some]) (auto simp: claim_stamp_def q)
qed

subsection \<open>The loops that run a pass until it finds nothing\<close>

text \<open>
  The inner loops of the two engines, over the environments successive passes meet. Between
  two passes the loop yields, and the others go on. \<open>None\<close> is a loop that never ends.
\<close>

partial_function (option) assign_drain ::
  "settings \<Rightarrow> (nat \<Rightarrow> pass_env) \<Rightarrow> nat \<Rightarrow> replica \<Rightarrow> (exn option \<times> replica) option" where
  "assign_drain c env k r = (case assign_once c (env k) r of
      (Inl e, _, r') \<Rightarrow> Some (Some e, r')
    | (Inr n, _, r') \<Rightarrow> if 0 < n then assign_drain c env (Suc k) (pv_yield (env k) r') else Some (None, r'))"

partial_function (option) reclaim_drain ::
  "settings \<Rightarrow> (nat \<Rightarrow> reclaim_env) \<Rightarrow> nat \<Rightarrow> replica \<Rightarrow> (exn option \<times> replica) option" where
  "reclaim_drain c env k r = (case reclaim_once c (env k) r of
      (Inl e, r') \<Rightarrow> Some (Some e, r')
    | (Inr (n, _), r') \<Rightarrow>
        if cf_reclaim_batch c \<le> int n then reclaim_drain c env (Suc k) (rv_yield (env k) r') else Some (None, r'))"

definition assignment_round :: "settings \<Rightarrow> (nat \<Rightarrow> pass_env) \<Rightarrow> replica \<Rightarrow> (exn option \<times> replica) option" where
  "assignment_round c env r = assign_drain c env 0 (r\<lparr>rp_bell := False\<rparr>)"

end
