(* ===== verification/AssignmentProperties.thy ===== *)
theory AssignmentProperties
  imports Replica QueueProperties CompletionProperties
begin

text \<open>
  What the task protocol promises: whatever a worker sends, its session never counts more
  work than the worker may run, and a positive acknowledgement means a stored result.
\<close>

subsection \<open>One message\<close>

lemma hub_session_simps [simp]:
  "hb_session (notify_local h) = hb_session h" "hb_session (publish_current_tasks cx h) = hb_session h"
  "hb_session (send_to_session corr p h) = hb_session h"
  "hb_session (on_session f h) = f (hb_session h)"
  "hb_db (notify_local h) = hb_db h" "hb_db (publish_current_tasks cx h) = hb_db h"
  "hb_db (send_to_session corr p h) = hb_db h" "hb_db (on_session f h) = hb_db h"
  by (simp_all add: notify_local_def publish_current_tasks_def send_to_session_def on_session_def)

lemma ledger_renew [simp, intro]: "ledger_shrinks (hb_session h) (hb_session (renew cx i h))"
  by (simp add: renew_def renew_if_due_def Let_def split: prod.splits)

lemma ledger_settle [simp, intro]: "ledger_shrinks s (settle_session b i s)"
  using ledger_trans [OF ledger_release ledger_forget] by (simp add: settle_session_def)

lemma ledger_after: "ledger_shrinks s t \<Longrightarrow> ledger_shrinks t (f t) \<Longrightarrow> ledger_shrinks s (f t)"
  by (rule ledger_trans)

abbreviation shrinks :: "hub \<Rightarrow> exn option \<times> hub \<Rightarrow> bool" where
  "shrinks h r \<equiv> ledger_shrinks (hb_session h) (hb_session (snd r))"

lemma with_payload_shrinks:
  "(\<And>p. shrinks h (f p)) \<Longrightarrow> shrinks h (with_payload message h f)"
  by (simp add: with_payload_def split: sum.splits)

lemma ack_shrinks: "shrinks h (handle_task_ack cx message h)"
proof -
  let ?f = "\<lambda>i s. s\<lparr>ls_pending := AList.delete i (ls_pending s)\<rparr>"
  have p: "ledger_shrinks s (?f i s)" for i s by (rule ledger_same) simp_all
  have sat: "ledger_shrinks s ((?f i s)\<lparr>ls_saturated := True\<rparr>)" for i s by (rule ledger_same) simp_all
  have "ledger_shrinks (hb_session h) (hb_session (renew cx i (on_session (?f i) h)))" for i
    using ledger_trans [OF p [of "hb_session h" i]] ledger_renew [of "on_session (?f i) h" cx i] by simp
  moreover have "ledger_shrinks (hb_session h) (snd (release_credit i 1 (?f i (hb_session h))))" for i
    by (rule ledger_trans [OF p ledger_release])
  ultimately show ?thesis
    unfolding handle_task_ack_def
    by (intro with_payload_shrinks) (simp add: Let_def sat split: option.splits)
qed

lemma capacity_shrinks: "shrinks h (handle_capacity cx message h)"
  unfolding handle_capacity_def
  by (intro with_payload_shrinks)
    (simp add: Let_def ledger_trans [OF ledger_release ledger_forget] split: sum.splits)

lemma started_shrinks: "shrinks h (handle_task_started cx message h)"
proof -
  have "ledger_shrinks s ((mark_renewed c i tick s)\<lparr>ls_current := x\<rparr>)" for c i tick s x
    by (rule ledger_same) (simp_all add: mark_renewed_def)
  then show ?thesis
    unfolding handle_task_started_def
    by (intro with_payload_shrinks) (simp add: Let_def split: sum.splits)
qed

lemma progress_shrinks: "shrinks h (handle_task_progress cx message h)"
proof -
  have "ledger_shrinks s (s\<lparr>ls_current := x\<rparr>)" for s x by (rule ledger_same) simp_all
  then have "ledger_shrinks (hb_session h) ((hb_session (renew cx i h))\<lparr>ls_current := x\<rparr>)" for i x
    using ledger_trans [OF ledger_renew] by blast
  then show ?thesis
    unfolding handle_task_progress_def
    by (intro with_payload_shrinks) (simp add: Let_def split: sum.splits option.splits)
qed

lemma failed_shrinks: "shrinks h (handle_task_failed cx message h)"
  unfolding handle_task_failed_def
  by (intro with_payload_shrinks) (simp add: Let_def split: sum.splits)

lemma result_shrinks: "shrinks h (handle_task_result cx message h)"
proof -
  have "ledger_shrinks (hb_session h) (settle_session b i (hb_session (renew cx i h)))" for b i
    by (rule ledger_trans [OF ledger_renew ledger_settle])
  then show ?thesis
    unfolding handle_task_result_def
    by (intro with_payload_shrinks)
      (simp add: Let_def reject_result_def finish_result_def split: sum.splits exn.splits)
qed

lemmas handlers_shrink = ack_shrinks capacity_shrinks started_shrinks progress_shrinks failed_shrinks
  result_shrinks

lemma dispatch_shrinks: "shrinks h (dispatch cx message h)"
  using handlers_shrink by (simp add: dispatch_def Let_def)

text \<open>
  C20: Whatever message a worker sends, in whatever order and as often as it likes, its
  session keeps the ledger in order: one credit per task, the residue never negative, the
  work counted never above what the worker may run. A message never adds a credit; a task
  it names wrongly or twice releases at most what is there.
\<close>

theorem credit_ledger_kept:
  assumes "session_ok (hb_session h)" and "dispatch cx message h = (raised, h')"
  shows "session_ok (hb_session h') \<and> in_flight (hb_session h') \<le> in_flight (hb_session h)
    \<and> 0 \<le> free_credits (hb_session h') \<and> free_credits (hb_session h') \<le> ls_max (hb_session h)
    \<and> ls_max (hb_session h') = ls_max (hb_session h)
    \<and> (\<forall>i. holds (hb_session h') i \<longrightarrow> holds (hb_session h) i)"
proof -
  have l: "ledger_shrinks (hb_session h) (hb_session h')"
    using dispatch_shrinks [of h cx message] assms(2) by simp
  then have "session_ok (hb_session h')" "ls_max (hb_session h') = ls_max (hb_session h)"
    using assms(1) by (simp_all add: ledger_shrinks_def)
  with l free_credits_range [of "hb_session h'"] assms(1) show ?thesis
    unfolding ledger_shrinks_def holds_def by auto
qed

subsection \<open>A connection opens\<close>

lemma supported_registered: "set (supported_types v) \<subseteq> set task_type_names"
  by (cases v) (auto simp: supported_types_def is_registered_def text_of_def split: pyval.splits)

text \<open>
  Whatever a worker declares when it connects, the session it gets can run at least one
  and at most the configured ceiling of tasks, supports registered types only, and starts
  with a ledger in order that counts the work it says it still runs.
\<close>

theorem hello_sanitised:
  assumes "parse_capabilities c p = Inr (n, types)" and "parse_tasks_in_flight p n = Inr k"
    and "1 \<le> cf_conc_ceiling c"
  shows "1 \<le> n \<and> n \<le> cf_conc_ceiling c \<and> set types \<subseteq> set task_type_names
    \<and> session_ok (open_session w epoch n types k)
    \<and> free_credits (open_session w epoch n types k) = n - k"
proof -
  have n: "1 \<le> n" "n \<le> cf_conc_ceiling c" and t: "set types \<subseteq> set task_type_names"
    using assms(1,3) supported_registered
    by (auto simp: parse_capabilities_def Let_def bind_exn_def split: sum.splits if_splits)
  have "0 \<le> k" "k \<le> n"
    using assms(2) n by (auto simp: parse_tasks_in_flight_def Let_def split: if_splits sum.splits)
  with n t show ?thesis
    by (simp add: session_ok_def open_session_def in_flight_def free_credits_def)
qed

definition ex_hello :: pydict where
  "ex_hello = [(''max_concurrent'', PInt 1000), (''supported_task_types'', PList [PStr ''sleep'', PStr ''mine'']),
     (''tasks_in_flight'', PStr ''2'')]"

theorem hello_sanitised_witness:
  "session_ok (open_session 1 7 64 [''sleep''] 2) \<and> free_credits (open_session 1 7 64 [''sleep''] 2) = 62"
proof -
  have h: "parse_capabilities default_settings (Some ex_hello) = Inr (64, [''sleep''])"
    by (simp add: parse_capabilities_def ex_hello_def dict_get_def bind_exn_def supported_types_def
        is_registered_def text_of_def task_type_names default_settings_def)
  have k: "parse_tasks_in_flight (Some ex_hello) 64 = Inr 2"
    by (simp add: parse_tasks_in_flight_def ex_hello_def dict_get_def read_int_def strip_by_def
        is_space_def digit_val_def Let_def)
  show ?thesis
    using hello_sanitised [OF h k, of 1 7] by (simp add: default_settings_def)
qed

subsection \<open>Full workers\<close>

text \<open>
  A worker that refuses a task because it is full is left alone: its credit stays
  taken, the doorbell is not rung, and no assignment pass that starts afterwards considers it,
  however large the queue, until a later message of that worker reopens it.
\<close>

theorem refusal_closes_session:
  assumes "message_task cx payload = i" and "payload_of message = Inr payload"
    and "dict_get message ''message_type'' = PStr ''task_ack''"
    and "map_of (ls_pending (hb_session h)) i = Some corr"
    and "dict_get payload ''accepted'' = PBool False"
    and "get_str (cx_repr cx) payload ''reason_code'' REFUSE_UNSUPPORTED_TYPE = REFUSE_AT_CAPACITY"
  shows "\<exists>h'. dispatch cx message h = (None, h')
    \<and> ls_credited (hb_session h') = ls_credited (hb_session h)
    \<and> hb_bell h' = hb_bell h \<and> hb_db h' = hb_db h
    \<and> free_credits (hb_session h') = 0
    \<and> (\<forall>r w. distinct (map fst (rp_sessions r)) \<and> map_of (rp_sessions r) w = Some (hb_session h')
         \<longrightarrow> w \<notin> fst ` set (candidates r))"
proof -
  let ?s = "(hb_session h)\<lparr>ls_pending := AList.delete i (ls_pending (hb_session h)), ls_saturated := True\<rparr>"
  let ?h = "h\<lparr>hb_session := ?s\<rparr>"
  have "dict_get_default payload ''accepted'' (PBool True) = PBool False"
    using assms(5) by (auto simp: dict_get_def dict_get_default_def split: option.splits)
  then have "dispatch cx message h = (None, ?h)"
    using assms by (simp add: dispatch_def handle_task_ack_def with_payload_def Let_def on_session_def)
  moreover have free: "free_credits ?s = 0" by (simp add: free_credits_def)
  moreover have "\<forall>r w. distinct (map fst (rp_sessions r)) \<and> map_of (rp_sessions r) w = Some ?s
      \<longrightarrow> w \<notin> fst ` set (candidates r)"
  proof (intro allI impI notI)
    fix r w assume r: "distinct (map fst (rp_sessions r)) \<and> map_of (rp_sessions r) w = Some ?s"
      and "w \<in> fst ` set (candidates r)"
    then obtain s where "(w, s) \<in> set (rp_sessions r)" "0 < free_credits s" by (auto simp: candidates_def)
    then have "map_of (rp_sessions r) w = Some s" using r by (intro map_of_is_SomeI) simp_all
    with r have "s = ?s" by simp
    with free \<open>0 < free_credits s\<close> show False by simp
  qed
  ultimately show ?thesis by (intro exI [of _ ?h]) simp
qed

definition ex_session :: local_session where
  "ex_session = credit (uuid_str 10) ''corr'' (open_session 1 7 4 [''sleep''] 0)"

definition ex_hub :: hub where
  "ex_hub = \<lparr>hb_session = ex_session, hb_db = ex_running, hb_bell = False, hb_shown = [], hb_sent = []\<rparr>"

definition ex_ctx :: ctx where
  "ex_ctx = \<lparr>cx_settings = default_settings, cx_repr = (\<lambda>_. []), cx_float = (\<lambda>_. []), cx_up = True,
     cx_redis = True, cx_now = 60, cx_tick = 5, cx_wall = ''now'', cx_rid = 20, cx_aid = 21\<rparr>"

definition ex_message :: "string \<Rightarrow> pydict \<Rightarrow> pydict" where
  "ex_message kind payload = [(''message_type'', PStr kind), (''payload'', PDict payload)]"

definition ex_refusal :: pydict where
  "ex_refusal = [(''task_id'', PStr (uuid_str 10)), (''accepted'', PBool False),
     (''reason_code'', PStr ''at_capacity'')]"

lemma ex_session_ok: "session_ok ex_session"
  by (simp add: ex_session_def session_ok_def credit_def open_session_def in_flight_def)

theorem credit_ledger_kept_witness:
  "session_ok (hb_session (snd (dispatch ex_ctx (ex_message ''capacity'' []) ex_hub)))"
  using credit_ledger_kept [of ex_hub, OF _ prod.collapse [symmetric]] ex_session_ok
  by (simp add: ex_hub_def)

theorem refusal_closes_session_witness:
  "\<exists>h'. dispatch ex_ctx (ex_message ''task_ack'' ex_refusal) ex_hub = (None, h')
     \<and> free_credits (hb_session h') = 0"
  using refusal_closes_session [of ex_ctx ex_refusal "uuid_str 10" "ex_message ''task_ack'' ex_refusal"
      ex_hub "''corr''"]
  by (simp add: ex_refusal_def message_task_def ex_message_def payload_of_def dict_get_def py_or_def
      get_str_def ex_hub_def ex_session_def credit_def open_session_def REFUSE_AT_CAPACITY_def) blast

text \<open>Any failure report reopens a refused session, even one that names no task at all.\<close>

lemma failure_report_reopens:
  assumes "dict_get message ''message_type'' = PStr ''task_failed''"
    and "dispatch cx message h = (None, h')"
  shows "\<not> ls_saturated (hb_session h') \<and> hb_bell h'"
proof -
  have "\<not> ls_saturated (settle_session b i s)" for b i s
    by (simp add: settle_session_def forget_task_def)
  moreover have "hb_bell (notify_local g)" for g by (simp add: notify_local_def)
  ultimately show ?thesis
    using assms by (auto simp: dispatch_def Let_def handle_task_failed_def with_payload_def split: sum.splits)
qed

subsection \<open>Telemetry and answers\<close>

lemma renew_lease_refused: "renew_lease c i w now d = (False, e) \<Longrightarrow> e = d"
  by (auto simp: renew_lease_def map_tasks_def update_where_id split: option.splits)

lemma renew_db:
  "hb_db (renew cx i h) = (if entitled (hb_session h) i \<and> lease_due (hb_session h) i (cx_tick cx) \<and> cx_up cx
     then snd (renew_lease (cx_settings cx) i (ls_worker (hb_session h)) (cx_now cx) (hb_db h))
     else hb_db h)"
  by (auto simp: renew_def renew_if_due_def Let_def dest: renew_lease_refused split: prod.splits)

lemma progress_db:
  "payload_of message = Inr p \<Longrightarrow>
   hb_db (snd (handle_task_progress cx message h)) = hb_db (renew cx (message_task cx p) h)"
  by (simp add: handle_task_progress_def with_payload_def Let_def split: option.splits sum.splits)

text \<open>
  What a progress message says decides nothing: two messages about the same task leave
  the same database whatever figures they carry, even when one of them raises. About a task
  the session was not given and the database did not name at the connection, a message
  writes nothing; otherwise it at most renews that one lease, and only when it is due.
\<close>

theorem progress_content_irrelevant:
  assumes "payload_of m = Inr p" and "payload_of m' = Inr q"
    and "message_task cx p = i" "message_task cx q = i"
  shows "hb_db (snd (handle_task_progress cx m h)) = hb_db (snd (handle_task_progress cx m' h))
    \<and> (hb_db (snd (handle_task_progress cx m h)) \<noteq> hb_db h \<longrightarrow>
         (holds (hb_session h) i \<or> i \<in> ls_recovered (hb_session h))
         \<and> lease_due (hb_session h) i (cx_tick cx)
         \<and> hb_db (snd (handle_task_progress cx m h)) =
             snd (renew_lease (cx_settings cx) i (ls_worker (hb_session h)) (cx_now cx) (hb_db h)))"
  using assms by (auto simp: progress_db renew_db entitled_def)

lemma payload_of_message: "p \<noteq> [] \<Longrightarrow> payload_of (ex_message kind p) = Inr p"
  by (simp add: payload_of_def ex_message_def dict_get_def py_or_def)

lemma message_task_first: "i \<noteq> [] \<Longrightarrow> message_task cx ((''task_id'', PStr i) # d) = i"
  by (simp add: message_task_def)

theorem progress_content_irrelevant_witness:
  "hb_db (snd (handle_task_progress ex_ctx
       (ex_message ''task_progress'' [(''task_id'', PStr (uuid_str 10)), (''progress'', PInt (10 ^ 400))]) ex_hub))
   = hb_db (snd (handle_task_progress ex_ctx
       (ex_message ''task_progress'' [(''task_id'', PStr (uuid_str 10)), (''progress'', PFloat NaN)]) ex_hub))"
  by (rule progress_content_irrelevant [OF payload_of_message payload_of_message message_task_first
        message_task_first, THEN conjunct1]) simp_all

lemma validated_token:
  assumes "validate rp fr mb (Some p) = Inr env"
  shows "\<exists>i n epoch token. envelope_for env i n epoch token \<and> dict_get p ''idempotency_token'' = PStr token"
  using assms
proof (rule validate_Inr)
  fix i token dur attempt epoch x
  assume t: "require_token (case Some p of None \<Rightarrow> [] | Some d \<Rightarrow> d) = Inr token"
    and n: "0 \<le> attempt" "0 \<le> epoch"
    and sl: "seal fr mb (base_envelope (uuid_str i) COMPLETED attempt epoch token x
       (dict_get (case Some p of None \<Rightarrow> [] | Some d \<Rightarrow> d) ''result'')
       (truthy (dict_get (case Some p of None \<Rightarrow> [] | Some d \<Rightarrow> d) ''truncated''))
       (dict_get (case Some p of None \<Rightarrow> [] | Some d \<Rightarrow> d) ''original_size_bytes'')) = Inr env"
  have "envelope_for env i attempt epoch token"
    using seal_get [OF sl] n t by (simp add: envelope_for_def base_envelope_get require_token_Inr)
  then show ?thesis using t by (auto simp: require_token_Inr)
qed

lemma accepted_outcome:
  assumes ok: "db_ok d" and env: "envelope_for env i n epoch token"
    and c: "complete_task rp env w rid aid now d = Inr (out, e)" and out: "out \<in> {TRANSITIONED, DUPLICATE}"
  shows "\<exists>t r. find_task e i = Some t \<and> tk_status t = COMPLETED \<and> tk_result t = Some (rs_id r)
    \<and> find_result e (rs_id r) = Some r \<and> stored_token (rs_payload r) = Some token"
  using ok env c
proof (cases rule: complete_cases)
  case (terminal t)
  obtain r where r: "tk_result t = Some (rs_id r)" "find_result d (rs_id r) = Some r"
      "stored_token (rs_payload r) = Some token"
  proof -
    obtain j row where "tk_result t = Some j" "find_result d j = Some row"
        "stored_token (rs_payload row) = Some token"
      using terminal(3) out
      by (auto simp: terminal_result_outcome_def split: option.splits if_splits)
    moreover have "rs_id row = j" using calculation(2) by (auto simp: find_result_def dest: find_key)
    ultimately show thesis by (intro that [of row]) simp_all
  qed
  moreover have "tk_status t = COMPLETED"
    using db_ok_find [OF ok terminal(1)] r(1) by (simp add: task_ok_def)
  ultimately show ?thesis using terminal by blast
next
  case (stored t d')
  obtain m where new: "rid \<notin> rs_id ` set (db_results d)"
    and d': "d' = d\<lparr>db_results := db_results d @ [\<lparr>rs_id = rid, rs_payload = env,
        rs_size_bytes = m, rs_submitted_at = now\<rparr>]\<rparr>"
    using insert_result_Inr [OF stored(7)] by blast
  have "find (\<lambda>r. rs_id r = rid) (db_results d) = None" using new by (auto simp: find_None_iff)
  then show ?thesis
    using stored(1) stored_token_envelope [OF env]
    by (intro exI [of _ "complete_stamp rid now t"] exI [of _ "\<lparr>rs_id = rid, rs_payload = env,
        rs_size_bytes = m, rs_submitted_at = now\<rparr>"])
      (simp add: stored(8) d' find_task_set_task find_result_def find_snoc)
qed (use out in auto)

lemma settled_not_held:
  assumes "session_ok s" "i \<noteq> []"
  shows "\<not> holds (settle_session True i s) i"
proof -
  have "\<not> holds (snd (release_credit i 1 s)) i"
  proof (cases "holds s i")
    case True
    then show ?thesis by (rule release_named_held(2) [OF assms(1) _ assms(2)])
  next
    case False
    then show ?thesis using assms(2) by (simp add: release_credit_def holds_def)
  qed
  then show ?thesis by (simp add: settle_session_def forget_task_def holds_def)
qed

lemma finish_result_fields:
  "hb_sent (finish_result cx i corr out d h) = hb_sent h @ [(corr, result_ack i out)]"
  "hb_bell (finish_result cx i corr out d h)"
  "hb_db (finish_result cx i corr out d h) = (if out \<in> {TRANSITIONED, FENCED} then d else hb_db h)"
  "hb_session (finish_result cx i corr out d h) =
     (if out \<notin> {NOT_OWNER, NOT_FOUND, FENCED} \<or> holds (hb_session h) i
      then settle_session True i (hb_session h) else hb_session h)"
  by (simp_all add: finish_result_def Let_def send_to_session_def notify_local_def publish_current_tasks_def
      on_session_def)

lemma reject_result_fields:
  "hb_sent (reject_result cx i corr code h) = hb_sent h @ [(corr, rejected_ack i code)]"
  "hb_bell (reject_result cx i corr code h)"
  by (simp_all add: reject_result_def Let_def send_to_session_def notify_local_def publish_current_tasks_def
      on_session_def renew_def split: prod.splits)

lemma result_ack_accepted:
  "dict_get (result_ack i out) ''accepted'' = PBool (out \<in> {TRANSITIONED, DUPLICATE})"
  "dict_get (result_ack i out) ''task_id'' = PStr i"
  "dict_get (rejected_ack i code) ''accepted'' = PBool False"
  by (simp_all add: result_ack_def rejected_ack_def dict_get_def)

text \<open>The four ways a result message can end.\<close>

lemma handle_result_cases:
  assumes "payload_of m = Inr p" and "handle_task_result cx m h = (raised, h')"
  obtains (crashed) e where "raised = Some e" "h' = h"
  | (rejected) i corr code where "raised = None" "h' = reject_result cx i corr code h"
  | (answered) env i n epoch token corr out d where "raised = None" "envelope_for env i n epoch token"
      "dict_get p ''idempotency_token'' = PStr token"
      "complete_task (cx_repr cx) env (ls_worker (hb_session h)) (cx_rid cx) (cx_aid cx) (cx_now cx) (hb_db h)
         = Inr (out, d)"
      "h' = finish_result cx (uuid_str i) corr out d h"
proof (cases "validate (cx_repr cx) (cx_float cx) (cf_result_max (cx_settings cx)) (Some p)")
  case (Inl e)
  show thesis
  proof (cases "\<exists>code. e = MalformedResult code")
    case True
    then obtain code where "e = MalformedResult code" by blast
    with Inl assms show thesis
      by (intro that(2) [of "message_task cx p" "message_correlation cx m" code])
        (auto simp: handle_task_result_def with_payload_def Let_def)
  next
    case False
    have "handle_task_result cx m h = (Some e, h)"
      using Inl False assms(1) by (cases e) (simp_all add: handle_task_result_def with_payload_def Let_def)
    with assms(2) show thesis by (intro that(1) [of e]) simp_all
  qed
next
  case (Inr env)
  obtain i n epoch token where env: "envelope_for env i n epoch token"
    and tok: "dict_get p ''idempotency_token'' = PStr token"
    using validated_token [OF Inr] by auto
  have id: "text_of (dict_get env ''task_id'') = uuid_str i"
    using env by (simp add: envelope_for_def text_of_def)
  show thesis
  proof (cases "in_session cx (complete_task (cx_repr cx) env (ls_worker (hb_session h)) (cx_rid cx)
      (cx_aid cx) (cx_now cx) (hb_db h))")
    case (Inl e)
    then show thesis
      using Inr assms by (intro that(1)) (auto simp: handle_task_result_def with_payload_def Let_def)
  next
    case r: (Inr q)
    obtain out d where q: "q = (out, d)" by fastforce
    have "complete_task (cx_repr cx) env (ls_worker (hb_session h)) (cx_rid cx) (cx_aid cx) (cx_now cx) (hb_db h)
        = Inr (out, d)"
      using r q by (simp add: in_session_def split: if_splits)
    moreover have "h' = finish_result cx (uuid_str i) (message_correlation cx m) out d h" "raised = None"
      using Inr r q id assms by (auto simp: handle_task_result_def with_payload_def Let_def)
    ultimately show thesis using env tok that(3) by blast
  qed
qed

text \<open>
  C18: The coordinator tells a worker that its result was accepted only when the database
  holds a result with that submission's token for that task, which is then COMPLETED, and
  the worker's slot is free again. Every submission that does not raise is answered once,
  with a definite verdict; one that raises leaves the session and the database alone.
\<close>

theorem accepted_means_stored:
  assumes "db_ok (hb_db h)" and "session_ok (hb_session h)"
    and "dict_get m ''message_type'' = PStr ''task_result''"
    and "payload_of m = Inr p" and "dispatch cx m h = (raised, h')"
  shows "(raised \<noteq> None \<longrightarrow> h' = h)
    \<and> (raised = None \<longrightarrow> (\<exists>corr ack. hb_sent h' = hb_sent h @ [(corr, ack)] \<and> hb_bell h'
         \<and> (dict_get ack ''accepted'' = PBool False
            \<or> (dict_get ack ''accepted'' = PBool True \<and> (\<exists>i t r token.
              dict_get ack ''task_id'' = PStr (uuid_str i)
              \<and> dict_get p ''idempotency_token'' = PStr token
              \<and> find_task (hb_db h') i = Some t \<and> tk_status t = COMPLETED
              \<and> tk_result t = Some (rs_id r) \<and> find_result (hb_db h') (rs_id r) = Some r
              \<and> stored_token (rs_payload r) = Some token
              \<and> \<not> holds (hb_session h') (uuid_str i))))))"
proof -
  have run: "handle_task_result cx m h = (raised, h')"
    using assms(3,5) by (simp add: dispatch_def)
  show ?thesis
    using assms(4) run
  proof (cases rule: handle_result_cases)
    case (rejected i corr code)
    then show ?thesis by (simp add: reject_result_fields result_ack_accepted)
  next
    case (answered env i n epoch token corr out d)
    show ?thesis
    proof (cases "out \<in> {TRANSITIONED, DUPLICATE}")
      case True
      have db: "hb_db h' = d"
        using True answered(5) complete_cases [OF assms(1) answered(2,4)]
        by (auto simp: finish_result_fields)
      have "\<not> holds (hb_session h') (uuid_str i)"
        using True answered(5) settled_not_held [OF assms(2), of "uuid_str i"]
        by (auto simp: finish_result_fields)
      with True accepted_outcome [OF assms(1) answered(2,4) True] answered db show ?thesis
        by (auto simp: finish_result_fields result_ack_accepted)
    next
      case False
      then show ?thesis
        using answered by (auto simp: finish_result_fields result_ack_accepted)
    qed
  qed simp
qed

definition ex_report :: pydict where
  "ex_report = ex_message ''task_result'' [(''task_id'', PStr (uuid_str 10)), (''status'', PStr ''FAILED'')]"

lemma ex_report_refused:
  "validate rp fr mb (Some [(''task_id'', PStr (uuid_str 10)), (''status'', PStr ''FAILED'')])
     = Inl (MalformedResult REJECT_BAD_STATUS)"
proof -
  let ?p = "[(''task_id'', PStr (uuid_str 10)), (''status'', PStr ''FAILED'')]"
  have "require_task_id rp ?p = Inr (uuid_str 10)"
    by (simp add: require_task_id_Inr parse_uuid_str)
  moreover have "require_status rp ?p = Inl (MalformedResult REJECT_BAD_STATUS)"
    by (simp add: require_status_def Let_def ACCEPTED_STATUSES_def COMPLETED_def)
  ultimately show ?thesis by (simp add: validate_def Let_def bind_exn_def)
qed

theorem accepted_means_stored_witness:
  "\<exists>corr ack. hb_sent (snd (dispatch ex_ctx ex_report ex_hub)) = hb_sent ex_hub @ [(corr, ack)]"
proof -
  have p: "payload_of ex_report = Inr [(''task_id'', PStr (uuid_str 10)), (''status'', PStr ''FAILED'')]"
    unfolding ex_report_def by (rule payload_of_message) simp
  have k: "dict_get ex_report ''message_type'' = PStr ''task_result''"
    by (simp add: ex_report_def ex_message_def dict_get_def)
  have "fst (dispatch ex_ctx ex_report ex_hub) = None"
    by (simp add: dispatch_def k handle_task_result_def with_payload_def p Let_def ex_report_refused)
  then show ?thesis
    using accepted_means_stored [OF _ _ k p prod.collapse [symmetric], of ex_hub ex_ctx] ex_session_ok ex_running_ok
    by (auto simp: ex_hub_def)
qed

end
