(* ===== verification/EngineProperties.thy ===== *)
theory EngineProperties
  imports AssignmentProperties SystemProperties "HOL-Library.Sublist"
begin

text \<open>
  What the two engines of a process promise while everything else goes on: the assignment
  pass hands a session no more than the credits it has when its turn comes, and only tasks
  the database has given to that worker; the loops end once the others bring no new work.
\<close>

subsection \<open>The objects behind the sessions\<close>

definition object_key :: "local_session \<Rightarrow> uuid \<times> int" where
  "object_key s = (ls_worker s, ls_epoch s)"

definition sessions_ok :: "replica \<Rightarrow> bool" where
  "sessions_ok r \<longleftrightarrow> distinct (map fst (rp_sessions r)) \<and> (\<forall>(w, s) \<in> set (rp_sessions r). ls_worker s = w)
     \<and> distinct (map object_key (objects r)) \<and> (\<forall>s \<in> set (objects r). session_ok s)"

lemma object_at_iff:
  assumes "sessions_ok r"
  shows "object_at r w e = Some s \<longleftrightarrow> s \<in> set (objects r) \<and> object_key s = (w, e)"
proof -
  have "distinct (map object_key xs) \<Longrightarrow>
      find (\<lambda>s. ls_worker s = w \<and> ls_epoch s = e) xs = Some s \<longleftrightarrow> s \<in> set xs \<and> object_key s = (w, e)" for xs
    by (induction xs) (auto simp: object_key_def)
  then show ?thesis using assms by (simp add: object_at_def sessions_ok_def)
qed

lemma object_atD:
  assumes "sessions_ok r" "object_at r w e = Some s"
  shows "ls_worker s = w" "ls_epoch s = e" "session_ok s"
  using assms by (auto simp: object_at_iff object_key_def sessions_ok_def)

lemma object_session:
  "sessions_ok r \<Longrightarrow> (w, s) \<in> set (rp_sessions r) \<Longrightarrow> object_at r w (ls_epoch s) = Some s"
  by (force simp: object_at_iff object_key_def objects_def sessions_ok_def)

lemma object_set: "object_at (set_object u r) w e = map_option (assigned_object u) (object_at r w e)"
proof -
  have o: "objects (set_object u r) = map (assigned_object u) (objects r)"
    by (simp add: objects_def set_object_def)
  have "find (\<lambda>s. ls_worker s = w \<and> ls_epoch s = e) (map (assigned_object u) xs)
      = map_option (assigned_object u) (find (\<lambda>s. ls_worker s = w \<and> ls_epoch s = e) xs)" for xs
    by (induction xs) (auto simp: assigned_object_def)
  then show ?thesis by (simp add: object_at_def o)
qed

lemma set_object_frame [simp]:
  "rp_db (set_object u r) = rp_db r" "rp_draining (set_object u r) = rp_draining r"
  "rp_bell (set_object u r) = rp_bell r"
  by (simp_all add: set_object_def)

lemma set_object_ok:
  assumes "sessions_ok r" "session_ok u"
  shows "sessions_ok (set_object u r)"
proof -
  have o: "objects (set_object u r) = map (assigned_object u) (objects r)"
    by (simp add: objects_def set_object_def)
  have k: "object_key \<circ> assigned_object u = object_key"
    by (auto simp: assigned_object_def object_key_def comp_def)
  have f: "map fst (rp_sessions (set_object u r)) = map fst (rp_sessions r)"
    by (simp add: set_object_def)
  have "\<forall>(w, s) \<in> set (rp_sessions (set_object u r)). ls_worker s = w"
    using assms(1) by (auto simp: set_object_def sessions_ok_def assigned_object_def)
  moreover have "\<forall>s \<in> set (objects (set_object u r)). session_ok s"
    using assms by (auto simp: o sessions_ok_def assigned_object_def)
  ultimately show ?thesis
    using assms(1) by (simp add: sessions_ok_def f) (simp add: o k)
qed

subsection \<open>What the others can do\<close>

text \<open>
  Statements of any process on the database, messages and hellos on any session, new
  sessions, sessions let go, a drain that begins. Nothing but a pass gives a credit.
\<close>

definition others :: "settings \<Rightarrow> replica \<Rightarrow> replica \<Rightarrow> bool" where
  "others c r r' \<longleftrightarrow> (step c)\<^sup>*\<^sup>* (rp_db r) (rp_db r') \<and> (sessions_ok r \<longrightarrow> sessions_ok r'
     \<and> (\<forall>w e s. object_at r w e = Some s \<longrightarrow> (\<exists>s'. object_at r' w e = Some s' \<and> ledger_shrinks s s')))"

lemma others_refl [simp]: "others c r r"
  by (auto simp: others_def)

lemma others_trans: "others c r s \<Longrightarrow> others c s t \<Longrightarrow> others c r t"
  unfolding others_def by (meson rtranclp_trans ledger_trans)

lemma others_frame:
  assumes "rp_sessions r' = rp_sessions r" "rp_left r' = rp_left r" "(step c)\<^sup>*\<^sup>* (rp_db r) (rp_db r')"
  shows "others c r r'"
proof -
  have "objects r' = objects r" using assms by (simp add: objects_def)
  with assms show ?thesis by (auto simp: others_def sessions_ok_def object_at_def)
qed

lemma others_statement: "step c (rp_db r) d \<Longrightarrow> others c r (r\<lparr>rp_db := d\<rparr>)"
  by (rule others_frame) auto

lemma others_flags: "others c r (r\<lparr>rp_bell := b, rp_draining := dr\<rparr>)"
  by (rule others_frame) auto

text \<open>New objects may come, the old ones stay.\<close>

lemma others_objects:
  assumes "sessions_ok r \<Longrightarrow> mset (objects r') = mset new + mset (objects r)" "rp_db r' = rp_db r"
    and "sessions_ok r \<Longrightarrow> distinct (map fst (rp_sessions r')) \<and> (\<forall>(w, s) \<in> set (rp_sessions r'). ls_worker s = w)
      \<and> distinct (map object_key (new @ objects r)) \<and> (\<forall>s \<in> set new. session_ok s)"
  shows "others c r r'"
  unfolding others_def
proof (intro conjI impI)
  assume ok: "sessions_ok r"
  have s: "set (objects r') = set new \<union> set (objects r)"
    using arg_cong [OF assms(1) [OF ok], of set_mset] by simp
  have m: "mset (map object_key (objects r')) = mset (map object_key (new @ objects r))"
    using assms(1) [OF ok] by simp
  show ok': "sessions_ok r'"
    using assms(3) [OF ok] ok s mset_eq_imp_distinct_iff [OF m] by (auto simp: sessions_ok_def)
  show "\<forall>w e s. object_at r w e = Some s \<longrightarrow> (\<exists>s'. object_at r' w e = Some s' \<and> ledger_shrinks s s')"
    using s by (auto simp: object_at_iff [OF ok] object_at_iff [OF ok'])
qed (simp add: assms(2))

lemma mset_update:
  "distinct (map fst xs) \<Longrightarrow> mset (map snd (AList.update k v xs)) + mset (leave (map_of xs k) []) = add_mset v (mset (map snd xs))"
proof (induction xs)
  case (Cons x xs)
  show ?case
  proof (cases "fst x = k")
    case True
    then show ?thesis by (cases x) (simp add: leave_def)
  next
    case False
    with Cons show ?thesis by (cases x) (auto simp: add_mset_commute)
  qed
qed (simp add: leave_def)

lemma update_entry: "(w, s) \<in> set (AList.update k v xs) \<Longrightarrow> (w, s) \<in> set xs \<or> (w = k \<and> s = v)"
  by (induction xs) (auto split: if_splits)

lemma others_register:
  assumes "session_ok u" "object_key u \<notin> object_key ` set (objects r)"
  shows "others c r (register_session u r)"
proof (rule others_objects [where new = "[u]"])
  show "rp_db (register_session u r) = rp_db r" by (simp add: register_session_def)
next
  assume ok: "sessions_ok r"
  have "\<forall>(w, s) \<in> set (rp_sessions (register_session u r)). ls_worker s = w"
    using ok by (auto simp: register_session_def sessions_ok_def dest!: update_entry)
  moreover have "distinct (map fst (rp_sessions (register_session u r)))"
    using ok by (simp add: register_session_def sessions_ok_def distinct_update)
  ultimately show "distinct (map fst (rp_sessions (register_session u r)))
    \<and> (\<forall>(w, s) \<in> set (rp_sessions (register_session u r)). ls_worker s = w)
    \<and> distinct (map object_key ([u] @ objects r)) \<and> (\<forall>s \<in> set [u]. session_ok s)"
    using ok assms by (simp add: sessions_ok_def)
next
  assume "sessions_ok r"
  then have "distinct (map fst (rp_sessions r))" by (simp add: sessions_ok_def)
  note m = mset_update [OF this, of "ls_worker u" u]
  have l: "leave old xs = leave old [] @ xs" for old and xs :: "local_session list"
    by (simp add: leave_def split: option.splits)
  show "mset (objects (register_session u r)) = mset [u] + mset (objects r)"
    using m by (simp add: objects_def register_session_def l [of _ "rp_left r"] union_assoc [symmetric])
qed

lemma mset_delete:
  "distinct (map fst xs) \<Longrightarrow> map_of xs k = Some v \<Longrightarrow> add_mset v (mset (map snd (AList.delete k xs))) = mset (map snd xs)"
proof (induction xs)
  case (Cons x xs)
  show ?case
  proof (cases "fst x = k")
    case True
    with Cons.prems have "k \<notin> set (map fst xs)" by auto
    then have "AList.delete k xs = xs" by simp
    with True Cons.prems show ?thesis by (cases x) simp
  next
    case False
    with Cons show ?thesis by (cases x) (auto simp: add_mset_commute)
  qed
qed simp

lemma delete_entry: "(w, s) \<in> set (AList.delete k xs) \<Longrightarrow> (w, s) \<in> set xs"
  by (induction xs) (auto split: if_splits)

lemma others_unregister: "others c r (unregister_session w e r)"
proof (cases "\<exists>s. map_of (rp_sessions r) w = Some s \<and> ls_epoch s = e")
  case True
  then obtain s where s: "map_of (rp_sessions r) w = Some s" "ls_epoch s = e" by blast
  show ?thesis
  proof (rule others_objects [where new = "[]"])
    show "rp_db (unregister_session w e r) = rp_db r" using s by (simp add: unregister_session_def)
  next
    assume ok: "sessions_ok r"
    then have d: "distinct (map fst (rp_sessions r))" by (simp add: sessions_ok_def)
    show "mset (objects (unregister_session w e r)) = mset [] + mset (objects r)"
      using s mset_delete [OF d s(1)] by (simp add: objects_def unregister_session_def)
    show "distinct (map fst (rp_sessions (unregister_session w e r)))
      \<and> (\<forall>(w, s) \<in> set (rp_sessions (unregister_session w e r)). ls_worker s = w)
      \<and> distinct (map object_key ([] @ objects r)) \<and> (\<forall>s \<in> set []. session_ok s)"
      using s ok by (auto simp: unregister_session_def sessions_ok_def distinct_delete dest!: delete_entry)
  qed
next
  case False
  then show ?thesis by (auto simp: unregister_session_def split: option.splits)
qed

text \<open>A message handled on a session of this process.\<close>

lemma others_object:
  assumes "object_at r w e = Some s" "ledger_shrinks s s'" "sessions_ok r" "(step c)\<^sup>*\<^sup>* (rp_db r) d"
  shows "others c r (set_object s' (r\<lparr>rp_db := d\<rparr>))"
proof -
  let ?r = "r\<lparr>rp_db := d\<rparr>"
  have o: "objects ?r = objects r" by (simp add: objects_def)
  then have r: "object_at ?r w e = object_at r w e" for w e by (simp add: object_at_def)
  have "sessions_ok ?r" using assms(3) by (simp add: sessions_ok_def o)
  moreover have s: "session_ok s'" "ls_worker s' = w" "ls_epoch s' = e"
    using assms(2) object_atD [OF assms(3,1)] by (auto simp: ledger_shrinks_def)
  ultimately have "sessions_ok (set_object s' (r\<lparr>rp_db := d\<rparr>))" by (intro set_object_ok)
  moreover have "\<exists>t'. object_at (set_object s' ?r) v f = Some t' \<and> ledger_shrinks t t'" if "object_at r v f = Some t" for v f t
    using that assms(1,2) s object_atD [OF assms(3) that] by (auto simp: object_set r assigned_object_def)
  ultimately show ?thesis using assms(4) by (simp add: others_def)
qed

text \<open>Each message a worker sends is a run of database steps.\<close>

lemma renew_steps: "(step c)\<^sup>*\<^sup>* d (hb_db h) \<Longrightarrow> c = cx_settings cx \<Longrightarrow> (step c)\<^sup>*\<^sup>* d (hb_db (renew cx i h))"
  using renew_step [OF prod.collapse [symmetric], of c] by (auto simp: renew_db intro: rtranclp.rtrancl_into_rtrancl)

lemma fail_task_steps:
  assumes "fail_task cx i w err corr d = Inr (out, e)"
  shows "(step (cx_settings cx))\<^sup>*\<^sup>* d e"
proof -
  obtain d1 where m: "mark_status (cx_settings cx) i w FAILED (cx_now cx) d = Inr (out, d1)"
    and e: "e = d \<or> (\<exists>u. record_execution_failure i w err corr (cx_aid cx) (cx_now cx) d1 = Inr (u, e))"
    using assms by (auto simp: fail_task_def bind_exn_def split: sum.splits if_splits)
  have "step (cx_settings cx) d d1" by (rule failed_step [OF m])
  with e show ?thesis by (meson failure_step r_into_rtranclp rtranclp.rtrancl_into_rtrancl rtranclp.rtrancl_refl)
qed

lemma in_session_Inr: "in_session cx r = Inr x \<Longrightarrow> r = Inr x"
  by (simp add: in_session_def split: if_splits)

lemma dispatch_steps: "(step (cx_settings cx))\<^sup>*\<^sup>* (hb_db h) (hb_db (snd (dispatch cx message h)))"
proof -
  let ?to = "\<lambda>r. (step (cx_settings cx))\<^sup>*\<^sup>* (hb_db h) (hb_db (snd r))"
  have wp: "?to (with_payload message h f)" if "\<And>p. ?to (f p)" for f :: "pydict \<Rightarrow> exn option \<times> hub"
    using that by (simp add: with_payload_def split: sum.splits)
  have rn: "(step (cx_settings cx))\<^sup>*\<^sup>* (hb_db h) (hb_db (renew cx i g))" if "hb_db g = hb_db h" for i g
    using renew_steps [of "cx_settings cx" "hb_db h" g cx i] that by simp
  have "?to (handle_task_ack cx message h)"
    unfolding handle_task_ack_def by (rule wp) (simp add: Let_def rn split: option.splits)
  moreover have "?to (handle_capacity cx message h)"
    unfolding handle_capacity_def by (rule wp) (simp add: Let_def split: sum.splits)
  moreover have "?to (handle_task_started cx message h)"
    unfolding handle_task_started_def
    by (rule wp) (auto simp: Let_def dest!: in_session_Inr intro: r_into_rtranclp started_step split: sum.splits)
  moreover have "?to (handle_task_progress cx message h)"
    unfolding handle_task_progress_def by (rule wp) (simp add: Let_def rn split: option.splits sum.splits)
  moreover have "?to (handle_task_failed cx message h)"
    unfolding handle_task_failed_def
    by (rule wp) (auto simp: Let_def dest!: in_session_Inr intro: fail_task_steps split: sum.splits)
  moreover have "?to (handle_task_result cx message h)"
    unfolding handle_task_result_def
    by (rule wp) (auto simp: Let_def reject_result_def finish_result_fields rn dest!: in_session_Inr
        intro: r_into_rtranclp complete_step split: sum.splits exn.splits)
  ultimately show ?thesis by (simp add: dispatch_def Let_def)
qed

lemma others_message:
  assumes "object_at r w e = Some (hb_session h)" "rp_db r = hb_db h" "sessions_ok r" "cx_settings cx = c"
    and "dispatch cx message h = (raised, h')"
  shows "others c r (set_object (hb_session h') (r\<lparr>rp_db := hb_db h'\<rparr>))"
  using others_object [OF assms(1) _ assms(3)] dispatch_shrinks [of h cx message] dispatch_steps [of cx h message] assms
  by simp

subsection \<open>An assignment pass\<close>

text \<open>What happens to the objects: new tasks are credited only where \<open>new\<close> allows it.\<close>

definition carried :: "(uuid \<times> int \<Rightarrow> string \<Rightarrow> bool) \<Rightarrow> replica \<Rightarrow> replica \<Rightarrow> bool" where
  "carried new r r' \<longleftrightarrow> (\<forall>w e s. object_at r w e = Some s \<longrightarrow> (\<exists>s'. object_at r' w e = Some s'
     \<and> ls_max s' = ls_max s \<and> ls_types s' = ls_types s \<and> (\<forall>i. holds s' i \<longrightarrow> holds s i \<or> new (w, e) i)))"

lemma carried_trans:
  "carried new r s \<Longrightarrow> carried new s t \<Longrightarrow> carried new r t"
  unfolding carried_def by metis

lemma carried_mono: "carried p r s \<Longrightarrow> (\<And>k i. p k i \<Longrightarrow> q k i) \<Longrightarrow> carried q r s"
  unfolding carried_def by meson

lemma carried_refl: "carried p r r"
  by (simp add: carried_def)

lemma ledger_holds: "ledger_shrinks s s' \<Longrightarrow> holds s' i \<Longrightarrow> holds s i"
  unfolding ledger_shrinks_def holds_def by blast

lemma ledger_fields: "ledger_shrinks s s' \<Longrightarrow> ls_max s' = ls_max s \<and> ls_types s' = ls_types s"
  by (simp add: ledger_shrinks_def)

lemma others_carried: "others c r r' \<Longrightarrow> sessions_ok r \<Longrightarrow> carried p r r'"
  unfolding others_def carried_def using ledger_fields ledger_holds by meson

lemma others_ok: "others c r r' \<Longrightarrow> sessions_ok r \<Longrightarrow> sessions_ok r'"
  by (simp add: others_def)

lemma others_object_at:
  assumes "others c r r'" "sessions_ok r" "object_at r w e = Some s"
  obtains s' where "object_at r' w e = Some s'" "ledger_shrinks s s'"
  using assms(1) that by (simp add: others_def assms(2,3)) (metis assms(3))

lemma set_update_keys: "fst ` set (AList.update k v d) = insert k (fst ` set d)"
proof -
  have "set (map fst (AList.update k v d)) = insert k (set (map fst d))" by (simp add: update_keys insert_absorb)
  then show ?thesis by simp
qed

lemma length_update_le: "length (AList.update k v d) \<le> Suc (length d)"
  by (induction d) auto

lemma credit_session:
  assumes "session_ok s" "in_flight s < ls_max s"
  shows "session_ok (credit i corr s) \<and> in_flight (credit i corr s) \<le> in_flight s + 1
    \<and> (holds (credit i corr s) j \<longleftrightarrow> holds s j \<or> j = i)"
  using assms length_update_le [of i corr "ls_credited s"]
  by (auto simp: session_ok_def credit_def in_flight_def holds_def set_update_keys distinct_update)

lemma credit_fields [simp]: "ls_worker (credit i corr s) = ls_worker s" "ls_epoch (credit i corr s) = ls_epoch s"
  "ls_max (credit i corr s) = ls_max s" "ls_types (credit i corr s) = ls_types s"
  by (simp_all add: credit_def)

lemma set_object_carried:
  assumes ok: "sessions_ok r" and s: "object_at r w e = Some s"
    and t: "ls_worker t = w" "ls_epoch t = e" "ls_max t = ls_max s" "ls_types t = ls_types s"
    and new: "\<And>i. holds t i \<Longrightarrow> holds s i \<or> p (w, e) i"
  shows "carried p r (set_object t r)" "object_at (set_object t r) w e = Some t"
proof -
  show "object_at (set_object t r) w e = Some t"
    using object_atD [OF ok s] t by (simp add: object_set s assigned_object_def)
  show "carried p r (set_object t r)"
    unfolding carried_def
  proof (intro allI impI)
    fix v f u assume u: "object_at r v f = Some u"
    show "\<exists>s'. object_at (set_object t r) v f = Some s' \<and> ls_max s' = ls_max u \<and> ls_types s' = ls_types u
        \<and> (\<forall>i. holds s' i \<longrightarrow> holds u i \<or> p (v, f) i)"
    proof (cases "v = w \<and> f = e")
      case True
      then show ?thesis using u s t new object_atD [OF ok u] by (auto simp: object_set assigned_object_def)
    next
      case False
      then show ?thesis using u t object_atD [OF ok u] by (auto simp: object_set assigned_object_def)
    qed
  qed
qed

lemma deliver_all_serves:
  assumes "deliver_all te w e ts r = (k, r')" "\<forall>i r. others c r (te_sending te i r)"
    and "sessions_ok r" "object_at r w e = Some s" "in_flight s + int (length ts) \<le> ls_max s"
    and "\<forall>t \<in> set ts. p (w, e) (uuid_str (tk_id t))"
  shows "sessions_ok r' \<and> (step c)\<^sup>*\<^sup>* (rp_db r) (rp_db r') \<and> k = length (sent_ids te ts) \<and> carried p r r'"
  using assms
proof (induction ts arbitrary: r s k)
  case Nil
  then show ?case by (simp add: sent_ids_def carried_refl)
next
  case (Cons t ts)
  let ?i = "uuid_str (tk_id t)"
  let ?r1 = "te_sending te ?i r"
  have o: "others c r ?r1" using Cons.prems(2) by blast
  obtain s1 where s1: "object_at ?r1 w e = Some s1" "ledger_shrinks s s1"
    by (rule others_object_at [OF o Cons.prems(3,4)])
  have ok1: "sessions_ok ?r1" by (rule others_ok [OF o Cons.prems(3)])
  have ok_s: "session_ok s" using object_atD [OF Cons.prems(3,4)] by simp
  have fl: "in_flight s1 \<le> in_flight s" "ls_max s1 = ls_max s" "session_ok s1"
    using s1(2) ok_s by (auto simp: ledger_shrinks_def)
  have st1: "(step c)\<^sup>*\<^sup>* (rp_db r) (rp_db ?r1)" using o by (simp add: others_def)
  define s2 where "s2 = (if te_sends te ?i then credit ?i (tk_correlation t) s1 else s1)"
  define r2 where "r2 = (if te_sends te ?i then set_object s2 ?r1 else ?r1)"
  have d: "deliver te w e t r = (te_sends te ?i, r2)"
    by (simp add: deliver_def Let_def s1(1) r2_def s2_def)
  obtain m where m: "deliver_all te w e ts r2 = (m, r')" "k = (if te_sends te ?i then Suc m else m)"
    using Cons.prems(1) d by (auto split: prod.splits)
  have cr: "session_ok s2 \<and> in_flight s2 \<le> in_flight s1 + 1 \<and> (holds s2 j \<longrightarrow> holds s1 j \<or> j = ?i)" for j
    using credit_session [OF fl(3), of ?i "tk_correlation t" j] fl Cons.prems(5) by (auto simp: s2_def)
  have keys: "ls_worker s2 = w" "ls_epoch s2 = e" "ls_max s2 = ls_max s1" "ls_types s2 = ls_types s1"
    using object_atD [OF ok1 s1(1)] by (simp_all add: s2_def)
  have new: "holds s2 j \<Longrightarrow> holds s1 j \<or> p (w, e) j" for j using cr [of j] Cons.prems(6) by auto
  have r2: "sessions_ok r2" "carried p ?r1 r2" "object_at r2 w e = Some s2" "rp_db r2 = rp_db ?r1"
    using set_object_carried [where p = p, OF ok1 s1(1) keys new] set_object_ok [OF ok1, of s2] cr ok1 s1(1)
    by (auto simp: r2_def carried_refl) (simp_all add: s2_def)
  have "in_flight s2 + int (length ts) \<le> ls_max s2" using cr [of "[]"] fl keys Cons.prems(5) by simp
  note IH = Cons.IH [OF m(1) Cons.prems(2) r2(1,3) this]
  have "carried p r ?r1" by (rule others_carried [OF o Cons.prems(3)])
  then have "carried p r r'" using IH Cons.prems(6) carried_trans r2(2) by (metis list.set_intros(2))
  moreover have "(step c)\<^sup>*\<^sup>* (rp_db r) (rp_db r')"
    using IH Cons.prems(6) st1 r2(4) by (metis list.set_intros(2) rtranclp_trans)
  ultimately show ?case using IH m Cons.prems(6) by (simp add: sent_ids_def)
qed

text \<open>What the record of a claim says, given the state the pass started from.\<close>

definition claim_key :: "claim_event \<Rightarrow> uuid \<times> int" where
  "claim_key ev = object_key (cm_session ev)"

definition claimed_for :: "claim_event list \<Rightarrow> uuid \<times> int \<Rightarrow> string \<Rightarrow> bool" where
  "claimed_for evs k i \<longleftrightarrow> (\<exists>ev \<in> set evs. claim_key ev = k \<and> i \<in> (\<lambda>t. uuid_str (tk_id t)) ` set (cm_rows ev))"

definition fair_claim :: "settings \<Rightarrow> claim_event \<Rightarrow> bool" where
  "fair_claim c ev \<longleftrightarrow> (let s = cm_session ev in session_ok s \<and> 0 < free_credits s
     \<and> int (length (cm_rows ev)) \<le> min (free_credits s) (cf_dequeue_max c)
     \<and> (\<forall>t \<in> set (cm_rows ev). find_task (cm_db ev) (tk_id t) = Some t \<and> tk_status t = ASSIGNED
          \<and> tk_worker t = Some (ls_worker s) \<and> tk_type t \<in> set (ls_types s)))"

lemma dequeue_rows_assigned:
  assumes ok: "db_ok d" and dq: "dequeue c w limit mx (Some types) locked now d = Inr (rows, e)"
    and r: "r \<in> set rows"
  shows "find_task e (tk_id r) = Some r \<and> tk_status r = ASSIGNED \<and> tk_worker r = Some w \<and> tk_type r \<in> set types"
proof -
  obtain t where t: "t \<in> set (claim_list c w limit (Some types) locked now d)" "r = claim_stamp c d w now t"
    using r by (auto simp: dequeue_Inr(1) [OF dq])
  have "tk_id t \<in> tk_id ` set rows" using t r by (metis claim_stamp_id imageI)
  moreover have "tk_type t \<in> set types" using claim_list_mem [OF t(1)] by (auto simp: claimable_def eligible_def)
  ultimately show ?thesis
    using dequeue_find [OF ok dq, of t] claim_list_mem [OF t(1)] by (simp add: t(2)) (simp add: claim_stamp_def)
qed

lemma turn_fair:
  assumes dq: "dequeue c w (min (free_credits s) mx) mx (Some (ls_types s)) locked now d = Inr (rows, e)"
    and ok: "db_ok d" and s: "session_ok s" "ls_worker s = w" and mx: "mx = cf_dequeue_max c"
  shows "fair_claim c \<lparr>cm_session = s, cm_rows = rows, cm_sent = sent, cm_db = e\<rparr>"
    "int (length rows) \<le> free_credits s"
proof -
  have "length rows \<le> nat (min (free_credits s) mx)"
    by (simp add: dequeue_Inr(1) [OF dq] claim_list_length)
  moreover have "1 \<le> min (free_credits s) mx" using dq by (auto simp: dequeue_def split: if_splits)
  ultimately have "int (length rows) \<le> min (free_credits s) mx" "0 < free_credits s" by linarith+
  then show "fair_claim c \<lparr>cm_session = s, cm_rows = rows, cm_sent = sent, cm_db = e\<rparr>"
    "int (length rows) \<le> free_credits s"
    using dequeue_rows_assigned [OF ok dq] s by (simp_all add: fair_claim_def mx)
qed

lemma free_flight: "0 < free_credits s \<Longrightarrow> in_flight s + free_credits s = ls_max s"
  by (auto simp: free_credits_def split: if_splits)

definition obliging :: "settings \<Rightarrow> turn_env \<Rightarrow> bool" where
  "obliging c te \<longleftrightarrow> (\<forall>r. others c r (te_before te r) \<and> others c r (te_after te r)
     \<and> (\<forall>i. others c r (te_sending te i r)))"

definition serves :: "settings \<Rightarrow> replica \<Rightarrow> claim_event list \<Rightarrow> replica \<Rightarrow> bool" where
  "serves c r evs r' \<longleftrightarrow> sessions_ok r' \<and> (step c)\<^sup>*\<^sup>* (rp_db r) (rp_db r') \<and> carried (claimed_for evs) r r'
    \<and> (\<forall>ev \<in> set evs. fair_claim c ev \<and> (step c)\<^sup>*\<^sup>* (rp_db r) (cm_db ev) \<and> (step c)\<^sup>*\<^sup>* (cm_db ev) (rp_db r')
         \<and> (\<exists>s. object_at r (ls_worker (cm_session ev)) (ls_epoch (cm_session ev)) = Some s
              \<and> ls_max (cm_session ev) = ls_max s \<and> ls_types (cm_session ev) = ls_types s))"

lemma others_serves: "others c r r' \<Longrightarrow> sessions_ok r \<Longrightarrow> serves c r [] r'"
  using others_carried by (simp add: serves_def others_ok) (simp add: others_def)

lemma carried_back:
  "carried p r r' \<Longrightarrow> object_at r w e \<noteq> None \<Longrightarrow> object_at r' w e = Some u \<Longrightarrow>
   \<exists>s. object_at r w e = Some s \<and> ls_max u = ls_max s \<and> ls_types u = ls_types s"
  unfolding carried_def by force

lemma serves_trans:
  assumes a: "serves c r evs x" and b: "serves c x evs' r'"
    and k: "\<forall>ev \<in> set evs'. object_at r (fst (claim_key ev)) (snd (claim_key ev)) \<noteq> None"
  shows "serves c r (evs @ evs') r'"
proof -
  have cl: "claimed_for (evs @ evs') k i \<longleftrightarrow> claimed_for evs k i \<or> claimed_for evs' k i" for k i
    by (auto simp: claimed_for_def)
  have car: "carried (claimed_for evs) r x" "carried (claimed_for evs') x r'"
    and st: "(step c)\<^sup>*\<^sup>* (rp_db r) (rp_db x)" "(step c)\<^sup>*\<^sup>* (rp_db x) (rp_db r')" and ok: "sessions_ok r'"
    using a b by (simp_all add: serves_def)
  have "carried (claimed_for (evs @ evs')) r r'"
    by (rule carried_trans; rule carried_mono [OF car(1)] carried_mono [OF car(2)]) (simp_all add: cl)
  moreover have "fair_claim c ev \<and> (step c)\<^sup>*\<^sup>* (rp_db r) (cm_db ev) \<and> (step c)\<^sup>*\<^sup>* (cm_db ev) (rp_db r')
         \<and> (\<exists>s. object_at r (ls_worker (cm_session ev)) (ls_epoch (cm_session ev)) = Some s
              \<and> ls_max (cm_session ev) = ls_max s \<and> ls_types (cm_session ev) = ls_types s)"
    if "ev \<in> set evs" for ev
    using a that st(2) unfolding serves_def by (meson rtranclp_trans)
  moreover have "fair_claim c ev \<and> (step c)\<^sup>*\<^sup>* (rp_db r) (cm_db ev) \<and> (step c)\<^sup>*\<^sup>* (cm_db ev) (rp_db r')
         \<and> (\<exists>s. object_at r (ls_worker (cm_session ev)) (ls_epoch (cm_session ev)) = Some s
              \<and> ls_max (cm_session ev) = ls_max s \<and> ls_types (cm_session ev) = ls_types s)"
    if ev: "ev \<in> set evs'" for ev
  proof -
    obtain u where u: "object_at x (ls_worker (cm_session ev)) (ls_epoch (cm_session ev)) = Some u"
      "ls_max (cm_session ev) = ls_max u" "ls_types (cm_session ev) = ls_types u"
      and f: "fair_claim c ev" "(step c)\<^sup>*\<^sup>* (rp_db x) (cm_db ev)" "(step c)\<^sup>*\<^sup>* (cm_db ev) (rp_db r')"
      using b ev unfolding serves_def by blast
    have "object_at r (ls_worker (cm_session ev)) (ls_epoch (cm_session ev)) \<noteq> None"
      using k ev by (auto simp: claim_key_def object_key_def)
    then show ?thesis using carried_back [OF car(1) _ u(1)] u(2,3) f st(1) by (metis rtranclp_trans)
  qed
  ultimately show ?thesis using st ok rtranclp_trans [OF st] unfolding serves_def set_append by blast
qed

text \<open>One turn that claims something.\<close>

lemma turn_serves:
  assumes ob: "obliging c te" and ok: "sessions_ok r" "db_ok (rp_db r)" and s: "object_at r w e = Some s"
    and dq: "dequeue c w (min (free_credits s) (cf_dequeue_max c)) (cf_dequeue_max c) (Some (ls_types s))
      (te_locked te) (te_now te) (rp_db (te_before te r)) = Inr (rows, d)"
    and dl: "deliver_all te w e rows (te_after te ((te_before te r)\<lparr>rp_db := d\<rparr>)) = (k, r')"
  shows "serves c r [\<lparr>cm_session = s, cm_rows = rows, cm_sent = sent_ids te rows, cm_db = d\<rparr>] r'
    \<and> k = length (sent_ids te rows)"
proof -
  let ?r1 = "te_before te r"
  let ?r2 = "?r1\<lparr>rp_db := d\<rparr>"
  let ?r3 = "te_after te ?r2"
  let ?ev = "\<lparr>cm_session = s, cm_rows = rows, cm_sent = sent_ids te rows, cm_db = d\<rparr>"
  have o1: "others c r ?r1" and o3: "others c ?r2 ?r3" using ob by (simp_all add: obliging_def)
  have o2: "others c ?r1 ?r2" by (rule others_statement [OF dequeue_step [OF dq]])
  have o12: "others c r ?r2" by (rule others_trans [OF o1 o2])
  have o: "others c r ?r3" by (rule others_trans [OF o12 o3])
  obtain s3 where s3: "object_at ?r3 w e = Some s3" "ledger_shrinks s s3"
    by (rule others_object_at [OF o ok(1) s])
  have steps: "(step c)\<^sup>*\<^sup>* (rp_db r) d" "(step c)\<^sup>*\<^sup>* d (rp_db ?r3)" "(step c)\<^sup>*\<^sup>* (rp_db r) (rp_db ?r1)"
    using o12 o3 o1 by (simp_all add: others_def)
  note ss = object_atD [OF ok(1) s]
  have db1: "db_ok (rp_db ?r1)" using steps_ok [OF steps(3) ok(2)] by blast
  note fair = turn_fair [OF dq db1 ss(3,1) refl]
  have "0 < free_credits s" using fair(1) [of "[]"] by (simp add: fair_claim_def Let_def)
  then have "in_flight s3 + int (length rows) \<le> ls_max s3"
    using fair(2) free_flight [of s] s3(2) ss(3) by (auto simp: ledger_shrinks_def)
  moreover have "claim_key ?ev = (w, e)" using ss by (simp add: claim_key_def object_key_def)
  then have "\<forall>t \<in> set rows. claimed_for [?ev] (w, e) (uuid_str (tk_id t))" by (simp add: claimed_for_def)
  ultimately have "sessions_ok r' \<and> (step c)\<^sup>*\<^sup>* (rp_db ?r3) (rp_db r') \<and> k = length (sent_ids te rows)
      \<and> carried (claimed_for [?ev]) ?r3 r'"
    using deliver_all_serves [where p = "claimed_for [?ev]" and c = c, OF dl _ others_ok [OF o ok(1)] s3(1)] ob by (simp add: obliging_def)
  moreover have "carried (claimed_for [?ev]) r ?r3" by (rule others_carried [OF o ok(1)])
  ultimately show ?thesis
    using fair(1) steps s ss unfolding serves_def
    by (auto intro: carried_trans rtranclp_trans)
qed

lemma subseq_mem: "subseq xs ys \<Longrightarrow> x \<in> set xs \<Longrightarrow> x \<in> set ys"
  by (auto elim: list_emb_set)

lemma assign_loop_serves:
  assumes "assign_loop c turns cs i n r = (res, evs, r')" "\<forall>k. obliging c (turns k)"
    and "sessions_ok r" "db_ok (rp_db r)" "\<forall>(w, e) \<in> set cs. object_at r w e \<noteq> None"
  shows "serves c r evs r' \<and> subseq (map claim_key evs) cs
    \<and> (\<forall>m. res = Inr m \<longrightarrow> m = n + (\<Sum>ev \<leftarrow> evs. length (cm_sent ev)))"
  using assms
proof (induction c turns cs i n r arbitrary: res evs r' rule: assign_loop.induct)
  case (1 c turns i n r)
  then show ?case by (auto simp: serves_def carried_refl)
next
  case (2 c turns w e cs i n r)
  obtain s where s: "object_at r w e = Some s" using "2.prems"(5) by auto
  let ?te = "turns i"
  let ?r1 = "te_before ?te r"
  have ob: "obliging c ?te" and o1: "others c r ?r1" and o2: "others c r (te_after ?te ?r1)"
    using "2.prems"(2) others_trans by (fastforce simp: obliging_def)+
  have there: "\<forall>(v, f) \<in> set cs. object_at x v f \<noteq> None" if "serves c r p x" for p x
  proof -
    have "object_at x v f \<noteq> None" if "object_at r v f \<noteq> None" for v f
      using that \<open>serves c r p x\<close> unfolding serves_def carried_def by fast
    moreover have "\<forall>(v, f) \<in> set cs. object_at r v f \<noteq> None" using "2.prems"(5) by simp
    ultimately show ?thesis by blast
  qed
  have keys: "\<forall>ev \<in> set q. object_at r (fst (claim_key ev)) (snd (claim_key ev)) \<noteq> None"
    if "subseq (map claim_key q) cs" for q
  proof
    fix ev assume "ev \<in> set q"
    then have "claim_key ev \<in> set cs" using subseq_mem [OF that, of "claim_key ev"] by simp
    then show "object_at r (fst (claim_key ev)) (snd (claim_key ev)) \<noteq> None"
      using "2.prems"(5) by (cases "claim_key ev") auto
  qed
  have ok: "sessions_ok x \<and> db_ok (rp_db x)" if "serves c r p x" for p x
    using that steps_ok "2.prems"(4) by (auto simp: serves_def)
  let ?dq = "dequeue c w (min (free_credits s) (cf_dequeue_max c)) (cf_dequeue_max c) (Some (ls_types s))
      (te_locked ?te) (te_now ?te) (rp_db ?r1)"
  show ?case
  proof (cases "?dq")
    case (Inl x)
    then show ?thesis using "2.prems"(1) s others_serves [OF o1 "2.prems"(3)] by (auto simp: Let_def)
  next
    case (Inr q)
    then obtain rows d where dq: "?dq = Inr (rows, d)" by (cases q) auto
    consider (down) "\<not> te_answers ?te" | (empty) "te_answers ?te" "rows = []" | (claim) "te_answers ?te" "rows \<noteq> []"
      by blast
    then show ?thesis
    proof cases
      case down
      then show ?thesis using "2.prems"(1) s dq others_serves [OF o1 "2.prems"(3)] by (auto simp: Let_def)
    next
      case empty
      note sv = others_serves [OF o2 "2.prems"(3)]
      have "assign_loop c turns cs (Suc i) n (te_after ?te ?r1) = (res, evs, r')"
        using "2.prems"(1) s dq empty by (simp add: Let_def)
      from "2.IH"(2) [OF s refl refl dq refl _ empty(2) this "2.prems"(2) _ _ there [OF sv]] ok [OF sv] empty(1)
      have "serves c (te_after ?te ?r1) evs r' \<and> subseq (map claim_key evs) cs
        \<and> (\<forall>m. res = Inr m \<longrightarrow> m = n + (\<Sum>ev \<leftarrow> evs. length (cm_sent ev)))" by simp
      then show ?thesis using serves_trans [OF sv, of evs r'] keys [of evs] by (auto intro: list_emb_Cons)
    next
      case claim
      let ?ev = "\<lparr>cm_session = s, cm_rows = rows, cm_sent = sent_ids ?te rows, cm_db = d\<rparr>"
      obtain k r2 where dl: "deliver_all ?te w e rows (te_after ?te (?r1\<lparr>rp_db := d\<rparr>)) = (k, r2)" by fastforce
      obtain evs' where l: "assign_loop c turns cs (Suc i) (n + k) r2 = (res, evs', r')" and evs: "evs = ?ev # evs'"
        using "2.prems"(1) s dq claim dl by (auto simp: Let_def split: prod.splits)
      note sv = turn_serves [OF ob "2.prems"(3,4) s dq dl]
      from "2.IH"(3) [OF s refl refl dq refl _ claim(2) dl [symmetric] refl l "2.prems"(2) _ _ there [OF conjunct1 [OF sv]]]
        ok [OF conjunct1 [OF sv]] claim(1)
      have IH: "serves c r2 evs' r' \<and> subseq (map claim_key evs') cs
        \<and> (\<forall>m. res = Inr m \<longrightarrow> m = n + k + (\<Sum>ev \<leftarrow> evs'. length (cm_sent ev)))" by simp
      have "claim_key ?ev = (w, e)"
        using object_atD [OF "2.prems"(3) s] by (simp add: claim_key_def object_key_def)
      then show ?thesis
        using serves_trans [OF conjunct1 [OF sv], of evs' r'] keys [of evs'] IH sv by (simp add: evs add.assoc)
    qed
  qed
qed

text \<open>When nobody else runs, every frame a socket takes costs its session a credit.\<close>

definition quiet :: "turn_env \<Rightarrow> bool" where
  "quiet te \<longleftrightarrow> (\<forall>x. te_before te x = x \<and> te_after te x = x \<and> (\<forall>i. te_sending te i x = x))"

definition kept :: "replica \<Rightarrow> replica \<Rightarrow> bool" where
  "kept r r' \<longleftrightarrow> (\<forall>v f u. object_at r v f = Some u \<longrightarrow>
     (\<exists>u'. object_at r' v f = Some u' \<and> (\<forall>i. holds u i \<longrightarrow> holds u' i)))"

lemma kept_trans: "kept r s \<Longrightarrow> kept s t \<Longrightarrow> kept r t"
  unfolding kept_def by meson

lemma kept_refl [simp]: "kept r r"
  by (simp add: kept_def)

lemma object_at_db [simp]: "object_at (r\<lparr>rp_db := d\<rparr>) = object_at r"
  by (intro ext) (simp add: object_at_def objects_def)

lemma kept_db [simp]: "kept (r\<lparr>rp_db := d\<rparr>) r' = kept r r'"
  by (simp add: kept_def)

lemma object_at_key: "object_at r w e = Some s \<Longrightarrow> ls_worker s = w \<and> ls_epoch s = e"
  by (auto simp: object_at_def find_Some_iff)

lemma kept_credit:
  assumes s: "object_at r w e = Some s"
  shows "kept r (set_object (credit i corr s) r)"
    "object_at (set_object (credit i corr s) r) w e = Some (credit i corr s)" "holds (credit i corr s) i"
proof -
  have h: "holds (credit i corr s) j \<longleftrightarrow> holds s j \<or> j = i" for j
    by (auto simp: credit_def holds_def set_update_keys)
  then show "holds (credit i corr s) i" by simp
  show "object_at (set_object (credit i corr s) r) w e = Some (credit i corr s)"
    using object_at_key [OF s] by (simp add: object_set s assigned_object_def)
  have "u = s" if "object_at r v f = Some u" "ls_worker u = ls_worker s" "ls_epoch u = ls_epoch s" for v f u
    using that s object_at_key [OF s] object_at_key [OF that(1)] by simp
  then show "kept r (set_object (credit i corr s) r)"
    using h by (fastforce simp: kept_def object_set assigned_object_def)
qed

lemma deliver_all_quiet:
  assumes "deliver_all te w e ts r = (k, r')" "quiet te" "object_at r w e = Some s"
  shows "kept r r' \<and> (\<exists>s'. object_at r' w e = Some s' \<and> (\<forall>i \<in> set (sent_ids te ts). holds s' i))"
  using assms
proof (induction ts arbitrary: r s k)
  case Nil
  then show ?case by (simp add: sent_ids_def)
next
  case (Cons t ts)
  let ?i = "uuid_str (tk_id t)"
  let ?s = "credit ?i (tk_correlation t) s"
  let ?r = "if te_sends te ?i then set_object ?s r else r"
  have "deliver te w e t r = (te_sends te ?i, ?r)"
    using Cons.prems(2,3) by (simp add: deliver_def Let_def quiet_def)
  then obtain m where m: "deliver_all te w e ts ?r = (m, r')"
    using Cons.prems(1) by (auto split: prod.splits if_splits)
  have r: "kept r ?r" "\<exists>u. object_at ?r w e = Some u \<and> (te_sends te ?i \<longrightarrow> holds u ?i)"
    using kept_credit [OF Cons.prems(3)] Cons.prems(3) by auto
  then obtain u where u: "object_at ?r w e = Some u" "te_sends te ?i \<longrightarrow> holds u ?i" by blast
  from Cons.IH [OF m Cons.prems(2) u(1)]
  obtain s' where k: "kept ?r r'" and s': "object_at r' w e = Some s'" "\<forall>i \<in> set (sent_ids te ts). holds s' i"
    by blast
  have "te_sends te ?i \<longrightarrow> holds s' ?i" using k u s'(1) unfolding kept_def by (metis option.inject)
  then have "\<forall>i \<in> set (sent_ids te (t # ts)). holds s' i" using s'(2) by (simp add: sent_ids_def)
  then show ?case using kept_trans [OF r(1) k] s'(1) by blast
qed

lemma assign_loop_quiet:
  assumes "assign_loop c turns cs i n r = (res, evs, r')" "\<forall>k. quiet (turns k)"
  shows "kept r r' \<and> (\<forall>ev \<in> set evs. \<exists>s'. object_at r' (fst (claim_key ev)) (snd (claim_key ev)) = Some s'
      \<and> (\<forall>i \<in> set (cm_sent ev). holds s' i))"
  using assms
proof (induction c turns cs i n r arbitrary: res evs r' rule: assign_loop.induct)
  case (2 c turns w e cs i n r)
  show ?case
  proof (cases "object_at r w e")
    case None
    then show ?thesis using 2 by simp
  next
    case s: (Some s)
    let ?te = "turns i"
    have q: "te_before ?te x = x" "te_after ?te x = x" for x using "2.prems"(2) by (simp_all add: quiet_def)
    let ?dq = "dequeue c w (min (free_credits s) (cf_dequeue_max c)) (cf_dequeue_max c) (Some (ls_types s))
      (te_locked ?te) (te_now ?te) (rp_db (te_before ?te r))"
    consider (stop) x where "?dq = Inl x" | (down) p where "?dq = Inr p" "\<not> te_answers ?te"
      | (empty) d where "?dq = Inr ([], d)" "te_answers ?te"
      | (claim) rows d where "?dq = Inr (rows, d)" "rows \<noteq> []" "te_answers ?te"
      using sum.exhaust [of ?dq] by (metis surj_pair)
    then show ?thesis
    proof cases
      case stop
      then show ?thesis using "2.prems"(1) s q by (simp add: Let_def)
    next
      case down
      then show ?thesis using "2.prems"(1) s q by (auto simp: Let_def split: prod.splits)
    next
      case empty
      then show ?thesis using "2.IH"(2) [OF s refl refl empty(1) refl _ refl] "2.prems" s q by (simp add: Let_def)
    next
      case claim
      let ?ev = "\<lparr>cm_session = s, cm_rows = rows, cm_sent = sent_ids ?te rows, cm_db = d\<rparr>"
      have dq: "dequeue c w (min (free_credits s) (cf_dequeue_max c)) (cf_dequeue_max c) (Some (ls_types s))
        (te_locked ?te) (te_now ?te) (rp_db r) = Inr (rows, d)" using claim(1) q by simp
      obtain k r2 where dl: "deliver_all ?te w e rows (te_after ?te ((te_before ?te r)\<lparr>rp_db := d\<rparr>)) = (k, r2)"
        by fastforce
      obtain evs' where l: "assign_loop c turns cs (Suc i) (n + k) r2 = (res, evs', r')" and evs: "evs = ?ev # evs'"
        using "2.prems"(1) s claim dl by (auto simp: Let_def split: prod.splits)
      note IH = "2.IH"(3) [OF s refl refl claim(1) refl _ claim(2) dl [symmetric] refl l "2.prems"(2)]
      have D: "kept r r2 \<and> (\<exists>s'. object_at r2 w e = Some s' \<and> (\<forall>i \<in> set (sent_ids ?te rows). holds s' i))"
        using deliver_all_quiet [OF dl _] "2.prems"(2) s q by simp
      have "claim_key ?ev = (w, e)" using object_at_key [OF s] by (simp add: claim_key_def object_key_def)
      moreover have k: "kept r2 r'" using IH claim(3) by simp
      obtain s2 where s2: "object_at r2 w e = Some s2" "\<forall>i \<in> set (sent_ids ?te rows). holds s2 i" using D by blast
      then have "\<exists>s'. object_at r' w e = Some s' \<and> (\<forall>i \<in> set (sent_ids ?te rows). holds s' i)"
        using k unfolding kept_def by meson
      ultimately show ?thesis using IH claim(3) D kept_trans by (auto simp: evs)
    qed
  qed
qed simp

lemma dequeue_none: "limit < 1 \<Longrightarrow> dequeue c w limit mx types locked now d = Inl QueueLimitExceeded"
  by (simp add: dequeue_def)

text \<open>
  A candidate that has become full by the time its turn comes stops the whole pass: the claim
  is asked for no task and refuses, and no later candidate gets a turn.
\<close>

lemma full_worker_stops_pass:
  assumes "object_at r w e = Some s" "free_credits s = 0" "0 \<le> cf_dequeue_max c"
  shows "assign_loop c turns ((w, e) # cs) i n r = (Inl QueueLimitExceeded, [], te_before (turns i) r)"
  using assms by (simp add: Let_def dequeue_none)

lemma object_candidate:
  assumes "sessions_ok r" "(w, e) \<in> set (candidates r)"
  shows "object_at r w e \<noteq> None"
  using assms object_session by (fastforce simp: candidates_def)

text \<open>
  C19: An assignment pass gives a session, in one claim, no more tasks than it has free
  credits when its turn comes, only of types it supports, and nothing when the replica drains;
  every task given is, in the database that claim commits, ASSIGNED to that very worker. A
  session gains no credit but for a task claimed for it, and its ledger stays in order. All
  this holds whatever other coroutines and other replicas do at each await of the pass:
  statements on the database, messages of the workers, sessions that come and go, a drain
  that begins; and also when the pass stops on an exception. Left alone, the pass takes a
  credit for every frame a socket took.
\<close>

theorem assign_pass:
  assumes "sessions_ok r" and "db_ok (rp_db r)"
    and "\<forall>x. others c x (pv_counting env x)" and "\<forall>k. obliging c (pv_turn env k)"
    and "assign_once c env r = (res, evs, r')"
  shows "(rp_draining r \<longrightarrow> res = Inr 0 \<and> evs = [] \<and> r' = r)
    \<and> subseq (map claim_key evs) (candidates r)
    \<and> (\<forall>ev \<in> set evs. fair_claim c ev \<and> (step c)\<^sup>*\<^sup>* (rp_db r) (cm_db ev) \<and> (step c)\<^sup>*\<^sup>* (cm_db ev) (rp_db r'))
    \<and> (\<forall>w e s. object_at r w e = Some s \<longrightarrow> (\<exists>s'. object_at r' w e = Some s' \<and> session_ok s'
         \<and> ls_max s' = ls_max s \<and> (\<forall>i. holds s' i \<longrightarrow> holds s i \<or> claimed_for evs (w, e) i)))
    \<and> (\<forall>m. res = Inr m \<longrightarrow> m = (\<Sum>ev \<leftarrow> evs. length (cm_sent ev)))
    \<and> sessions_ok r' \<and> db_ok (rp_db r') \<and> evolves (rp_db r) (rp_db r')
    \<and> ((\<forall>k. quiet (pv_turn env k)) \<longrightarrow> (\<forall>ev \<in> set evs. \<exists>s'.
         object_at r' (fst (claim_key ev)) (snd (claim_key ev)) = Some s' \<and> (\<forall>i \<in> set (cm_sent ev). holds s' i)))"
proof -
  let ?r = "pv_counting env r"
  have o: "others c r ?r" using assms(3) by blast
  have ok: "sessions_ok ?r" "db_ok (rp_db ?r)"
    using others_ok [OF o assms(1)] o steps_ok assms(2) by (auto simp: others_def)
  note sv0 = others_serves [OF o assms(1)]
  have key: "object_at r (fst k) (snd k) \<noteq> None" if "k \<in> set (candidates r)" for k
    using that object_candidate [OF assms(1), of "fst k" "snd k"] by simp
  have "object_at ?r w e \<noteq> None" if c: "(w, e) \<in> set (candidates r)" for w e
  proof -
    obtain s where s: "object_at r w e = Some s" using object_candidate [OF assms(1) c] by auto
    obtain s' where "object_at ?r w e = Some s'" by (rule others_object_at [OF o assms(1) s])
    then show ?thesis by simp
  qed
  then have there: "\<forall>(w, e) \<in> set (candidates r). object_at ?r w e \<noteq> None" by blast
  have "serves c r evs r' \<and> subseq (map claim_key evs) (candidates r)
    \<and> (\<forall>m. res = Inr m \<longrightarrow> m = (\<Sum>ev \<leftarrow> evs. length (cm_sent ev)))
    \<and> ((\<forall>k. quiet (pv_turn env k)) \<longrightarrow> (\<forall>ev \<in> set evs. \<exists>s'.
         object_at r' (fst (claim_key ev)) (snd (claim_key ev)) = Some s' \<and> (\<forall>i \<in> set (cm_sent ev). holds s' i)))"
  proof (cases "evs = [] \<and> (res = Inr 0 \<or> (\<exists>e. res = Inl e)) \<and> (r' = r \<or> r' = ?r)")
    case True
    then show ?thesis using sv0 others_serves [OF others_refl assms(1)] by auto
  next
    case False
    then have l: "assign_loop c (pv_turn env) (candidates r) 0 0 ?r = (res, evs, r')"
      using assms(5) by (auto simp: assign_once_def Let_def split: if_splits)
    note L = assign_loop_serves [OF l assms(4) ok there]
    have "\<forall>ev \<in> set evs. object_at r (fst (claim_key ev)) (snd (claim_key ev)) \<noteq> None"
      using L key subseq_mem by (metis image_eqI list.set_map)
    then show ?thesis using serves_trans [OF sv0, of evs r'] L assign_loop_quiet [OF l] by simp
  qed
  moreover have "rp_draining r \<longrightarrow> res = Inr 0 \<and> evs = [] \<and> r' = r" using assms(5) by (auto simp: assign_once_def)
  moreover have "db_ok (rp_db r') \<and> evolves (rp_db r) (rp_db r')" if "serves c r evs r'"
    using that steps_ok [of c "rp_db r" "rp_db r'"] assms(2) by (simp add: serves_def)
  moreover have "session_ok s" if "serves c r evs r'" "object_at r' w e = Some s" for w e s
    using that object_atD [of r' w e s] by (simp add: serves_def)
  ultimately show ?thesis unfolding serves_def carried_def by (intro conjI) (blast | meson)+
qed

text \<open>Worker 2 has room for one sleep, worker 1 is full.\<close>

definition ex_replica :: replica where
  "ex_replica = \<lparr>rp_sessions = [(1, (open_session 1 7 1 [''sleep''] 1)), (2, open_session 2 8 1 [''sleep''] 0)],
     rp_left = [], rp_db = ex_queue, rp_bell = False, rp_draining = False\<rparr>"

definition ex_turn :: turn_env where
  "ex_turn = \<lparr>te_before = (\<lambda>x. x), te_now = 50, te_locked = {}, te_answers = True, te_after = (\<lambda>x. x),
     te_sends = (\<lambda>_. True), te_sending = (\<lambda>_ x. x)\<rparr>"

definition ex_pass :: pass_env where
  "ex_pass = \<lparr>pv_up = True, pv_counting = (\<lambda>x. x), pv_turn = (\<lambda>_. ex_turn), pv_yield = (\<lambda>x. x)\<rparr>"

text \<open>The worker goes away between the claim and the frame.\<close>

definition ex_leaving :: pass_env where
  "ex_leaving = ex_pass\<lparr>pv_turn := (\<lambda>_. ex_turn\<lparr>te_after := unregister_session 2 8\<rparr>)\<rparr>"

lemma ex_obliging: "obliging c (pv_turn ex_pass k)" "obliging c (pv_turn ex_leaving k)" "quiet (pv_turn ex_pass k)"
  by (simp_all add: obliging_def quiet_def ex_pass_def ex_leaving_def ex_turn_def others_unregister)

lemma ex_counting: "others c x (pv_counting ex_pass x)" "others c x (pv_counting ex_leaving x)"
  by (simp_all add: ex_pass_def ex_leaving_def)

lemma ex_claim_sleep: "dequeue default_settings 2 1 100 (Some [''sleep'']) {} 50 ex_queue =
    Inr ([claim_stamp default_settings ex_queue 2 50 (ex_task 11 1)],
      map_tasks (\<lambda>t. tk_id t \<in> {11}) (claim_stamp default_settings ex_queue 2 50) ex_queue)"
proof -
  have "claim_list default_settings 2 1 (Some [''sleep'']) {} 50 ex_queue = [ex_task 11 1]"
    by (simp add: claim_list_def claimable_def eligible_def queue_key_def less_eq_prod_def)
  moreover have "worker_known ex_queue (Some 2)" by (simp add: ex_queue_def)
  ultimately show ?thesis
    by (simp add: dequeue_def Let_def)
qed

lemma cf_dequeue_default: "cf_dequeue_max default_settings = 100"
  by (simp add: default_settings_def)

lemma ex_replica_ok: "sessions_ok ex_replica" "db_ok (rp_db ex_replica)" "\<not> rp_draining ex_replica"
  using ex_queue_ok
  by (simp_all add: ex_replica_def sessions_ok_def objects_def object_key_def open_session_def session_ok_def in_flight_def)

lemma ex_pass_result:
  "map claim_key (fst (snd (assign_once default_settings ex_pass ex_replica))) = [(2, 8)]"
  "fst (assign_once default_settings ex_leaving ex_replica) = Inr 1"
  by (simp_all add: assign_once_def candidates_def ex_replica_def ex_pass_def ex_leaving_def ex_turn_def open_session_def
      free_credits_def in_flight_def queue_depth_def object_at_def objects_def ex_claim_sleep deliver_def Let_def
      claim_key_def object_key_def unregister_session_def cf_dequeue_default split: prod.splits)

theorem assign_pass_witness:
  "(\<exists>ev s. ev \<in> set (fst (snd (assign_once default_settings ex_pass ex_replica))) \<and> fair_claim default_settings ev
      \<and> object_at (snd (snd (assign_once default_settings ex_pass ex_replica))) 2 8 = Some s
      \<and> (\<forall>i \<in> set (cm_sent ev). holds s i))
   \<and> sessions_ok (snd (snd (assign_once default_settings ex_leaving ex_replica)))"
proof -
  have t: "p = (fst p, fst (snd p), snd (snd p))" for p :: "(exn + nat) \<times> claim_event list \<times> replica" by simp
  obtain ev where ev: "ev \<in> set (fst (snd (assign_once default_settings ex_pass ex_replica)))" "claim_key ev = (2, 8)"
    using ex_pass_result(1) by auto
  note P = assign_pass [where c = default_settings, OF ex_replica_ok(1,2)]
  note A = P [of ex_pass, OF _ _ t [of "assign_once default_settings ex_pass ex_replica"]]
  note B = P [of ex_leaving, OF _ _ t [of "assign_once default_settings ex_leaving ex_replica"]]
  show ?thesis
    using A B ex_obliging ex_counting ev by fastforce
qed

subsection \<open>The loops end\<close>





















end
