(* ===== verification/Redis.thy ===== *)
theory Redis
  imports Prelude
begin

text \<open>
  The few commands of the shared key-value server the coordinator uses, on one family of
  keys: a key holds a value and, possibly, the moment at which it expires. An expired key
  is as if it were absent.
\<close>

type_synonym ('k, 'v) kv = "'k \<Rightarrow> ('v \<times> time option) option"

definition kv_get :: "time \<Rightarrow> ('k, 'v) kv \<Rightarrow> 'k \<Rightarrow> 'v option" where
  "kv_get now m k = (case m k of
      None \<Rightarrow> None
    | Some (v, None) \<Rightarrow> Some v
    | Some (v, Some x) \<Rightarrow> if now < x then Some v else None)"

definition kv_set :: "'k \<Rightarrow> 'v \<Rightarrow> time option \<Rightarrow> ('k, 'v) kv \<Rightarrow> ('k, 'v) kv" where
  "kv_set k v expires m = m(k \<mapsto> (v, expires))"

definition kv_delete :: "'k \<Rightarrow> ('k, 'v) kv \<Rightarrow> ('k, 'v) kv" where
  "kv_delete k m = m(k := None)"

text \<open>\<open>SET k v NX EX ttl\<close>.\<close>

definition kv_set_new :: "time \<Rightarrow> 'k \<Rightarrow> 'v \<Rightarrow> time \<Rightarrow> ('k, 'v) kv \<Rightarrow> bool \<times> ('k, 'v) kv" where
  "kv_set_new now k v ttl m = (if kv_get now m k = None
     then (True, kv_set k v (Some (now + ttl)) m) else (False, m))"

text \<open>\<open>INCR\<close> keeps the expiry of a live key and starts an absent one at 1 without any.\<close>

definition kv_incr :: "time \<Rightarrow> 'k \<Rightarrow> ('k, int) kv \<Rightarrow> int \<times> ('k, int) kv" where
  "kv_incr now k m = (case kv_get now m k of
      None \<Rightarrow> (1, kv_set k 1 None m)
    | Some n \<Rightarrow> (n + 1, kv_set k (n + 1) (snd (the (m k))) m))"

definition kv_expire :: "time \<Rightarrow> 'k \<Rightarrow> time \<Rightarrow> ('k, 'v) kv \<Rightarrow> ('k, 'v) kv" where
  "kv_expire now k ttl m = (case kv_get now m k of
      None \<Rightarrow> m | Some v \<Rightarrow> kv_set k v (Some (now + ttl)) m)"

lemma kv_get_set [simp]: "kv_get now (kv_set k v None m) j = (if j = k then Some v else kv_get now m j)"
  "kv_get now (kv_set k v (Some x) m) j = (if j = k then (if now < x then Some v else None) else kv_get now m j)"
  by (simp_all add: kv_get_def kv_set_def)

lemma kv_get_delete [simp]: "kv_get now (kv_delete k m) j = (if j = k then None else kv_get now m j)"
  by (simp add: kv_get_def kv_delete_def)

lemma kv_incr_fst: "fst (kv_incr now k m) = (case kv_get now m k of None \<Rightarrow> 1 | Some n \<Rightarrow> n + 1)"
  by (simp add: kv_incr_def split: option.splits)

end
