(* ===== verification/Auth.thy ===== *)
theory Auth
  imports Workers Redis Results
begin

text \<open>
  \<open>coordinator/app/main.py\<close> and \<open>security.py\<close>, identities: enrolment and reaffirmation
  with the claim that detects a duplicated identity, the access tokens and their
  generations, revocation, and the rate limiter. An endpoint returns its status code and
  body, or the exception that makes the server answer 500, with the state it leaves. The
  keyed hash of \<open>security.py\<close> is the parameter \<open>hash\<close> and random draws are arguments. All
  clocks read here, those of the processes and that of Redis, are one argument \<open>now\<close>.
\<close>

definition RATE_LIMIT_WINDOW_SECONDS :: int where "RATE_LIMIT_WINDOW_SECONDS = 60"
definition TOKEN_RECORD_TTL_MULTIPLIER :: int where "TOKEN_RECORD_TTL_MULTIPLIER = 3"

record token_record =
  tn_worker :: uuid
  tn_generation :: int
  tn_expires :: time

record gate =
  gt_db :: db
  gt_tokens :: "(string, token_record) kv"
  gt_generation :: "(uuid, int) kv"
  gt_claims :: "(uuid, string) kv"
  gt_rate :: "(string \<times> string, int) kv"

record response =
  re_status :: int
  re_body :: pydict

definition reply :: "int \<Rightarrow> (string \<times> string) list \<Rightarrow> response" where
  "reply code items = \<lparr>re_status = code, re_body = map (\<lambda>(k, v). (k, PStr v)) items\<rparr>"

definition refuse :: "int \<Rightarrow> string \<Rightarrow> response" where
  "refuse code detail = reply code [(''detail'', detail)]"

record secrets =
  sc_enrollment :: string
  sc_admin :: string

subsection \<open>Secrets\<close>

text \<open>\<open>hmac.compare_digest\<close> on text refuses anything outside ASCII.\<close>

definition is_ascii :: "string \<Rightarrow> bool" where
  "is_ascii s \<longleftrightarrow> (\<forall>c \<in> set s. (of_char c :: nat) < 128)"

definition compare_digest :: "string \<Rightarrow> string \<Rightarrow> exn + bool" where
  "compare_digest a b = (if is_ascii a \<and> is_ascii b then Inr (a = b) else Inl TypeError)"

definition verify_enrollment_secret :: "secrets \<Rightarrow> string \<Rightarrow> exn + bool" where
  "verify_enrollment_secret sc provided = compare_digest provided (sc_enrollment sc)"

definition verify_admin_secret :: "secrets \<Rightarrow> string \<Rightarrow> exn + bool" where
  "verify_admin_secret sc provided = compare_digest provided (sc_admin sc)"

text \<open>Both sides of this comparison are hexadecimal digests.\<close>

definition verify_credential :: "(string \<Rightarrow> string) \<Rightarrow> string \<Rightarrow> string \<Rightarrow> bool" where
  "verify_credential hash raw expected \<longleftrightarrow> hash raw = expected"

definition credential_matches :: "(string \<Rightarrow> string) \<Rightarrow> string \<Rightarrow> worker_row \<Rightarrow> bool" where
  "credential_matches hash raw w = (case wk_credential_hash w of
      None \<Rightarrow> False
    | Some h \<Rightarrow> h \<noteq> [] \<and> verify_credential hash raw h)"

subsection \<open>Rate limits\<close>

definition fixed_window_limited :: "string \<Rightarrow> string \<Rightarrow> int \<Rightarrow> time \<Rightarrow> gate \<Rightarrow> bool \<times> gate" where
  "fixed_window_limited scope ip limit now g =
     (let (count, m) = kv_incr now (scope, ip) (gt_rate g);
          m' = (if count = 1 then kv_expire now (scope, ip) (of_int RATE_LIMIT_WINDOW_SECONDS) m else m)
      in (limit < count, g\<lparr>gt_rate := m'\<rparr>))"

definition rate_limited :: "settings \<Rightarrow> string \<Rightarrow> time \<Rightarrow> gate \<Rightarrow> bool \<times> gate" where
  "rate_limited c ip now g = fixed_window_limited ''register'' ip (cf_register_limit c) now g"

text \<open>\<open>None\<close> lets the call proceed.\<close>

definition operator_guard ::
  "settings \<Rightarrow> secrets \<Rightarrow> string \<Rightarrow> string \<Rightarrow> time \<Rightarrow> gate \<Rightarrow> (exn + response option) \<times> gate" where
  "operator_guard c sc secret ip now g =
     (let (limited, g1) = fixed_window_limited ''taskapi'' ip (cf_api_limit c) now g
      in if limited then (Inr (Some (refuse 429 ''rate limited'')), g1)
         else case verify_admin_secret sc secret of
             Inl e \<Rightarrow> (Inl e, g1)
           | Inr ok \<Rightarrow> (Inr (if ok then None else Some (refuse 401 ''invalid admin credential'')), g1))"

subsection \<open>Enrolment\<close>

record register_request =
  rq_secret :: "string option"
  rq_worker :: "string option"
  rq_credential :: "string option"
  rq_version :: "string option"

definition given :: "string option \<Rightarrow> bool" where
  "given s \<longleftrightarrow> (case s of None \<Rightarrow> False | Some x \<Rightarrow> x \<noteq> [])"

definition reaffirm ::
  "settings \<Rightarrow> (string \<Rightarrow> string) \<Rightarrow> string \<Rightarrow> string \<Rightarrow> string \<Rightarrow> string option \<Rightarrow> time \<Rightarrow> gate
     \<Rightarrow> response \<times> gate" where
  "reaffirm c hash nonce worker_id credential version now g = (case parse_uuid worker_id of
      None \<Rightarrow> (refuse 401 ''invalid identity'', g)
    | Some i \<Rightarrow> (case find_worker (gt_db g) i of
          None \<Rightarrow> (refuse 401 ''invalid identity'', g)
        | Some w \<Rightarrow>
            if wk_revoked w \<or> \<not> credential_matches hash credential w
            then (refuse 401 ''invalid identity'', g)
            else let (claimed, m) = kv_set_new now i nonce (of_int (cf_claim_ttl c)) (gt_claims g)
                 in if \<not> claimed then (refuse 409 ''identity already active elsewhere'', g)
                    else (reply 200 [(''worker_id'', uuid_str i), (''status'', ''reaffirmed'')],
                          g\<lparr>gt_claims := m, gt_db := reaffirm_version i version now (gt_db g)\<rparr>)))"

definition first_contact ::
  "settings \<Rightarrow> (string \<Rightarrow> string) \<Rightarrow> secrets \<Rightarrow> uuid \<Rightarrow> string \<Rightarrow> string \<Rightarrow> string \<Rightarrow> register_request \<Rightarrow> time
     \<Rightarrow> gate \<Rightarrow> (exn + response) \<times> gate" where
  "first_contact c hash sc i credential nonce ip body now g =
     (if \<not> given (rq_secret body) then (Inr (refuse 401 ''invalid enrollment credential''), g)
      else case verify_enrollment_secret sc (the (rq_secret body)) of
          Inl e \<Rightarrow> (Inl e, g)
        | Inr False \<Rightarrow> (Inr (refuse 401 ''invalid enrollment credential''), g)
        | Inr True \<Rightarrow> (case enroll i (hash credential) (rq_version body) ip now (gt_db g) of
              Inl e \<Rightarrow> (Inl e, g)
            | Inr (j, d) \<Rightarrow>
                (Inr (reply 201 [(''worker_id'', uuid_str j), (''worker_credential'', credential),
                        (''status'', ''registered'')]),
                 g\<lparr>gt_db := d,
                   gt_claims := kv_set j nonce (Some (now + of_int (cf_claim_ttl c))) (gt_claims g)\<rparr>)))"

definition register_worker ::
  "settings \<Rightarrow> (string \<Rightarrow> string) \<Rightarrow> secrets \<Rightarrow> uuid \<Rightarrow> string \<Rightarrow> string \<Rightarrow> string \<Rightarrow> register_request \<Rightarrow> time
     \<Rightarrow> gate \<Rightarrow> (exn + response) \<times> gate" where
  "register_worker c hash sc i credential nonce ip body now g =
     (let (limited, g1) = rate_limited c ip now g
      in if limited then (Inr (refuse 429 ''rate limited''), g1)
         else if given (rq_worker body) \<and> given (rq_credential body)
         then (let (r, g2) = reaffirm c hash nonce (the (rq_worker body)) (the (rq_credential body))
                     (rq_version body) now g1 in (Inr r, g2))
         else first_contact c hash sc i credential nonce ip body now g1)"

definition release_worker :: "(string \<Rightarrow> string) \<Rightarrow> string \<Rightarrow> string \<Rightarrow> gate \<Rightarrow> response \<times> gate" where
  "release_worker hash worker_id credential g = (case parse_uuid worker_id of
      None \<Rightarrow> (reply 200 [(''status'', ''ignored'')], g)
    | Some i \<Rightarrow> (case find_worker (gt_db g) i of
          None \<Rightarrow> (reply 200 [(''status'', ''ignored'')], g)
        | Some w \<Rightarrow>
            if \<not> credential_matches hash credential w then (reply 200 [(''status'', ''ignored'')], g)
            else (reply 200 [(''status'', ''released'')], g\<lparr>gt_claims := kv_delete i (gt_claims g)\<rparr>)))"

subsection \<open>Access tokens\<close>

definition refresh_token ::
  "settings \<Rightarrow> (string \<Rightarrow> string) \<Rightarrow> string \<Rightarrow> string \<Rightarrow> string \<Rightarrow> time \<Rightarrow> gate \<Rightarrow> response \<times> gate" where
  "refresh_token c hash fresh worker_id credential now g = (case parse_uuid worker_id of
      None \<Rightarrow> (refuse 401 ''invalid identity'', g)
    | Some i \<Rightarrow> (case find_worker (gt_db g) i of
          None \<Rightarrow> (refuse 401 ''invalid credential'', g)
        | Some w \<Rightarrow>
            if wk_revoked w \<or> \<not> credential_matches hash credential w
            then (refuse 401 ''invalid credential'', g)
            else let (n, m) = kv_incr now i (gt_generation g);
                     ttl = cf_token_ttl c;
                     row = \<lparr>tn_worker = i, tn_generation = n, tn_expires = now + of_int ttl\<rparr>
                 in (\<lparr>re_status = 200, re_body = [(''access_token'', PStr fresh), (''expires_in'', PInt ttl)]\<rparr>,
                     g\<lparr>gt_generation := m, gt_tokens := kv_set (hash fresh) row
                        (Some (now + of_int (ttl * TOKEN_RECORD_TTL_MULTIPLIER))) (gt_tokens g)\<rparr>)))"

definition bearer :: string where "bearer = ''Bearer ''"

definition superseded :: "gate \<Rightarrow> time \<Rightarrow> token_record \<Rightarrow> bool" where
  "superseded g now row \<longleftrightarrow> (case kv_get now (gt_generation g) (tn_worker row) of
      None \<Rightarrow> False | Some n \<Rightarrow> n \<noteq> tn_generation row)"

definition locked_out :: "gate \<Rightarrow> uuid \<Rightarrow> bool" where
  "locked_out g i = (case find_worker (gt_db g) i of None \<Rightarrow> True | Some w \<Rightarrow> wk_revoked w)"

definition verify_token :: "(string \<Rightarrow> string) \<Rightarrow> string \<Rightarrow> time \<Rightarrow> gate \<Rightarrow> response" where
  "verify_token hash authorization now g =
     (if take (length bearer) authorization \<noteq> bearer then refuse 401 ''malformed token''
      else case kv_get now (gt_tokens g) (hash (drop (length bearer) authorization)) of
          None \<Rightarrow> refuse 401 ''malformed token''
        | Some row \<Rightarrow>
            if tn_expires row \<le> now then refuse 401 ''expired token''
            else if superseded g now row then refuse 401 ''superseded token''
            else if locked_out g (tn_worker row) then refuse 401 ''revoked''
            else reply 200 [(''worker_id'', uuid_str (tn_worker row)), (''status'', ''valid'')])"

definition authenticate_ws_token :: "(string \<Rightarrow> string) \<Rightarrow> string \<Rightarrow> time \<Rightarrow> gate \<Rightarrow> uuid option" where
  "authenticate_ws_token hash raw now g = (case kv_get now (gt_tokens g) (hash raw) of
      None \<Rightarrow> None
    | Some row \<Rightarrow>
        if tn_expires row \<le> now then None
        else if superseded g now row then None
        else if locked_out g (tn_worker row) then None
        else Some (tn_worker row))"

subsection \<open>Revocation\<close>

definition revoke_worker :: "secrets \<Rightarrow> string \<Rightarrow> string \<Rightarrow> time \<Rightarrow> gate \<Rightarrow> (exn + response) \<times> gate" where
  "revoke_worker sc secret worker_id now g = (case verify_admin_secret sc secret of
      Inl e \<Rightarrow> (Inl e, g)
    | Inr False \<Rightarrow> (Inr (refuse 401 ''invalid admin credential''), g)
    | Inr True \<Rightarrow> (case parse_uuid worker_id of
          None \<Rightarrow> (Inr (refuse 404 ''not found''), g)
        | Some i \<Rightarrow> (case find_worker (gt_db g) i of
              None \<Rightarrow> (Inr (refuse 404 ''not found''), g)
            | Some w \<Rightarrow> (Inr (reply 200 [(''worker_id'', worker_id), (''status'', ''revoked'')]),
                        g\<lparr>gt_db := revoke_row i now (gt_db g)\<rparr>))))"

end
