(* ===== verification/AuthProperties.thy ===== *)
theory AuthProperties
  imports Auth Examples
begin

text \<open>
  What the identity endpoints promise: the two readers of an access token agree, a worker
  has one live token at a time and a refresh ends the previous one for good, a revoked
  worker is shut out of every endpoint for ever, and a limit admits no more calls in its
  window than it says.
\<close>

subsection \<open>The two readers of a token\<close>

text \<open>
  The socket handshake and the verification endpoint accept the same tokens for the
  same workers, at every moment and in every state; whatever the endpoint does not accept
  it answers with 401.
\<close>

theorem token_readers_agree:
  "(verify_token hash (bearer @ raw) now g
      = reply 200 [(''worker_id'', uuid_str w), (''status'', ''valid'')]
    \<longleftrightarrow> authenticate_ws_token hash raw now g = Some w)
   \<and> re_status (verify_token hash authorization now g) \<in> {200, 401}
   \<and> (re_status (verify_token hash (bearer @ raw) now g) = 200
        \<longleftrightarrow> authenticate_ws_token hash raw now g \<noteq> None)"
  by (auto simp: verify_token_def authenticate_ws_token_def reply_def refuse_def split: option.splits)

subsection \<open>The steps of the identity endpoints\<close>

text \<open>
  Every endpoint at any moment with any arguments. A drawn token is new: no stored record
  has its hash.
\<close>

inductive gate_step :: "settings \<Rightarrow> (string \<Rightarrow> string) \<Rightarrow> secrets \<Rightarrow> gate \<Rightarrow> gate \<Rightarrow> bool"
  for c hash sc where
  register: "register_worker c hash sc i credential nonce ip body now g = (r, g') \<Longrightarrow> gate_step c hash sc g g'"
| release: "release_worker hash worker_id credential g = (rs, g') \<Longrightarrow> gate_step c hash sc g g'"
| refresh: "gt_tokens g (hash fresh) = None \<Longrightarrow>
    refresh_token c hash fresh worker_id credential now g = (rs, g') \<Longrightarrow> gate_step c hash sc g g'"
| revoke: "revoke_worker sc secret worker_id now g = (r, g') \<Longrightarrow> gate_step c hash sc g g'"
| guard: "operator_guard c sc secret ip now g = (ro, g') \<Longrightarrow> gate_step c hash sc g g'"
| status: "gate_step c hash sc g (g\<lparr>gt_db := write_status i s now (gt_db g)\<rparr>)"

inductive_cases gate_stepE: "gate_step c hash sc g g'"

definition tokens_ok :: "gate \<Rightarrow> bool" where
  "tokens_ok g \<longleftrightarrow> (\<forall>i v x. gt_generation g i = Some (v, x) \<longrightarrow> x = None)
    \<and> (\<forall>k row x. gt_tokens g k = Some (row, x) \<longrightarrow>
         (\<exists>n. gt_generation g (tn_worker row) = Some (n, None) \<and> tn_generation row \<le> n))
    \<and> (\<forall>k l row row' x x'. gt_tokens g k = Some (row, x) \<and> gt_tokens g l = Some (row', x')
         \<and> tn_worker row' = tn_worker row \<and> tn_generation row' = tn_generation row \<longrightarrow> k = l)"

definition barred :: "gate \<Rightarrow> uuid \<Rightarrow> bool" where
  "barred g i \<longleftrightarrow> (\<exists>w. find_worker (gt_db g) i = Some w \<and> wk_revoked w)"

text \<open>What every step keeps: tokens are never rewritten, generations never fall, a bar stays.\<close>

definition gate_evolves :: "gate \<Rightarrow> gate \<Rightarrow> bool" where
  "gate_evolves g g' \<longleftrightarrow> (\<forall>k r. gt_tokens g k = Some r \<longrightarrow> gt_tokens g' k = Some r)
    \<and> (\<forall>i n. gt_generation g i = Some (n, None) \<longrightarrow> (\<exists>m \<ge> n. gt_generation g' i = Some (m, None)))
    \<and> (\<forall>i. barred g i \<longrightarrow> barred g' i)"

lemma gate_evolves_refl [simp]: "gate_evolves g g"
  by (auto simp: gate_evolves_def)

lemma gate_evolves_trans: "gate_evolves g h \<Longrightarrow> gate_evolves h k \<Longrightarrow> gate_evolves g k"
  unfolding gate_evolves_def by (meson order_trans)

lemma gate_same:
  "gt_tokens g' = gt_tokens g \<Longrightarrow> gt_generation g' = gt_generation g \<Longrightarrow>
   (\<And>i. barred g i \<Longrightarrow> barred g' i) \<Longrightarrow> tokens_ok g \<Longrightarrow> tokens_ok g' \<and> gate_evolves g g'"
  by (auto simp: tokens_ok_def gate_evolves_def)

lemma barred_set_worker:
  "(\<And>w. wk_id (f w) = wk_id w) \<Longrightarrow> (\<And>w. wk_revoked w \<Longrightarrow> wk_revoked (f w)) \<Longrightarrow> barred g i \<Longrightarrow>
   gt_db g' = set_worker j f (gt_db g) \<Longrightarrow> barred g' i"
  by (auto simp: barred_def find_worker_set)

lemma limited_frame:
  "fixed_window_limited scope ip limit now g = (b, g') \<Longrightarrow>
   gt_tokens g' = gt_tokens g \<and> gt_generation g' = gt_generation g \<and> gt_db g' = gt_db g
   \<and> gt_claims g' = gt_claims g"
  by (auto simp: fixed_window_limited_def Let_def split: prod.splits)

lemma barred_cong: "gt_db g' = gt_db g \<Longrightarrow> barred g' i = barred g i"
  by (simp add: barred_def)

lemma reaffirm_frame:
  assumes "reaffirm c hash nonce w cr v now g = (r, g')"
  shows "gt_tokens g' = gt_tokens g \<and> gt_generation g' = gt_generation g \<and> (barred g i \<longrightarrow> barred g' i)"
proof -
  have "barred g i \<Longrightarrow> gt_db h = reaffirm_version j v now (gt_db g) \<Longrightarrow> barred h i" for j h
    by (rule barred_set_worker [where f = "\<lambda>w. w\<lparr>wk_agent_version := v, wk_updated_at := now\<rparr>" and j = j and g = g])
      (simp_all add: reaffirm_version_def)
  with assms show ?thesis
    by (auto simp: reaffirm_def Let_def split: option.splits if_splits prod.splits)
qed

lemma barred_enroll:
  assumes "barred g i" and "enroll j h v ip now (gt_db g) = Inr (k, d)" and "gt_db g' = d"
  shows "barred g' i"
proof -
  have "find_worker d i = Some w" if "find_worker (gt_db g) i = Some w" for w
    using that assms(2) by (auto simp: enroll_def find_worker_def find_snoc split: if_splits)
  with assms(1,3) show ?thesis by (auto simp: barred_def)
qed

lemma first_contact_frame:
  assumes "first_contact c hash sc j cr nonce ip body now g = (r, g')"
  shows "gt_tokens g' = gt_tokens g \<and> gt_generation g' = gt_generation g \<and> (barred g i \<longrightarrow> barred g' i)"
  using assms
  by (auto simp: first_contact_def split: if_splits sum.splits bool.splits prod.splits elim: barred_enroll)

lemma register_frame:
  assumes "register_worker c hash sc j cr nonce ip body now g = (r, g')"
  shows "gt_tokens g' = gt_tokens g \<and> gt_generation g' = gt_generation g \<and> (barred g i \<longrightarrow> barred g' i)"
proof -
  obtain b g1 where l: "rate_limited c ip now g = (b, g1)" by fastforce
  note f = limited_frame [OF l [unfolded rate_limited_def]]
  show ?thesis
  proof (cases b)
    case True
    with assms l f barred_cong [of g1 g] show ?thesis by (auto simp: register_worker_def)
  next
    case False
    show ?thesis
    proof (cases "given (rq_worker body) \<and> given (rq_credential body)")
      case True
      then obtain r1 where "reaffirm c hash nonce (the (rq_worker body)) (the (rq_credential body))
          (rq_version body) now g1 = (r1, g')"
        using assms l False by (auto simp: register_worker_def Let_def split: prod.splits)
      from reaffirm_frame [OF this, of i] f barred_cong [of g1 g] show ?thesis by auto
    next
      case fc: False
      then have "first_contact c hash sc j cr nonce ip body now g1 = (r, g')"
        using assms l False by (auto simp: register_worker_def)
      from first_contact_frame [OF this, of i] f barred_cong [of g1 g] show ?thesis by auto
    qed
  qed
qed

lemma refresh_cases:
  assumes "refresh_token c hash fresh worker_id cr now g = (rs, g')"
  obtains "g' = g" "re_status rs = 401"
  | i w n m where "parse_uuid worker_id = Some i" "find_worker (gt_db g) i = Some w" "\<not> wk_revoked w"
      "kv_incr now i (gt_generation g) = (n, m)" "re_status rs = 200"
      "g' = g\<lparr>gt_generation := m, gt_tokens := kv_set (hash fresh)
         \<lparr>tn_worker = i, tn_generation = n, tn_expires = now + of_int (cf_token_ttl c)\<rparr>
         (Some (now + of_int (cf_token_ttl c * TOKEN_RECORD_TTL_MULTIPLIER))) (gt_tokens g)\<rparr>"
proof (cases "parse_uuid worker_id")
  case None
  then show ?thesis using assms that(1) by (auto simp: refresh_token_def refuse_def reply_def)
next
  case (Some i)
  show ?thesis
  proof (cases "find_worker (gt_db g) i")
    case None
    then show ?thesis using Some assms that(1) by (auto simp: refresh_token_def refuse_def reply_def)
  next
    case w: (Some w)
    show ?thesis
    proof (cases "wk_revoked w \<or> \<not> credential_matches hash cr w")
      case True
      then show ?thesis using Some w assms that(1) by (auto simp: refresh_token_def refuse_def reply_def)
    next
      case False
      obtain n m where nm: "kv_incr now i (gt_generation g) = (n, m)" by fastforce
      show ?thesis
        by (rule that(2) [OF Some w _ nm])
          (use Some w False nm assms in \<open>auto simp: refresh_token_def Let_def\<close>)
    qed
  qed
qed

text \<open>The counter of a worker only counts up, and its record has no expiry.\<close>

lemma generation_incr:
  assumes ok: "tokens_ok g" and "kv_incr now i (gt_generation g) = (n, m)"
  shows "m = (gt_generation g)(i \<mapsto> (n, None)) \<and>
    (case gt_generation g i of None \<Rightarrow> n = 1 | Some (v, x) \<Rightarrow> x = None \<and> n = v + 1)"
  using assms by (cases "gt_generation g i")
    (auto simp: kv_incr_def kv_get_def kv_set_def tokens_ok_def split: option.splits prod.splits)

lemma refresh_step:
  assumes ok: "tokens_ok g" and new: "gt_tokens g (hash fresh) = None"
    and r: "refresh_token c hash fresh worker_id cr now g = (rs, g')"
  shows "tokens_ok g' \<and> gate_evolves g g'"
  using r
proof (cases rule: refresh_cases)
  case 1
  then show ?thesis using ok by simp
next
  case (2 i w n m)
  note inc = generation_incr [OF ok 2(4)]
  have known: "\<exists>v. gt_generation g (tn_worker row) = Some (v, None) \<and> tn_generation row \<le> v"
    if "gt_tokens g k = Some (row, x)" for k row x
    using ok that unfolding tokens_ok_def by blast
  have below: "tn_generation row < n" if "gt_tokens g k = Some (row, x)" "tn_worker row = i" for k row x
    using known [OF that(1)] inc that(2) by auto
  have "tokens_ok g'"
    unfolding tokens_ok_def
  proof (intro conjI allI impI)
    fix j v x assume "gt_generation g' j = Some (v, x)"
    then show "x = None" using ok inc 2(6) by (auto simp: tokens_ok_def split: if_splits)
  next
    fix k row x assume "gt_tokens g' k = Some (row, x)"
    then show "\<exists>v. gt_generation g' (tn_worker row) = Some (v, None) \<and> tn_generation row \<le> v"
      using known [of k row x] below [of k row x] inc 2(6) by (auto simp: kv_set_def split: if_splits)
  next
    fix k l row row' x x'
    assume "gt_tokens g' k = Some (row, x) \<and> gt_tokens g' l = Some (row', x')
      \<and> tn_worker row' = tn_worker row \<and> tn_generation row' = tn_generation row"
    moreover have "gt_tokens g k = Some (row, x) \<Longrightarrow> gt_tokens g l = Some (row', x')
      \<Longrightarrow> tn_worker row' = tn_worker row \<Longrightarrow> tn_generation row' = tn_generation row \<Longrightarrow> k = l"
      using ok unfolding tokens_ok_def by blast
    ultimately show "k = l"
      using below [of k row x] below [of l row' x'] 2(6) by (auto simp: kv_set_def split: if_splits)
  qed
  moreover have "gate_evolves g g'"
    using inc new 2(6) by (auto simp: gate_evolves_def kv_set_def barred_def split: option.splits)
  ultimately show ?thesis by simp
qed

lemma release_frame:
  "release_worker hash worker_id cr g = (rs, g') \<Longrightarrow>
   gt_tokens g' = gt_tokens g \<and> gt_generation g' = gt_generation g \<and> gt_db g' = gt_db g"
  by (auto simp: release_worker_def split: option.splits if_splits)

lemma guard_frame:
  "operator_guard c sc secret ip now g = (ro, g') \<Longrightarrow>
   gt_tokens g' = gt_tokens g \<and> gt_generation g' = gt_generation g \<and> gt_db g' = gt_db g"
  by (auto simp: operator_guard_def Let_def dest: limited_frame split: prod.splits if_splits sum.splits)

lemma revoke_cases:
  assumes "revoke_worker sc secret worker_id now g = (r, g')"
  obtains "g' = g" "\<And>rs. r = Inr rs \<Longrightarrow> re_status rs \<noteq> 200"
  | i w where "parse_uuid worker_id = Some i" "find_worker (gt_db g) i = Some w"
      "g' = g\<lparr>gt_db := revoke_row i now (gt_db g)\<rparr>"
proof (cases "verify_admin_secret sc secret = Inr True")
  case False
  then show ?thesis using assms that(1)
    by (auto simp: revoke_worker_def refuse_def reply_def split: sum.splits bool.splits)
next
  case ok: True
  show ?thesis
  proof (cases "parse_uuid worker_id")
    case None
    then show ?thesis using ok assms that(1) by (auto simp: revoke_worker_def refuse_def reply_def)
  next
    case (Some i)
    show ?thesis
    proof (cases "find_worker (gt_db g) i")
      case None
      then show ?thesis using ok Some assms that(1) by (auto simp: revoke_worker_def refuse_def reply_def)
    next
      case (Some w)
      then show ?thesis using ok \<open>parse_uuid worker_id = Some i\<close> assms
        by (intro that(2)) (auto simp: revoke_worker_def)
    qed
  qed
qed

lemma barred_revoke: "barred g i \<Longrightarrow> gt_db g' = revoke_row j now (gt_db g) \<Longrightarrow> barred g' i"
  by (rule barred_set_worker [where f = "\<lambda>w. w\<lparr>wk_revoked := True, wk_status := QUARANTINED, wk_updated_at := now\<rparr>"
        and j = j and g = g]) (simp_all add: revoke_row_def)

lemma barred_status: "barred g i \<Longrightarrow> gt_db g' = write_status j s now (gt_db g) \<Longrightarrow> barred g' i"
  by (rule barred_set_worker [where f = "\<lambda>w. w\<lparr>wk_status := s, wk_updated_at := now\<rparr>" and j = j and g = g])
    (simp_all add: write_status_def)

lemma gate_step_keeps: "gate_step c hash sc g g' \<Longrightarrow> tokens_ok g \<Longrightarrow> tokens_ok g' \<and> gate_evolves g g'"
proof (induction rule: gate_step.induct)
  case (register i credential nonce ip body now g r g')
  show ?case
  proof (rule gate_same)
    show "tokens_ok g" by fact
    show "barred g' j" if "barred g j" for j using register_frame [OF register(1)] that by blast
  qed (use register_frame [OF register(1)] in auto)
next
  case (release worker_id credential g rs g')
  then show ?case by (intro gate_same) (auto dest!: release_frame simp: barred_def)
next
  case (refresh g fresh worker_id credential now rs g')
  then show ?case using refresh_step by blast
next
  case (revoke secret worker_id now g r g')
  from revoke(1) show ?case
  proof (cases rule: revoke_cases)
    case 1
    then show ?thesis using revoke(2) by simp
  next
    case (2 i w)
    then show ?thesis using revoke(2) barred_revoke [of g _ g' i now] by (intro gate_same) auto
  qed
next
  case (guard secret ip now g ro g')
  then show ?case by (intro gate_same) (auto dest!: guard_frame simp: barred_def)
next
  case (status g i s now)
  then show ?case using barred_status [of g _ "g\<lparr>gt_db := write_status i s now (gt_db g)\<rparr>" i s now]
    by (intro gate_same) auto
qed

abbreviation gate_steps :: "settings \<Rightarrow> (string \<Rightarrow> string) \<Rightarrow> secrets \<Rightarrow> gate \<Rightarrow> gate \<Rightarrow> bool" where
  "gate_steps c hash sc \<equiv> (gate_step c hash sc)\<^sup>*\<^sup>*"

lemma gate_steps_keep:
  "gate_steps c hash sc g g' \<Longrightarrow> tokens_ok g \<Longrightarrow> tokens_ok g' \<and> gate_evolves g g'"
  by (induction rule: rtranclp_induct) (auto dest: gate_step_keeps intro: gate_evolves_trans)

text \<open>A gate starts with any worker table and no token, no generation, no claim, no count.\<close>

definition gate_start :: "db \<Rightarrow> gate" where
  "gate_start d = \<lparr>gt_db = d, gt_tokens = Map.empty, gt_generation = Map.empty, gt_claims = Map.empty,
     gt_rate = Map.empty\<rparr>"

lemma tokens_ok_start: "gate_steps c hash sc (gate_start d) g \<Longrightarrow> tokens_ok g"
  using gate_steps_keep [of c hash sc "gate_start d" g] by (auto simp: tokens_ok_def gate_start_def)

lemma authenticated:
  "authenticate_ws_token hash raw now g = Some i \<longleftrightarrow> (\<exists>row.
     kv_get now (gt_tokens g) (hash raw) = Some row \<and> now < tn_expires row \<and> \<not> superseded g now row
     \<and> \<not> locked_out g i \<and> tn_worker row = i)"
  by (auto simp: authenticate_ws_token_def not_le split: option.splits)

text \<open>A token that authenticates carries the latest generation of its worker.\<close>

lemma live_generation:
  assumes ok: "tokens_ok g" and a: "authenticate_ws_token hash raw now g = Some i"
  obtains row x where "gt_tokens g (hash raw) = Some (row, x)" "tn_worker row = i"
    "gt_generation g i = Some (tn_generation row, None)"
proof -
  obtain row where row: "kv_get now (gt_tokens g) (hash raw) = Some row" "\<not> superseded g now row"
      "tn_worker row = i"
    using a by (auto simp: authenticated)
  obtain x where x: "gt_tokens g (hash raw) = Some (row, x)"
    using row(1) by (auto simp: kv_get_def split: option.splits prod.splits if_splits)
  with ok row(3) obtain n where "gt_generation g i = Some (n, None)"
    unfolding tokens_ok_def by metis
  with row x show thesis by (intro that) (auto simp: superseded_def kv_get_def)
qed

subsection \<open>One live token, and what a refresh and a revocation end\<close>

text \<open>
  C32: However the identity endpoints are called, at most one token of a worker is accepted
  at a time: two tokens that authenticate as the same worker in the same state have the
  same keyed hash, whenever each of them is presented.
\<close>

theorem one_live_token:
  assumes "gate_steps c hash sc (gate_start d) g"
    and "authenticate_ws_token hash raw now g = Some i"
    and "authenticate_ws_token hash raw' now' g = Some i"
  shows "hash raw = hash raw'"
proof -
  note ok = tokens_ok_start [OF assms(1)]
  from live_generation [OF ok assms(2)] live_generation [OF ok assms(3)] show ?thesis
    using ok unfolding tokens_ok_def by (metis option.inject prod.inject)
qed

text \<open>
  A successful refresh ends every earlier token of that worker for good: whatever the
  endpoints do afterwards, at whatever time, a token that was accepted before the refresh
  is never accepted again.
\<close>

theorem refresh_supersedes:
  assumes "gate_steps c hash sc (gate_start d) g"
    and "authenticate_ws_token hash raw before g = Some i"
    and "gt_tokens g (hash fresh) = None"
    and "refresh_token c hash fresh worker_id credential now g = (rs, g1)"
    and "re_status rs = 200" and "parse_uuid worker_id = Some i"
    and "gate_steps c hash sc g1 g2"
  shows "authenticate_ws_token hash raw later g2 = None"
proof -
  note ok = tokens_ok_start [OF assms(1)]
  obtain row x where row: "gt_tokens g (hash raw) = Some (row, x)" "tn_worker row = i"
      "gt_generation g i = Some (tn_generation row, None)"
    by (rule live_generation [OF ok assms(2)])
  have g1: "gt_generation g1 i = Some (tn_generation row + 1, None)"
    using assms(4)
  proof (cases rule: refresh_cases)
    case 1
    then show ?thesis using assms(5) by simp
  next
    case (2 j w n m)
    then show ?thesis using generation_incr [OF ok 2(4)] row(3) assms(6) by auto
  qed
  note step = refresh_step [OF ok assms(3,4)]
  have ev: "gate_evolves g1 g2" using gate_steps_keep [OF assms(7)] step by blast
  then obtain n where n: "n \<ge> tn_generation row + 1" "gt_generation g2 i = Some (n, None)"
    using g1 unfolding gate_evolves_def by blast
  have kept: "gt_tokens g2 (hash raw) = Some (row, x)"
    using row(1) step ev unfolding gate_evolves_def by blast
  show ?thesis
  proof (cases "authenticate_ws_token hash raw later g2")
    case (Some j)
    then obtain row' where "kv_get later (gt_tokens g2) (hash raw) = Some row'" "\<not> superseded g2 later row'"
      by (auto simp: authenticated)
    then have "n = tn_generation row"
      using kept n(2) row(2) by (auto simp: kv_get_def superseded_def split: option.splits if_splits)
    with n(1) show ?thesis by simp
  qed
qed

text \<open>
  C33: Revocation is final where a worker proves who it is: after it answered 200, in no later
  state does a new socket of that worker authenticate with any token, the token check call
  none of its tokens valid, a refresh mint anything, or a reaffirmation succeed, whatever
  credential it brings; the last two answer 401 and change nothing. The release of a claim is
  not guarded and may still answer that it released; it touches nothing but the claim. What
  becomes of a socket that is already open is not part of this.
\<close>

theorem revoked_is_shut_out:
  assumes "gate_steps c hash sc (gate_start d) g"
    and "revoke_worker sc secret worker_id now g = (Inr rs, g1)"
    and "re_status rs = 200" and "parse_uuid worker_id = Some i"
    and "gate_steps c hash sc g1 g2"
  shows "authenticate_ws_token hash raw later g2 \<noteq> Some i
    \<and> verify_token hash authorization later g2 \<noteq> reply 200 [(''worker_id'', uuid_str i), (''status'', ''valid'')]
    \<and> refresh_token c hash fresh worker_id credential later g2 = (refuse 401 ''invalid credential'', g2)
    \<and> reaffirm c hash nonce worker_id credential version later g2 = (refuse 401 ''invalid identity'', g2)
    \<and> (\<exists>answer claims. release_worker hash worker_id credential g2 =
         (reply 200 [(''status'', answer)], g2\<lparr>gt_claims := claims\<rparr>))"
proof -
  note ok = tokens_ok_start [OF assms(1)]
  have "barred g1 i \<and> tokens_ok g1"
    using assms(2)
  proof (cases rule: revoke_cases)
    case 1
    then show ?thesis using assms(3) by simp
  next
    case (2 j w)
    have "tokens_ok g1" using gate_step_keeps [OF gate_step.revoke [OF assms(2)]] ok by blast
    with 2 assms(4) show ?thesis by (simp add: barred_def revoke_row_def find_worker_set)
  qed
  then obtain w where "find_worker (gt_db g2) i = Some w" "wk_revoked w"
    using gate_steps_keep [OF assms(5)] unfolding gate_evolves_def barred_def by blast
  note w = this
  have "authenticate_ws_token hash raw later g2 \<noteq> Some i"
    "refresh_token c hash fresh worker_id credential later g2 = (refuse 401 ''invalid credential'', g2)"
    "reaffirm c hash nonce worker_id credential version later g2 = (refuse 401 ''invalid identity'', g2)"
    using w assms(4) by (auto simp: authenticated locked_out_def refresh_token_def reaffirm_def)
  moreover have "uuid_str j = uuid_str i \<longleftrightarrow> j = i" for j by (metis option.inject parse_uuid_str)
  then have "verify_token hash authorization later g2 \<noteq> reply 200 [(''worker_id'', uuid_str i), (''status'', ''valid'')]"
    using w by (auto simp: verify_token_def refuse_def reply_def locked_out_def split: option.splits)
  moreover have "release_worker hash worker_id credential g2 =
      (reply 200 [(''status'', if credential_matches hash credential w then ''released'' else ''ignored'')],
       g2\<lparr>gt_claims := (if credential_matches hash credential w then kv_delete i (gt_claims g2) else gt_claims g2)\<rparr>)"
    using w assms(4) by (simp add: release_worker_def)
  ultimately show ?thesis by blast
qed

subsection \<open>A concrete gate\<close>

text \<open>Worker 1 refreshes twice; the keyed hash puts a letter in front of its argument.\<close>

definition ex_hash :: "string \<Rightarrow> string" where "ex_hash s = CHR ''h'' # s"
definition ex_secrets :: secrets where "ex_secrets = \<lparr>sc_enrollment = ''join'', sc_admin = ''root''\<rparr>"
definition ex_gate :: gate where "ex_gate = gate_start (ex_db [])"
definition ex_refresh :: "string \<Rightarrow> time \<Rightarrow> gate \<Rightarrow> response \<times> gate" where
  "ex_refresh fresh = refresh_token default_settings ex_hash fresh (uuid_str 1) ''ash''"
definition ex_minted :: gate where "ex_minted = snd (ex_refresh ''one'' 10 ex_gate)"
definition ex_reminted :: gate where "ex_reminted = snd (ex_refresh ''two'' 20 ex_minted)"
definition ex_revoked :: gate where
  "ex_revoked = snd (revoke_worker ex_secrets ''root'' (uuid_str 1) 30 ex_minted)"

lemmas ex_gate_defs = ex_gate_def gate_start_def ex_hash_def ex_db_def ex_worker_def find_worker_def
  refresh_token_def credential_matches_def verify_credential_def parse_uuid_str kv_incr_def kv_get_def
  kv_set_def default_settings_def TOKEN_RECORD_TTL_MULTIPLIER_def

lemma ex_minted_value:
  "ex_refresh ''one'' 10 ex_gate = (\<lparr>re_status = 200, re_body = [(''access_token'', PStr ''one''),
     (''expires_in'', PInt (cf_token_ttl default_settings))]\<rparr>, ex_minted)"
  "gt_db ex_minted = ex_db []" "gt_generation ex_minted = [1 \<mapsto> (1, None)]"
  "gt_tokens ex_minted = [''hone'' \<mapsto> (\<lparr>tn_worker = 1, tn_generation = 1, tn_expires = 70\<rparr>, Some 190)]"
  unfolding ex_minted_def ex_refresh_def by (simp_all add: ex_gate_defs)

lemma ex_minted_reached: "gate_steps default_settings ex_hash ex_secrets (gate_start (ex_db [])) ex_minted"
  by (rule r_into_rtranclp,
      rule gate_step.refresh [OF _ ex_minted_value(1) [unfolded ex_refresh_def ex_gate_def]])
    (simp add: gate_start_def)

lemma ex_minted_accepts: "now < 70 \<Longrightarrow> authenticate_ws_token ex_hash ''one'' now ex_minted = Some 1"
  by (simp add: authenticated superseded_def locked_out_def ex_minted_value kv_get_def ex_hash_def
      ex_db_def ex_worker_def find_worker_def)

theorem one_live_token_witness: "ex_hash ''one'' = ex_hash ''one''
  \<and> authenticate_ws_token ex_hash ''one'' 20 ex_minted = Some 1
  \<and> authenticate_ws_token ex_hash ''two'' 20 ex_minted = None"
proof -
  have "authenticate_ws_token ex_hash ''two'' 20 ex_minted = None"
    by (simp add: authenticate_ws_token_def ex_minted_value kv_get_def ex_hash_def)
  with one_live_token [OF ex_minted_reached ex_minted_accepts [of 20] ex_minted_accepts [of 30]]
  show ?thesis by (simp add: ex_minted_accepts)
qed

theorem refresh_supersedes_witness:
  "authenticate_ws_token ex_hash ''one'' 20 ex_minted = Some 1
   \<and> authenticate_ws_token ex_hash ''one'' 21 ex_reminted = None
   \<and> authenticate_ws_token ex_hash ''two'' 21 ex_reminted = Some 1"
proof -
  have fresh: "gt_tokens ex_minted (ex_hash ''two'') = None"
    by (simp add: ex_minted_value ex_hash_def)
  have r: "refresh_token default_settings ex_hash ''two'' (uuid_str 1) ''ash'' 20 ex_minted =
      (\<lparr>re_status = 200, re_body = [(''access_token'', PStr ''two''), (''expires_in'', PInt 60)]\<rparr>, ex_reminted)"
    by (simp add: ex_reminted_def ex_refresh_def ex_minted_value ex_gate_defs)
  have "authenticate_ws_token ex_hash ''one'' 21 ex_reminted = None"
    by (rule refresh_supersedes [OF ex_minted_reached ex_minted_accepts [of 20] fresh r])
      (simp_all add: parse_uuid_str)
  moreover have "authenticate_ws_token ex_hash ''two'' 21 ex_reminted = Some 1"
    by (simp add: ex_reminted_def ex_refresh_def authenticated superseded_def locked_out_def
        ex_minted_value ex_gate_defs)
  ultimately show ?thesis by (simp add: ex_minted_accepts)
qed

theorem revoked_is_shut_out_witness:
  "authenticate_ws_token ex_hash ''one'' 20 ex_minted = Some 1
   \<and> authenticate_ws_token ex_hash ''one'' 31 ex_revoked \<noteq> Some 1
   \<and> re_status (fst (ex_refresh ''two'' 31 ex_revoked)) = 401"
proof -
  have r: "revoke_worker ex_secrets ''root'' (uuid_str 1) 30 ex_minted =
      (Inr (reply 200 [(''worker_id'', uuid_str 1), (''status'', ''revoked'')]), ex_revoked)"
    by (simp add: ex_revoked_def revoke_worker_def verify_admin_secret_def compare_digest_def is_ascii_def
        ex_secrets_def parse_uuid_str ex_minted_value find_worker_def ex_db_def ex_worker_def)
  note out = revoked_is_shut_out [OF ex_minted_reached r, of 1 ex_revoked]
  from out [of "''one''" 31 "''Bearer one''" "''two''" "''ash''" "''n''" None] show ?thesis
    by (simp add: reply_def refuse_def parse_uuid_str ex_minted_accepts ex_refresh_def)
qed

subsection \<open>Rate limits\<close>

text \<open>A run of calls of many callers, each with its moment: what each call was told.\<close>

fun limit_run :: "int \<Rightarrow> ((string \<times> string) \<times> time) list \<Rightarrow> gate \<Rightarrow> ((string \<times> string) \<times> bool) list" where
  "limit_run limit [] g = []"
| "limit_run limit ((k, now) # calls) g =
     (let (limited, g1) = fixed_window_limited (fst k) (snd k) limit now g
      in (k, limited) # limit_run limit calls g1)"

definition verdicts :: "(string \<times> string) \<Rightarrow> ((string \<times> string) \<times> bool) list \<Rightarrow> bool list" where
  "verdicts k run = map snd (filter (\<lambda>r. fst r = k) run)"

lemma limited_step:
  assumes "fixed_window_limited (fst k) (snd k) limit now g = (b, g1)"
  shows "gt_rate g k = None \<Longrightarrow> b = (limit < 1) \<and> gt_rate g1 k = Some (1, Some (now + 60))"
    and "gt_rate g k = Some (n, Some x) \<Longrightarrow> now < x \<Longrightarrow> 1 \<le> n \<Longrightarrow>
      b = (limit < n + 1) \<and> gt_rate g1 k = Some (n + 1, Some x)"
    and "j \<noteq> k \<Longrightarrow> gt_rate g1 j = gt_rate g j"
  using assms by (auto simp: fixed_window_limited_def Let_def kv_incr_def kv_expire_def kv_get_def kv_set_def
      RATE_LIMIT_WINDOW_SECONDS_def split: option.splits prod.splits if_splits)

lemma verdicts_open:
  assumes "gt_rate g k = Some (n, Some x)" "\<forall>c \<in> set calls. snd c < x" "1 \<le> n"
  shows "verdicts k (limit_run limit calls g) =
    map (\<lambda>j. limit < n + 1 + int j) [0..<length (filter (\<lambda>c. fst c = k) calls)]"
  using assms
proof (induction calls arbitrary: g n)
  case Nil
  then show ?case by (simp add: verdicts_def)
next
  case (Cons c calls)
  obtain j now where c: "c = (j, now)" by fastforce
  obtain b g1 where l: "fixed_window_limited (fst j) (snd j) limit now g = (b, g1)" by fastforce
  show ?case
  proof (cases "j = k")
    case False
    then have "gt_rate g1 k = Some (n, Some x)" using limited_step(3) [OF l] Cons.prems(1) by auto
    from Cons.IH [OF this] Cons.prems False show ?thesis by (simp add: c l verdicts_def)
  next
    case True
    with limited_step(2) [OF l, of n x] Cons.prems have g1: "b = (limit < n + 1)"
        "gt_rate g1 k = Some (n + 1, Some x)" by (auto simp: c)
    have "verdicts k (limit_run limit calls g1) =
        map (\<lambda>j. limit < n + 1 + 1 + int j) [0..<length (filter (\<lambda>c. fst c = k) calls)]"
      using Cons.IH [OF g1(2)] Cons.prems(2,3) by simp
    then show ?thesis using True g1(1) l
      by (simp add: c verdicts_def map_upt_Suc algebra_simps del: upt_Suc)
  qed
qed

text \<open>
  A fixed window admits exactly as many calls of one caller as its limit says: of the
  calls a caller makes in the sixty seconds from its first, the k-th is turned away exactly
  when k exceeds the limit, whatever other callers and other scopes do in between.
\<close>

theorem rate_window_exact:
  assumes "gt_rate g k = None" and "\<forall>c \<in> set calls. start \<le> snd c \<and> snd c < start + 60"
  shows "verdicts k (limit_run limit ((k, start) # calls) g) =
    map (\<lambda>n. limit < 1 + int n) [0..<1 + length (filter (\<lambda>c. fst c = k) calls)]"
proof -
  obtain b g1 where l: "fixed_window_limited (fst k) (snd k) limit start g = (b, g1)" by fastforce
  note s = limited_step(1) [OF l assms(1)]
  have "verdicts k (limit_run limit calls g1) =
      map (\<lambda>j. limit < 1 + 1 + int j) [0..<length (filter (\<lambda>c. fst c = k) calls)]"
    by (rule verdicts_open) (use s assms(2) in auto)
  then show ?thesis using s
    by (simp add: l verdicts_def map_upt_Suc algebra_simps del: upt_Suc)
qed

theorem rate_window_exact_witness:
  "verdicts (''taskapi'', ''a'') (limit_run 2 [((''taskapi'', ''a''), 0), ((''taskapi'', ''b''), 1),
     ((''taskapi'', ''a''), 2), ((''taskapi'', ''a''), 59)] ex_gate) = [False, False, True]"
proof -
  have "gt_rate ex_gate (''taskapi'', ''a'') = None" by (simp add: ex_gate_def gate_start_def)
  from rate_window_exact [OF this, of "[((''taskapi'', ''b''), 1), ((''taskapi'', ''a''), 2),
     ((''taskapi'', ''a''), 59)]" 0 2] show ?thesis by (simp add: upt_rec)
qed

end
