(* ===== verification/Liveness.thy ===== *)
theory Liveness
  imports Workers Redis
begin

text \<open>
  \<open>coordinator/app/main.py\<close>, liveness: the metrics snapshot a worker's messages merge into
  and the sweep that turns silence into SUSPECT and OFFLINE. The snapshot is JSON text in
  Redis; here it is the dictionary itself, with the moments the coordinator stamps kept as
  moments. A sweep is modelled without other writers between its statements.
\<close>

definition HEARTBEAT_METRICS_TTL_MULTIPLIER :: int where "HEARTBEAT_METRICS_TTL_MULTIPLIER = 3"

datatype metric = Sample pyval | Moment time

type_synonym metrics = "(uuid, (string \<times> metric) list) kv"

definition merge_metrics ::
  "settings \<Rightarrow> uuid \<Rightarrow> (string \<times> metric) list \<Rightarrow> time \<Rightarrow> metrics \<Rightarrow> metrics" where
  "merge_metrics c w sent now m =
     (let existing = (case kv_get now m w of None \<Rightarrow> [] | Some d \<Rightarrow> d)
      in kv_set w (fold (\<lambda>(k, v). AList.update k v) sent existing)
           (Some (now + of_int (cf_offline_after c * HEARTBEAT_METRICS_TTL_MULTIPLIER))) m)"

text \<open>What the coordinator merges for a heartbeat, a handshake and a pong.\<close>

definition heartbeat_fields :: "pydict \<Rightarrow> time \<Rightarrow> (string \<times> metric) list" where
  "heartbeat_fields payload now =
     [(''sequence'', Sample (dict_get payload ''sequence'')),
      (''uptime_seconds'', Sample (dict_get payload ''uptime_seconds'')),
      (''agent_version'', Sample (dict_get payload ''agent_version'')),
      (''reported_status'', Sample (dict_get payload ''status'')),
      (''cpu_percent'', Sample (dict_get payload ''cpu_percent'')),
      (''memory_percent'', Sample (dict_get payload ''memory_percent'')),
      (''last_heartbeat_at'', Moment now)]"

definition baseline_fields :: "time \<Rightarrow> (string \<times> metric) list" where
  "baseline_fields now = [(''sequence'', Sample (PInt 0)), (''last_heartbeat_at'', Moment now)]"

definition latency_fields :: "rat \<Rightarrow> (string \<times> metric) list" where
  "latency_fields ms = [(''latency_ms'', Sample (PFloat (Fin ms)))]"

text \<open>\<open>elapsed\<close> of the sweep: \<open>None\<close> without a snapshot or without a heartbeat in it.\<close>

definition silence :: "uuid \<Rightarrow> time \<Rightarrow> metrics \<Rightarrow> time option" where
  "silence w now m = (case kv_get now m w of
      None \<Rightarrow> None
    | Some d \<Rightarrow> (case map_of d ''last_heartbeat_at'' of
          Some (Moment t) \<Rightarrow> Some (now - t)
        | _ \<Rightarrow> None))"

definition sweep_verdict :: "settings \<Rightarrow> time option \<Rightarrow> string \<Rightarrow> string option" where
  "sweep_verdict c elapsed status =
     (if (case elapsed of None \<Rightarrow> True | Some e \<Rightarrow> of_int (cf_offline_after c) < e)
      then (if status \<noteq> OFFLINE then Some OFFLINE else None)
      else if (case elapsed of None \<Rightarrow> False | Some e \<Rightarrow> of_int (cf_suspect_after c) < e) \<and> status \<noteq> SUSPECT
      then Some SUSPECT else None)"

definition sweep_candidates :: "db \<Rightarrow> (uuid \<times> string) list" where
  "sweep_candidates d = map (\<lambda>w. (wk_id w, wk_status w))
     (filter (\<lambda>w. wk_status w \<in> {CONNECTING, ONLINE, SUSPECT}) (db_workers d))"

fun sweep_each :: "settings \<Rightarrow> time \<Rightarrow> metrics \<Rightarrow> (uuid \<times> string) list \<Rightarrow> db \<Rightarrow> db" where
  "sweep_each c now m [] d = d"
| "sweep_each c now m ((w, status) # ws) d =
     (case sweep_verdict c (silence w now m) status of
        None \<Rightarrow> sweep_each c now m ws d
      | Some s \<Rightarrow> sweep_each c now m ws (transition_status w s now d))"

definition sweep_heartbeats :: "settings \<Rightarrow> time \<Rightarrow> metrics \<Rightarrow> db \<Rightarrow> db" where
  "sweep_heartbeats c now m d = sweep_each c now m (sweep_candidates d) d"

subsection \<open>A sweep is one verdict per worker\<close>

definition swept_row :: "settings \<Rightarrow> time \<Rightarrow> metrics \<Rightarrow> worker_row \<Rightarrow> worker_row" where
  "swept_row c now m w =
     (if wk_status w \<in> {CONNECTING, ONLINE, SUSPECT}
      then case sweep_verdict c (silence (wk_id w) now m) (wk_status w) of
          None \<Rightarrow> w | Some s \<Rightarrow> w\<lparr>wk_status := s, wk_updated_at := now\<rparr>
      else w)"

lemma verdict_moves: "sweep_verdict c e s = Some s' \<Longrightarrow> s' \<noteq> s"
  by (auto simp: sweep_verdict_def split: if_splits)

lemma sweep_each_absent:
  "i \<notin> fst ` set ws \<Longrightarrow> find_worker (sweep_each c now m ws d) i = find_worker d i"
proof (induction ws arbitrary: d)
  case (Cons p ws)
  obtain w s where p: "p = (w, s)" by fastforce
  have "find_worker (transition_status w t now d) i = find_worker d i" for t
    using Cons.prems by (auto simp: p transition_status_def write_status_def find_worker_set)
  with Cons p show ?case by (auto split: option.splits)
qed simp

lemma sweep_each_present:
  assumes "distinct (map fst ws)" "(i, wk_status w) \<in> set ws" "find_worker d i = Some w"
    and "wk_status w \<noteq> QUARANTINED"
  shows "find_worker (sweep_each c now m ws d) i = Some
    (case sweep_verdict c (silence i now m) (wk_status w) of
        None \<Rightarrow> w | Some s \<Rightarrow> w\<lparr>wk_status := s, wk_updated_at := now\<rparr>)"
  using assms
proof (induction ws arbitrary: d)
  case (Cons p ws)
  obtain j s where p: "p = (j, s)" by fastforce
  show ?case
  proof (cases "j = i")
    case True
    then have s: "s = wk_status w" and out: "i \<notin> fst ` set ws"
      using Cons.prems(1,2) p by (auto simp: image_iff)
    have "find_worker (transition_status i t now d) i = Some (w\<lparr>wk_status := t, wk_updated_at := now\<rparr>)"
      if "t \<noteq> wk_status w" for t
      using that Cons.prems(3,4)
      by (simp add: transition_status_def wants_transition_def write_status_def find_worker_set)
    with Cons.prems(3) verdict_moves show ?thesis
      by (simp add: p s True sweep_each_absent [OF out] split: option.splits)
  next
    case False
    then have "find_worker (transition_status j t now d) i = Some w" for t
      using Cons.prems(3) by (simp add: transition_status_def write_status_def find_worker_set)
    with Cons False p show ?thesis by (simp split: option.splits)
  qed
qed simp

lemma distinct_candidates: "distinct (map wk_id (db_workers d)) \<Longrightarrow> distinct (map fst (sweep_candidates d))"
  by (simp add: sweep_candidates_def o_def distinct_map_filter)

lemma find_worker_mem: "find_worker d i = Some w \<Longrightarrow> w \<in> set (db_workers d) \<and> wk_id w = i"
  by (auto simp: find_worker_def find_Some_iff)

lemma sweep_row:
  assumes ids: "distinct (map wk_id (db_workers d))"
  shows "find_worker (sweep_heartbeats c now m d) i = map_option (swept_row c now m) (find_worker d i)"
proof (cases "find_worker d i")
  case None
  then have "i \<notin> fst ` set (sweep_candidates d)"
    by (auto simp: find_worker_def find_None_iff sweep_candidates_def)
  with None show ?thesis by (simp add: sweep_heartbeats_def sweep_each_absent)
next
  case (Some w)
  note w = find_worker_mem [OF Some]
  show ?thesis
  proof (cases "wk_status w \<in> {CONNECTING, ONLINE, SUSPECT}")
    case True
    then have "(i, wk_status w) \<in> set (sweep_candidates d)" and "wk_status w \<noteq> QUARANTINED"
      using w by (auto simp: sweep_candidates_def worker_state_defs)
    from sweep_each_present [OF distinct_candidates [OF ids] this(1) Some this(2)]
    show ?thesis using True w by (simp add: Some sweep_heartbeats_def swept_row_def)
  next
    case False
    have "i \<notin> fst ` set (sweep_candidates d)"
    proof
      assume "i \<in> fst ` set (sweep_candidates d)"
      then obtain v where v: "v \<in> set (db_workers d)" "wk_id v = i" "wk_status v \<in> {CONNECTING, ONLINE, SUSPECT}"
        by (auto simp: sweep_candidates_def)
      with w ids have "v = w" by (auto simp: distinct_map inj_on_def)
      with v(3) False show False by simp
    qed
    with False Some show ?thesis by (simp add: sweep_heartbeats_def sweep_each_absent swept_row_def)
  qed
qed

text \<open>The last heartbeat survives every later merge that brings none.\<close>

lemma map_of_fold_update:
  "map_of (fold (\<lambda>(k, v). AList.update k v) fs d) = map_of d ++ map_of (rev fs)"
proof (induction fs arbitrary: d)
  case (Cons p fs)
  then show ?case by (cases p) (auto simp: update_conv map_add_def fun_eq_iff split: option.splits)
qed simp

lemma silence_merged:
  assumes "map_of (rev sent) ''last_heartbeat_at'' = Some (Moment t)"
  shows "silence w now (merge_metrics c w sent t m) =
    (if now < t + of_int (cf_offline_after c * 3) then Some (now - t) else None)"
  using assms by (simp add: silence_def merge_metrics_def Let_def map_of_fold_update
      HEARTBEAT_METRICS_TTL_MULTIPLIER_def map_add_def)

end
