(* ===== verification/Connections.thy ===== *)
theory Connections
  imports Auth Replica Wire Liveness
begin

text \<open>
  \<open>coordinator/app/main.py\<close>, \<open>ws_connect\<close> and \<open>_control_listener\<close>: a worker socket from
  its handshake to its teardown, on any number of coordinator processes at once. A socket
  is a connection with a stage, the point its coroutine has reached; every step of a fleet
  is one stretch of one coroutine between two of its awaits on shared state, so a run is any
  interleaving. A process keeps its sessions as references to connections, as the source
  keeps references to \<open>LocalSession\<close> objects. A published message goes to the inbox of those
  listeners subscribed at that moment that it reaches, since the key-value server does not
  promise delivery; the listener hears it later, then sends the notice, then closes.
\<close>

definition WS_HELLO_TIMEOUT_SECONDS :: int where "WS_HELLO_TIMEOUT_SECONDS = 10"

subsection \<open>The handshake\<close>

record profile =
  wc_worker :: uuid
  wc_max :: int
  wc_types :: "string list"
  wc_residual :: int

text \<open>
  How a handshake ends: refused with an error event and a close code, given up on, ended by
  an exception, or welcomed.
\<close>

datatype greeting = Refused string int | GivenUp | Broken exn | Welcome profile

text \<open>The text of the first frame: none in time, not JSON, or a JSON value.\<close>

datatype frame = NoFrame | NotJson | Json pyval

definition read_hello :: "settings \<Rightarrow> uuid \<Rightarrow> pydict \<Rightarrow> greeting" where
  "read_hello c w hello =
     (if dict_get hello ''message_type'' \<noteq> PStr ''hello''
      then Refused ''ws_protocol_error_expected_hello'' 4002
      else if dict_get hello ''worker_id'' \<noteq> PStr (uuid_str w)
      then Refused ''ws_auth_rejected_worker_id_mismatch'' 4401
      else if dict_get hello ''protocol_version'' \<noteq> PStr PROTOCOL_VERSION
      then Refused ''ws_protocol_version_mismatch'' 4001
      else case payload_of hello of
          Inl e \<Rightarrow> Broken e
        | Inr payload \<Rightarrow> (case parse_capabilities c (Some payload) of
              Inl e \<Rightarrow> Broken e
            | Inr (max_concurrent, types) \<Rightarrow> (case parse_tasks_in_flight (Some payload) max_concurrent of
                  Inl e \<Rightarrow> Broken e
                | Inr k \<Rightarrow> Welcome \<lparr>wc_worker = w, wc_max = max_concurrent, wc_types = types,
                    wc_residual = k\<rparr>)))"

definition greet ::
  "settings \<Rightarrow> (string \<Rightarrow> string) \<Rightarrow> string \<Rightarrow> frame \<Rightarrow> time \<Rightarrow> gate \<Rightarrow> greeting \<times> gate" where
  "greet c hash header first now g =
     (if take (length bearer) header \<noteq> bearer then (Refused ''ws_auth_rejected_malformed'' 4401, g)
      else case authenticate_ws_token hash (drop (length bearer) header) now g of
          None \<Rightarrow> (Refused ''ws_auth_rejected'' 4401, g)
        | Some w \<Rightarrow>
            (case first of
               NoFrame \<Rightarrow> GivenUp
             | NotJson \<Rightarrow> Broken ValueError
             | Json (PDict hello) \<Rightarrow> read_hello c w hello
             | Json _ \<Rightarrow> Broken AttributeError,
             g\<lparr>gt_db := transition_status w CONNECTING now (gt_db g)\<rparr>))"

subsection \<open>The fleet\<close>

datatype stage = Greeted | Numbered | Announced | Listed | Online | Seeded | Live | Serving
  | Closing | Guarded | Cleared | Gone

record connection =
  cn_worker :: uuid
  cn_host :: nat
  cn_stage :: stage
  cn_epoch :: int
  cn_welcome :: profile
  cn_session :: local_session
  cn_open :: bool
  cn_listening :: bool
  cn_inbox :: "int list"
  cn_evicting :: bool
  cn_deaf :: bool

record registration =
  rg_epoch :: int
  rg_host :: nat
  rg_max :: int
  rg_types :: "string list"

record fleet =
  fl_db :: db
  fl_epochs :: "(uuid, int) kv"
  fl_registry :: "(uuid, registration) kv"
  fl_shown :: "uuid \<Rightarrow> pydict list"
  fl_metrics :: metrics
  fl_held :: "nat \<Rightarrow> (uuid \<times> nat) list"
  fl_bell :: "nat \<Rightarrow> bool"
  fl_conns :: "nat \<Rightarrow> connection option"

definition set_conn :: "nat \<Rightarrow> connection \<Rightarrow> fleet \<Rightarrow> fleet" where
  "set_conn k cn fl = fl\<lparr>fl_conns := (fl_conns fl)(k \<mapsto> cn)\<rparr>"

definition greeted :: "nat \<Rightarrow> profile \<Rightarrow> connection" where
  "greeted host wc = \<lparr>cn_worker = wc_worker wc, cn_host = host, cn_stage = Greeted, cn_epoch = 0,
     cn_welcome = wc, cn_session = open_session (wc_worker wc) 0 (wc_max wc) (wc_types wc) (wc_residual wc),
     cn_open = True, cn_listening = False, cn_inbox = [], cn_evicting = False, cn_deaf = False\<rparr>"

text \<open>What the sessions of a process are, through the references it keeps.\<close>

definition sessions_of :: "nat \<Rightarrow> fleet \<Rightarrow> (uuid \<times> local_session) list" where
  "sessions_of host fl = map (\<lambda>(w, k). (w, cn_session (the (fl_conns fl k)))) (fl_held fl host)"

definition hold :: "nat \<Rightarrow> connection \<Rightarrow> fleet \<Rightarrow> fleet" where
  "hold k cn fl = fl\<lparr>fl_held := (fl_held fl)(cn_host cn := AList.update (cn_worker cn) k (fl_held fl (cn_host cn))),
     fl_bell := (fl_bell fl)(cn_host cn := True)\<rparr>"

definition unhold :: "connection \<Rightarrow> fleet \<Rightarrow> fleet" where
  "unhold cn fl = (case map_of (fl_held fl (cn_host cn)) (cn_worker cn) of
      None \<Rightarrow> fl
    | Some k \<Rightarrow> (case fl_conns fl k of
          None \<Rightarrow> fl
        | Some other \<Rightarrow>
            if ls_epoch (cn_session other) = cn_epoch cn
            then fl\<lparr>fl_held := (fl_held fl)(cn_host cn := AList.delete (cn_worker cn) (fl_held fl (cn_host cn)))\<rparr>
            else fl))"

subsection \<open>The stretches of a handshake\<close>

definition number :: "nat \<Rightarrow> connection \<Rightarrow> time \<Rightarrow> fleet \<Rightarrow> fleet" where
  "number k cn now fl = (let (n, m) = kv_incr now (cn_worker cn) (fl_epochs fl)
     in set_conn k (cn\<lparr>cn_stage := Numbered, cn_epoch := n\<rparr>) (fl\<lparr>fl_epochs := m\<rparr>))"

text \<open>
  The publication can reach who listens on the channel of that worker at that moment;
  \<open>reach\<close> says whom it does reach.
\<close>

definition tell :: "uuid \<Rightarrow> int \<Rightarrow> connection \<Rightarrow> connection" where
  "tell w n cn = (if cn_worker cn = w \<and> cn_listening cn then cn\<lparr>cn_inbox := cn_inbox cn @ [n]\<rparr> else cn)"

definition announce :: "(nat \<Rightarrow> bool) \<Rightarrow> nat \<Rightarrow> connection \<Rightarrow> fleet \<Rightarrow> fleet" where
  "announce reach k cn fl = fl\<lparr>fl_conns :=
     (\<lambda>j. map_option (if reach j then tell (cn_worker cn) (cn_epoch cn) else id) (fl_conns fl j))
     (k \<mapsto> cn\<lparr>cn_stage := Announced\<rparr>)\<rparr>"

definition enlist :: "int \<Rightarrow> nat \<Rightarrow> connection \<Rightarrow> time \<Rightarrow> fleet \<Rightarrow> fleet" where
  "enlist registry_ttl k cn now fl = set_conn k (cn\<lparr>cn_stage := Listed\<rparr>)
     (fl\<lparr>fl_registry := kv_set (cn_worker cn) \<lparr>rg_epoch = cn_epoch cn, rg_host = cn_host cn,
           rg_max = wc_max (cn_welcome cn), rg_types = wc_types (cn_welcome cn)\<rparr>
         (Some (now + of_int registry_ttl)) (fl_registry fl)\<rparr>)"

definition go_online :: "nat \<Rightarrow> connection \<Rightarrow> time \<Rightarrow> fleet \<Rightarrow> fleet" where
  "go_online k cn now fl = set_conn k (cn\<lparr>cn_stage := Online\<rparr>)
     (fl\<lparr>fl_db := transition_status (cn_worker cn) ONLINE now (fl_db fl)\<rparr>)"

definition seed :: "settings \<Rightarrow> nat \<Rightarrow> connection \<Rightarrow> time \<Rightarrow> fleet \<Rightarrow> fleet" where
  "seed c k cn now fl = set_conn k (cn\<lparr>cn_stage := Seeded\<rparr>)
     (fl\<lparr>fl_metrics := merge_metrics c (cn_worker cn) (baseline_fields now) now (fl_metrics fl)\<rparr>)"

definition go_live :: "nat \<Rightarrow> connection \<Rightarrow> fleet \<Rightarrow> fleet" where
  "go_live k cn fl = (let wc = cn_welcome cn;
       cn' = cn\<lparr>cn_stage := Live, cn_session := open_session (cn_worker cn) (cn_epoch cn) (wc_max wc)
         (wc_types wc) (wc_residual wc)\<rparr>
     in hold k cn' (set_conn k cn' fl))"

definition renew_on_hello :: "settings \<Rightarrow> bool \<Rightarrow> nat \<Rightarrow> connection \<Rightarrow> time \<Rightarrow> fleet \<Rightarrow> fleet" where
  "renew_on_hello c up k cn now fl =
     (if \<not> up then set_conn k (cn\<lparr>cn_stage := Serving\<rparr>) fl
      else let (renewed, d) = renew_worker_leases c (cn_worker cn) now (fl_db fl)
           in if renewed = [] then set_conn k (cn\<lparr>cn_stage := Serving\<rparr>) fl
              else set_conn k (cn\<lparr>cn_stage := Serving,
                  cn_session := (cn_session cn)\<lparr>ls_recovered := ls_recovered (cn_session cn) \<union> set renewed\<rparr>\<rparr>)
                (fl\<lparr>fl_db := d\<rparr>))"

subsection \<open>Listening\<close>

definition listen :: "nat \<Rightarrow> connection \<Rightarrow> fleet \<Rightarrow> fleet" where
  "listen k cn fl = set_conn k (cn\<lparr>cn_listening := True\<rparr>) fl"

text \<open>
  An older epoch is skipped. A newer one ends the loop: the notice is sent, which can take as
  long as the socket does, and whether or not that worked the socket is closed.
\<close>

definition hear :: "nat \<Rightarrow> connection \<Rightarrow> fleet \<Rightarrow> fleet" where
  "hear k cn fl = (case cn_inbox cn of
      [] \<Rightarrow> fl
    | n # ns \<Rightarrow> if n \<le> cn_epoch cn then set_conn k (cn\<lparr>cn_inbox := ns\<rparr>) fl
               else set_conn k (cn\<lparr>cn_inbox := [], cn_listening := False, cn_evicting := True\<rparr>) fl)"

definition evict :: "nat \<Rightarrow> connection \<Rightarrow> fleet \<Rightarrow> fleet" where
  "evict k cn fl = set_conn k (cn\<lparr>cn_open := False, cn_evicting := False\<rparr>) fl"

text \<open>The listener dies, before or after it subscribed; nothing starts it again.\<close>

definition deafen :: "nat \<Rightarrow> connection \<Rightarrow> fleet \<Rightarrow> fleet" where
  "deafen k cn fl = set_conn k (cn\<lparr>cn_listening := False, cn_inbox := [], cn_deaf := True\<rparr>) fl"

subsection \<open>The receive loop\<close>

definition on_pong :: "settings \<Rightarrow> int \<Rightarrow> rat option \<Rightarrow> connection \<Rightarrow> time \<Rightarrow> fleet \<Rightarrow> fleet" where
  "on_pong c registry_ttl latency cn now fl =
     (let fl' = fl\<lparr>fl_registry := kv_expire now (cn_worker cn) (of_int registry_ttl) (fl_registry fl)\<rparr>
      in case latency of
          None \<Rightarrow> fl'
        | Some ms \<Rightarrow> fl'\<lparr>fl_metrics := merge_metrics c (cn_worker cn) (latency_fields ms) now (fl_metrics fl')\<rparr>)"

definition on_heartbeat :: "settings \<Rightarrow> pydict \<Rightarrow> connection \<Rightarrow> time \<Rightarrow> fleet \<Rightarrow> fleet" where
  "on_heartbeat c payload cn now fl =
     fl\<lparr>fl_metrics := merge_metrics c (cn_worker cn) (heartbeat_fields payload now) now (fl_metrics fl),
        fl_db := transition_status (cn_worker cn) ONLINE now (fl_db fl)\<rparr>"

text \<open>
  One frame. \<open>True\<close> keeps the loop going; an exception leaves it for the teardown. The task
  protocol runs on the session object of this very connection.
\<close>

definition on_task_message :: "ctx \<Rightarrow> nat \<Rightarrow> connection \<Rightarrow> pydict \<Rightarrow> fleet \<Rightarrow> bool \<times> fleet" where
  "on_task_message cx k cn message fl =
     (let h = \<lparr>hb_session = cn_session cn, hb_db = fl_db fl, hb_bell = fl_bell fl (cn_host cn),
               hb_shown = fl_shown fl (cn_worker cn), hb_sent = []\<rparr>;
          (raised, h') = dispatch cx message h
      in (raised = None, set_conn k (cn\<lparr>cn_session := hb_session h'\<rparr>)
            (fl\<lparr>fl_db := hb_db h', fl_bell := (fl_bell fl)(cn_host cn := hb_bell h'),
               fl_shown := (fl_shown fl)(cn_worker cn := hb_shown h')\<rparr>)))"

definition on_frame ::
  "ctx \<Rightarrow> int \<Rightarrow> rat option \<Rightarrow> nat \<Rightarrow> connection \<Rightarrow> frame \<Rightarrow> fleet \<Rightarrow> bool \<times> fleet" where
  "on_frame cx registry_ttl latency k cn text fl = (case text of
      Json (PDict message) \<Rightarrow>
        if dict_get message ''message_type'' = PStr ''pong''
        then (True, on_pong (cx_settings cx) registry_ttl latency cn (cx_now cx) fl)
        else if dict_get message ''message_type'' = PStr ''heartbeat''
        then (case payload_of message of
            Inl e \<Rightarrow> (False, fl)
          | Inr payload \<Rightarrow> (True, on_heartbeat (cx_settings cx) payload cn (cx_now cx) fl))
        else on_task_message cx k cn message fl
    | _ \<Rightarrow> (False, fl))"

subsection \<open>The teardown\<close>

text \<open>The stretch without an await: the listener is cancelled and the session let go.\<close>

definition finish :: "nat \<Rightarrow> connection \<Rightarrow> fleet \<Rightarrow> fleet" where
  "finish k cn fl = set_conn k (cn\<lparr>cn_stage := Closing, cn_open := False, cn_listening := False, cn_inbox := [], cn_evicting := False\<rparr>)
     (unhold cn fl)"

definition check_registry :: "nat \<Rightarrow> connection \<Rightarrow> time \<Rightarrow> fleet \<Rightarrow> fleet" where
  "check_registry k cn now fl = (case kv_get now (fl_registry fl) (cn_worker cn) of
      Some r \<Rightarrow> set_conn k (cn\<lparr>cn_stage := (if rg_epoch r = cn_epoch cn then Guarded else Gone)\<rparr>) fl
    | None \<Rightarrow> set_conn k (cn\<lparr>cn_stage := Gone\<rparr>) fl)"

definition clear_registry :: "nat \<Rightarrow> connection \<Rightarrow> fleet \<Rightarrow> fleet" where
  "clear_registry k cn fl = set_conn k (cn\<lparr>cn_stage := Cleared\<rparr>)
     (fl\<lparr>fl_registry := kv_delete (cn_worker cn) (fl_registry fl),
         fl_shown := (fl_shown fl)(cn_worker cn := [])\<rparr>)"

definition retire :: "settings \<Rightarrow> bool \<Rightarrow> nat \<Rightarrow> connection \<Rightarrow> time \<Rightarrow> fleet \<Rightarrow> fleet" where
  "retire c up k cn now fl = set_conn k (cn\<lparr>cn_stage := Gone\<rparr>)
     (fl\<lparr>fl_db := snd (shorten_local_leases c up (cn_worker cn) now
        (transition_status (cn_worker cn) OFFLINE now (fl_db fl)))\<rparr>)"

subsection \<open>Runs\<close>

text \<open>
  \<open>Fail\<close> is an exception before the receive loop, which no teardown follows, and \<open>Drop\<close> is
  a socket the peer closes; \<open>Deafen\<close> is an exception in the listener of a session; \<open>Elsewhere\<close> is anything else that writes the tables or the
  snapshots.
\<close>

datatype action =
    Connect nat nat profile
  | Number nat time
  | Announce nat "nat \<Rightarrow> bool"
  | Enlist nat int time
  | GoOnline nat time
  | Seed nat settings time
  | GoLive nat
  | Renew nat settings bool time
  | Listen nat
  | Hear nat
  | Evict nat
  | Deafen nat
  | Drop nat
  | Fail nat
  | Receive nat ctx int "rat option" frame
  | Finish nat
  | CheckRegistry nat time
  | ClearRegistry nat
  | Retire nat settings bool time
  | Elsewhere db metrics

definition at_stage :: "fleet \<Rightarrow> nat \<Rightarrow> stage set \<Rightarrow> connection option" where
  "at_stage fl k sts = (case fl_conns fl k of
      None \<Rightarrow> None | Some cn \<Rightarrow> if cn_stage cn \<in> sts then Some cn else None)"

definition at_do :: "fleet \<Rightarrow> nat \<Rightarrow> stage set \<Rightarrow> (connection \<Rightarrow> fleet option) \<Rightarrow> fleet option" where
  "at_do fl k sts f = (case at_stage fl k sts of None \<Rightarrow> None | Some cn \<Rightarrow> f cn)"

fun fleet_do :: "action \<Rightarrow> fleet \<Rightarrow> fleet option" where
  "fleet_do (Connect k host wc) fl =
     (if fl_conns fl k = None then Some (set_conn k (greeted host wc) fl) else None)"
| "fleet_do (Number k now) fl = at_do fl k {Greeted} (\<lambda>cn. Some (number k cn now fl))"
| "fleet_do (Announce k reach) fl = at_do fl k {Numbered} (\<lambda>cn. Some (announce reach k cn fl))"
| "fleet_do (Enlist k ttl now) fl = at_do fl k {Announced} (\<lambda>cn. Some (enlist ttl k cn now fl))"
| "fleet_do (GoOnline k now) fl = at_do fl k {Listed} (\<lambda>cn. Some (go_online k cn now fl))"
| "fleet_do (Seed k c now) fl = at_do fl k {Online} (\<lambda>cn. Some (seed c k cn now fl))"
| "fleet_do (GoLive k) fl = at_do fl k {Seeded} (\<lambda>cn. Some (go_live k cn fl))"
| "fleet_do (Renew k c up now) fl = at_do fl k {Live} (\<lambda>cn. Some (renew_on_hello c up k cn now fl))"
| "fleet_do (Listen k) fl = at_do fl k {Live, Serving} (\<lambda>cn.
     if cn_listening cn \<or> cn_evicting cn \<or> cn_deaf cn \<or> \<not> cn_open cn then None else Some (listen k cn fl))"
| "fleet_do (Hear k) fl = at_do fl k {Live, Serving} (\<lambda>cn.
     if cn_listening cn then Some (hear k cn fl) else None)"
| "fleet_do (Evict k) fl = at_do fl k {Live, Serving} (\<lambda>cn.
     if cn_evicting cn then Some (evict k cn fl) else None)"
| "fleet_do (Deafen k) fl = at_do fl k {Live, Serving} (\<lambda>cn.
     if cn_evicting cn \<or> cn_deaf cn then None else Some (deafen k cn fl))"
| "fleet_do (Drop k) fl = at_do fl k {Greeted, Numbered, Announced, Listed, Online, Seeded, Live, Serving} (\<lambda>cn.
     Some (set_conn k (cn\<lparr>cn_open := False\<rparr>) fl))"
| "fleet_do (Fail k) fl = at_do fl k {Greeted, Numbered, Announced, Listed, Online, Seeded} (\<lambda>cn.
     Some (set_conn k (cn\<lparr>cn_stage := Gone, cn_open := False\<rparr>) fl))"
| "fleet_do (Receive k cx registry_ttl latency text) fl = at_do fl k {Serving} (\<lambda>cn.
     if \<not> cn_open cn then None
     else let (ok, fl') = on_frame cx registry_ttl latency k cn text fl
          in if ok then Some fl' else (case fl_conns fl' k of None \<Rightarrow> None | Some cn' \<Rightarrow> Some (finish k cn' fl')))"
| "fleet_do (Finish k) fl = at_do fl k {Serving} (\<lambda>cn. Some (finish k cn fl))"
| "fleet_do (CheckRegistry k now) fl = at_do fl k {Closing} (\<lambda>cn. Some (check_registry k cn now fl))"
| "fleet_do (ClearRegistry k) fl = at_do fl k {Guarded} (\<lambda>cn. Some (clear_registry k cn fl))"
| "fleet_do (Retire k c up now) fl = at_do fl k {Cleared} (\<lambda>cn. Some (retire c up k cn now fl))"
| "fleet_do (Elsewhere d m) fl = Some (fl\<lparr>fl_db := d, fl_metrics := m\<rparr>)"

fun fleet_run :: "action list \<Rightarrow> fleet \<Rightarrow> fleet option" where
  "fleet_run [] fl = Some fl"
| "fleet_run (a # as) fl = (case fleet_do a fl of None \<Rightarrow> None | Some fl' \<Rightarrow> fleet_run as fl')"

text \<open>The tables are arbitrary at the start; nobody has ever connected.\<close>

definition fleet_start :: "db \<Rightarrow> fleet" where
  "fleet_start d = \<lparr>fl_db = d, fl_epochs = Map.empty, fl_registry = Map.empty, fl_shown = (\<lambda>_. []),
     fl_metrics = Map.empty, fl_held = (\<lambda>_. []), fl_bell = (\<lambda>_. False), fl_conns = Map.empty\<rparr>"

end
