(* ===== verification/ConnectionProperties.thy ===== *)
theory ConnectionProperties
  imports Connections AssignmentProperties
begin

text \<open>
  What holds of every interleaving of handshakes, listeners and teardowns: epochs are
  fresh and references are sound, a listening session learns of every later handshake, the
  teardown of a superseded session spares the one that replaced it. Two runs show what the
  interleavings do allow.
\<close>

subsection \<open>Sound references\<close>

definition conn_ok :: "connection \<Rightarrow> bool" where
  "conn_ok cn \<longleftrightarrow> 0 \<le> cn_epoch cn \<and> (cn_stage cn = Greeted \<longrightarrow> cn_epoch cn = 0)
    \<and> (cn_stage cn \<notin> {Greeted, Gone} \<longrightarrow> 0 < cn_epoch cn)
    \<and> (cn_stage cn \<in> {Live, Serving} \<longrightarrow>
         ls_epoch (cn_session cn) = cn_epoch cn \<and> ls_worker (cn_session cn) = cn_worker cn)
    \<and> (cn_listening cn \<or> cn_evicting cn \<longrightarrow> cn_stage cn \<in> {Live, Serving})"

definition numbers_ok :: "fleet \<Rightarrow> bool" where
  "numbers_ok fl \<longleftrightarrow> (\<forall>w v x. fl_epochs fl w = Some (v, x) \<longrightarrow> x = None \<and> 0 < v)
    \<and> (\<forall>k cn. fl_conns fl k = Some cn \<and> 0 < cn_epoch cn \<longrightarrow>
         (\<exists>n. fl_epochs fl (cn_worker cn) = Some (n, None) \<and> cn_epoch cn \<le> n))
    \<and> (\<forall>k l cn cn'. fl_conns fl k = Some cn \<and> fl_conns fl l = Some cn' \<and> cn_worker cn' = cn_worker cn
         \<and> cn_epoch cn' = cn_epoch cn \<and> 0 < cn_epoch cn \<longrightarrow> k = l)"

definition registry_ok :: "fleet \<Rightarrow> bool" where
  "registry_ok fl \<longleftrightarrow> (\<forall>w r x. fl_registry fl w = Some (r, x) \<longrightarrow>
     (\<exists>k cn. fl_conns fl k = Some cn \<and> cn_worker cn = w \<and> cn_epoch cn = rg_epoch r \<and> 0 < rg_epoch r))"

definition held_ok :: "fleet \<Rightarrow> bool" where
  "held_ok fl \<longleftrightarrow> (\<forall>h. distinct (map fst (fl_held fl h)) \<and>
     (\<forall>(w, k) \<in> set (fl_held fl h). \<exists>cn. fl_conns fl k = Some cn \<and> cn_worker cn = w \<and> cn_host cn = h
        \<and> cn_stage cn \<in> {Live, Serving}))"

definition fleet_ok :: "fleet \<Rightarrow> bool" where
  "fleet_ok fl \<longleftrightarrow> (\<forall>k cn. fl_conns fl k = Some cn \<longrightarrow> conn_ok cn)
     \<and> numbers_ok fl \<and> registry_ok fl \<and> held_ok fl"

lemma registry_okD: "registry_ok fl \<Longrightarrow> fl_registry fl w = Some (r, x) \<Longrightarrow>
    \<exists>k cn. fl_conns fl k = Some cn \<and> cn_worker cn = w \<and> cn_epoch cn = rg_epoch r \<and> 0 < rg_epoch r"
  unfolding registry_ok_def by (elim allE impE) assumption+

lemma held_okD:
  assumes "held_ok fl" and "(w, k) \<in> set (fl_held fl h)"
  shows "\<exists>cn. fl_conns fl k = Some cn \<and> cn_worker cn = w \<and> cn_host cn = h \<and> cn_stage cn \<in> {Live, Serving}"
proof -
  have "\<forall>(w, k) \<in> set (fl_held fl h). \<exists>cn. fl_conns fl k = Some cn \<and> cn_worker cn = w \<and> cn_host cn = h
      \<and> cn_stage cn \<in> {Live, Serving}"
    using assms(1) by (simp add: held_ok_def)
  from bspec [OF this assms(2)] show ?thesis by simp
qed

lemma numbers_okD:
  "numbers_ok fl \<Longrightarrow> fl_epochs fl w = Some (v, x) \<Longrightarrow> x = None \<and> 0 < v"
  "numbers_ok fl \<Longrightarrow> fl_conns fl k = Some cn \<Longrightarrow> 0 < cn_epoch cn \<Longrightarrow>
     \<exists>n. fl_epochs fl (cn_worker cn) = Some (n, None) \<and> cn_epoch cn \<le> n"
  "numbers_ok fl \<Longrightarrow> fl_conns fl k = Some cn \<Longrightarrow> fl_conns fl l = Some cn' \<Longrightarrow>
     cn_worker cn' = cn_worker cn \<Longrightarrow> cn_epoch cn' = cn_epoch cn \<Longrightarrow> 0 < cn_epoch cn \<Longrightarrow> k = l"
  unfolding numbers_ok_def by blast+

lemma fleet_part_cong:
  assumes c: "fl_conns g = fl_conns f"
  shows "fl_epochs g = fl_epochs f \<Longrightarrow> numbers_ok g = numbers_ok f"
    and "fl_registry g = fl_registry f \<Longrightarrow> registry_ok g = registry_ok f"
    and "fl_held g = fl_held f \<Longrightarrow> held_ok g = held_ok f"
proof -
  show "numbers_ok g = numbers_ok f" if e: "fl_epochs g = fl_epochs f" unfolding numbers_ok_def c e ..
  show "registry_ok g = registry_ok f" if e: "fl_registry g = fl_registry f" unfolding registry_ok_def c e ..
  show "held_ok g = held_ok f" if e: "fl_held g = fl_held f" unfolding held_ok_def c e ..
qed

lemma set_conn_sel [simp]:
  "fl_conns (set_conn k c fl) = (fl_conns fl)(k \<mapsto> c)" "fl_epochs (set_conn k c fl) = fl_epochs fl"
  "fl_registry (set_conn k c fl) = fl_registry fl" "fl_held (set_conn k c fl) = fl_held fl"
  "fl_db (set_conn k c fl) = fl_db fl" "fl_metrics (set_conn k c fl) = fl_metrics fl"
  "fl_shown (set_conn k c fl) = fl_shown fl" "fl_bell (set_conn k c fl) = fl_bell fl"
  by (simp_all add: set_conn_def)

lemma fleet_ok_start: "fleet_ok (fleet_start d)"
  by (simp add: fleet_ok_def numbers_ok_def registry_ok_def held_ok_def fleet_start_def)

text \<open>
  Most steps change one connection and neither its identity nor its number, and drop at most
  what the process or the registry says about others.
\<close>

definition same_conn :: "connection \<Rightarrow> connection \<Rightarrow> bool" where
  "same_conn cn cn' \<longleftrightarrow> cn_worker cn' = cn_worker cn \<and> cn_host cn' = cn_host cn \<and> cn_epoch cn' = cn_epoch cn"

lemma same_conn_refl [simp]: "same_conn cn cn"
  by (simp add: same_conn_def)

lemma fleet_ok_frame:
  assumes ok: "fleet_ok fl"
    and ids: "\<And>k. rel_option same_conn (fl_conns fl k) (fl_conns fl' k)"
    and conns: "\<And>k cn'. fl_conns fl' k = Some cn' \<Longrightarrow> conn_ok cn'"
    and epochs: "fl_epochs fl' = fl_epochs fl"
    and reg: "\<And>w r x. fl_registry fl' w = Some (r, x) \<Longrightarrow> \<exists>x. fl_registry fl w = Some (r, x)"
    and held: "held_ok fl'"
  shows "fleet_ok fl'"
proof -
  have old: "\<exists>cn. fl_conns fl k = Some cn \<and> same_conn cn cn'" if "fl_conns fl' k = Some cn'" for k cn'
    using ids [of k] that by (auto simp: option_rel_Some2)
  have new: "\<exists>cn'. fl_conns fl' k = Some cn' \<and> same_conn cn cn'" if "fl_conns fl k = Some cn" for k cn
    using ids [of k] that by (auto simp: option_rel_Some1)
  have n: "numbers_ok fl" and r: "registry_ok fl" using ok by (simp_all add: fleet_ok_def)
  have "numbers_ok fl'"
    unfolding numbers_ok_def epochs
  proof (intro conjI allI impI)
    fix k cn' assume "fl_conns fl' k = Some cn' \<and> 0 < cn_epoch cn'"
    with old obtain cn where "fl_conns fl k = Some cn" "same_conn cn cn'" "0 < cn_epoch cn'" by blast
    with n show "\<exists>n. fl_epochs fl (cn_worker cn') = Some (n, None) \<and> cn_epoch cn' \<le> n"
      unfolding numbers_ok_def same_conn_def by metis
  next
    fix k l cn cn'
    assume a: "fl_conns fl' k = Some cn \<and> fl_conns fl' l = Some cn' \<and> cn_worker cn' = cn_worker cn
      \<and> cn_epoch cn' = cn_epoch cn \<and> 0 < cn_epoch cn"
    with old obtain c c' where "fl_conns fl k = Some c" "same_conn c cn" "fl_conns fl l = Some c'"
        "same_conn c' cn'" by blast
    with a n show "k = l" unfolding numbers_ok_def same_conn_def by metis
  qed (use n in \<open>auto simp: numbers_ok_def\<close>)
  moreover have "registry_ok fl'"
    unfolding registry_ok_def
  proof (intro allI impI)
    fix w ra x assume "fl_registry fl' w = Some (ra, x)"
    with reg r obtain k cn where "fl_conns fl k = Some cn" "cn_worker cn = w" "cn_epoch cn = rg_epoch ra"
        "0 < rg_epoch ra" unfolding registry_ok_def by meson
    with new show "\<exists>k cn. fl_conns fl' k = Some cn \<and> cn_worker cn = w \<and> cn_epoch cn = rg_epoch ra \<and> 0 < rg_epoch ra"
      unfolding same_conn_def by metis
  qed
  ultimately show ?thesis using conns held by (simp add: fleet_ok_def)
qed

lemma held_ok_frame:
  assumes "held_ok fl" and "fl_held fl' = fl_held fl"
    and "\<And>k cn. fl_conns fl k = Some cn \<Longrightarrow> cn_stage cn \<in> {Live, Serving} \<Longrightarrow>
      \<exists>cn'. fl_conns fl' k = Some cn' \<and> cn_worker cn' = cn_worker cn \<and> cn_host cn' = cn_host cn
        \<and> cn_stage cn' \<in> {Live, Serving}"
  shows "held_ok fl'"
  unfolding held_ok_def assms(2)
proof (intro allI conjI ballI)
  fix h show "distinct (map fst (fl_held fl h))" using assms(1) by (simp add: held_ok_def)
next
  fix h p assume p: "p \<in> set (fl_held fl h)"
  obtain w k where wk: "p = (w, k)" by fastforce
  then obtain cn where cn: "fl_conns fl k = Some cn" "cn_worker cn = w" "cn_host cn = h"
      "cn_stage cn \<in> {Live, Serving}"
    using held_okD [OF assms(1)] p by blast
  obtain cn' where "fl_conns fl' k = Some cn'" "cn_worker cn' = cn_worker cn" "cn_host cn' = cn_host cn"
      "cn_stage cn' \<in> {Live, Serving}"
    using assms(3) [OF cn(1,4)] by blast
  with cn wk show "case p of (w, k) \<Rightarrow> \<exists>cn. fl_conns fl' k = Some cn \<and> cn_worker cn = w
      \<and> cn_host cn = h \<and> cn_stage cn \<in> {Live, Serving}" by auto
qed

text \<open>One connection moves, its number and its references stay.\<close>

lemma fleet_ok_move:
  assumes ok: "fleet_ok fl" and k: "fl_conns fl k = Some cn" and id: "same_conn cn cn'"
    and c: "conn_ok cn'" and st: "cn_stage cn \<in> {Live, Serving} \<longrightarrow> cn_stage cn' \<in> {Live, Serving}"
    and fl': "fl_conns fl' = (fl_conns fl)(k \<mapsto> cn')" "fl_epochs fl' = fl_epochs fl" "fl_held fl' = fl_held fl"
    and reg: "\<And>w r x. fl_registry fl' w = Some (r, x) \<Longrightarrow> \<exists>x. fl_registry fl w = Some (r, x)"
  shows "fleet_ok fl'"
proof (rule fleet_ok_frame [OF ok])
  show "rel_option same_conn (fl_conns fl l) (fl_conns fl' l)" for l
    using k id by (cases "fl_conns fl l") (auto simp: fl'(1))
  show "conn_ok d" if "fl_conns fl' l = Some d" for l d
    using that ok c by (auto simp: fl'(1) fleet_ok_def split: if_splits)
  show "fl_epochs fl' = fl_epochs fl" by fact
  show "\<exists>x. fl_registry fl w = Some (r, x)" if "fl_registry fl' w = Some (r, x)" for w r x
    using reg [OF that] .
  show "held_ok fl'"
  proof (rule held_ok_frame)
    show "held_ok fl" using ok by (simp add: fleet_ok_def)
    show "\<exists>d'. fl_conns fl' l = Some d' \<and> cn_worker d' = cn_worker d \<and> cn_host d' = cn_host d
        \<and> cn_stage d' \<in> {Live, Serving}"
      if "fl_conns fl l = Some d" "cn_stage d \<in> {Live, Serving}" for l d
      using that k st id unfolding fl'(1) same_conn_def by (cases "l = k") auto
  qed fact
qed

lemma conn_okD: "fleet_ok fl \<Longrightarrow> fl_conns fl k = Some cn \<Longrightarrow> conn_ok cn"
  by (simp add: fleet_ok_def)

lemma registry_ok_frame:
  assumes "registry_ok fl"
    and "\<And>w r x. fl_registry fl' w = Some (r, x) \<Longrightarrow> \<exists>x. fl_registry fl w = Some (r, x)"
    and "\<And>k cn. fl_conns fl k = Some cn \<Longrightarrow> 0 < cn_epoch cn \<Longrightarrow>
      \<exists>cn'. fl_conns fl' k = Some cn' \<and> cn_worker cn' = cn_worker cn \<and> cn_epoch cn' = cn_epoch cn"
  shows "registry_ok fl'"
  unfolding registry_ok_def
proof (intro allI impI)
  fix w r x assume "fl_registry fl' w = Some (r, x)"
  with assms(2) obtain y where "fl_registry fl w = Some (r, y)" by blast
  from registry_okD [OF assms(1) this] obtain k cn where cn: "fl_conns fl k = Some cn" "cn_worker cn = w"
      "cn_epoch cn = rg_epoch r" "0 < rg_epoch r" by blast
  from assms(3) [OF cn(1)] cn show "\<exists>k cn. fl_conns fl' k = Some cn \<and> cn_worker cn = w
      \<and> cn_epoch cn = rg_epoch r \<and> 0 < rg_epoch r" by metis
qed

lemma fleet_ok_connect:
  assumes ok: "fleet_ok fl" and new: "fl_conns fl k = None"
  shows "fleet_ok (set_conn k (greeted host wc) fl)"
proof -
  let ?f = "set_conn k (greeted host wc) fl"
  have N: "numbers_ok fl" using ok by (simp add: fleet_ok_def)
  have other: "fl_conns fl l = Some d" if "fl_conns ?f l = Some d" "0 < cn_epoch d" for l d
    using that by (cases "l = k") (auto simp: greeted_def)
  have "numbers_ok ?f"
    unfolding numbers_ok_def
  proof (intro conjI allI impI)
    fix i j a b
    assume "fl_conns ?f i = Some a \<and> fl_conns ?f j = Some b \<and> cn_worker b = cn_worker a
      \<and> cn_epoch b = cn_epoch a \<and> 0 < cn_epoch a"
    then show "i = j" using numbers_okD(3) [OF N other other, of i a j b] by simp
  next
    fix l d assume "fl_conns ?f l = Some d \<and> 0 < cn_epoch d"
    then show "\<exists>n. fl_epochs ?f (cn_worker d) = Some (n, None) \<and> cn_epoch d \<le> n"
      using numbers_okD(2) [OF N other, of l d] by simp
  qed (use numbers_okD(1) [OF N] in auto)
  moreover have "registry_ok ?f"
    by (rule registry_ok_frame [of fl]) (use ok new in \<open>auto simp: fleet_ok_def\<close>)
  moreover have "held_ok ?f"
    by (rule held_ok_frame [of fl]) (use ok new in \<open>auto simp: fleet_ok_def\<close>)
  moreover have "conn_ok d" if "fl_conns ?f l = Some d" for l d
    using that conn_okD [OF ok, of l d] by (auto simp: greeted_def conn_ok_def split: if_splits)
  ultimately show ?thesis unfolding fleet_ok_def by blast
qed

lemma fleet_ok_number:
  assumes ok: "fleet_ok fl" and k: "fl_conns fl k = Some cn" "cn_stage cn = Greeted"
  shows "fleet_ok (number k cn now fl)"
proof -
  obtain n m where nm: "kv_incr now (cn_worker cn) (fl_epochs fl) = (n, m)" by fastforce
  have N: "numbers_ok fl" using ok by (simp add: fleet_ok_def)
  have inc: "m = (fl_epochs fl)(cn_worker cn \<mapsto> (n, None))" "0 < n"
    and below: "fl_epochs fl (cn_worker cn) = Some (v, x) \<Longrightarrow> v < n" for v x
    using nm numbers_okD(1) [OF N, of "cn_worker cn"]
    by (auto simp: kv_incr_def kv_get_def kv_set_def split: option.splits prod.splits)
  let ?c = "cn\<lparr>cn_stage := Numbered, cn_epoch := n\<rparr>"
  let ?f = "set_conn k ?c (fl\<lparr>fl_epochs := m\<rparr>)"
  have old: "cn_epoch d < n" if "fl_conns fl l = Some d" "cn_worker d = cn_worker cn" "0 < cn_epoch d" for l d
    using numbers_okD(2) [OF N that(1,3)] that(2) below by fastforce
  have zero: "cn_epoch cn = 0" using conn_okD [OF ok k(1)] k(2) by (simp add: conn_ok_def)
  have other: "fl_conns fl l = Some d" if "fl_conns ?f l = Some d" "l \<noteq> k" for l d
    using that by simp
  have "numbers_ok ?f"
    unfolding numbers_ok_def
  proof (intro conjI allI impI)
    fix w v x assume v: "fl_epochs ?f w = Some (v, x)"
    show "x = None" "0 < v" using v inc numbers_okD(1) [OF N, of w v x] by (auto split: if_splits)
  next
    fix l d assume d: "fl_conns ?f l = Some d \<and> 0 < cn_epoch d"
    show "\<exists>n. fl_epochs ?f (cn_worker d) = Some (n, None) \<and> cn_epoch d \<le> n"
    proof (cases "l = k")
      case False
      with d other have "fl_conns fl l = Some d" by blast
      with numbers_okD(2) [OF N this] old [OF this] d inc(1) show ?thesis by fastforce
    qed (use d inc in auto)
  next
    fix i j a b
    assume a: "fl_conns ?f i = Some a \<and> fl_conns ?f j = Some b \<and> cn_worker b = cn_worker a
      \<and> cn_epoch b = cn_epoch a \<and> 0 < cn_epoch a"
    consider "i = k" "j = k" | "i = k" "j \<noteq> k" | "i \<noteq> k" "j = k" | "i \<noteq> k" "j \<noteq> k" by blast
    then show "i = j"
    proof cases
      case 2 then show ?thesis using a old [OF other [of j b]] by auto
    next
      case 3 then show ?thesis using a old [OF other [of i a]] by auto
    next
      case 4 then show ?thesis using a numbers_okD(3) [OF N other other, of i a j b] by blast
    qed simp
  qed
  moreover have "registry_ok ?f"
    by (rule registry_ok_frame [of fl]) (use ok k zero in \<open>auto simp: fleet_ok_def\<close>)
  moreover have "held_ok ?f"
    by (rule held_ok_frame [of fl]) (use ok k in \<open>auto simp: fleet_ok_def\<close>)
  moreover have "conn_ok d" if "fl_conns ?f l = Some d" for l d
    using that conn_okD [OF ok, of l d] conn_okD [OF ok k(1)] k inc(2)
    by (cases "l = k") (auto simp: conn_ok_def)
  ultimately show ?thesis unfolding number_def nm fleet_ok_def by simp
qed

lemma tell_keeps [simp]:
  "cn_worker (tell w n cn) = cn_worker cn" "cn_host (tell w n cn) = cn_host cn"
  "cn_epoch (tell w n cn) = cn_epoch cn" "cn_stage (tell w n cn) = cn_stage cn"
  "cn_open (tell w n cn) = cn_open cn" "cn_listening (tell w n cn) = cn_listening cn"
  "cn_session (tell w n cn) = cn_session cn" "cn_evicting (tell w n cn) = cn_evicting cn"
  "cn_deaf (tell w n cn) = cn_deaf cn" "same_conn cn (tell w n cn)"
  by (simp_all add: tell_def same_conn_def)

lemma conn_ok_tell [simp]: "conn_ok (tell w n cn) = conn_ok cn"
  by (simp add: conn_ok_def)

lemma fleet_ok_announce:
  assumes ok: "fleet_ok fl" and k: "fl_conns fl k = Some cn" "cn_stage cn = Numbered"
  shows "fleet_ok (announce reach k cn fl)"
proof (rule fleet_ok_frame [OF ok])
  let ?t = "\<lambda>j c. if j = k then cn\<lparr>cn_stage := Announced\<rparr> else if reach j then tell (cn_worker cn) (cn_epoch cn) c else c"
  note c = conn_okD [OF ok k(1)]
  have conns: "fl_conns (announce reach k cn fl) j = map_option (?t j) (fl_conns fl j)" for j
    using k(1) by (cases "fl_conns fl j") (auto simp: announce_def)
  have same: "same_conn d (?t j d)" if "fl_conns fl j = Some d" for j d
    using that k(1) by (auto simp: same_conn_def)
  have okt: "conn_ok (?t j d)" if "fl_conns fl j = Some d" for j d
    using that k c conn_okD [OF ok that] by (auto simp: conn_ok_def [of "cn\<lparr>cn_stage := Announced\<rparr>"]) (auto simp: conn_ok_def)
  show "rel_option same_conn (fl_conns fl l) (fl_conns (announce reach k cn fl) l)" for l
    using same [of l] by (cases "fl_conns fl l") (simp_all add: conns)
  show "conn_ok d" if "fl_conns (announce reach k cn fl) l = Some d" for l d
    using that okt [of l] by (cases "fl_conns fl l") (simp_all add: conns)
  show "held_ok (announce reach k cn fl)"
  proof (rule held_ok_frame [of fl])
    show "held_ok fl" using ok by (simp add: fleet_ok_def)
    show "\<exists>d'. fl_conns (announce reach k cn fl) j = Some d' \<and> cn_worker d' = cn_worker d \<and> cn_host d' = cn_host d
        \<and> cn_stage d' \<in> {Live, Serving}" if "fl_conns fl j = Some d" "cn_stage d \<in> {Live, Serving}" for j d
      using that k by (auto simp: conns)
  qed (simp add: announce_def)
qed (simp_all add: announce_def)

lemma fleet_ok_enlist:
  assumes ok: "fleet_ok fl" and k: "fl_conns fl k = Some cn" "cn_stage cn = Announced"
  shows "fleet_ok (enlist ttl k cn now fl)"
proof -
  let ?c = "cn\<lparr>cn_stage := Listed\<rparr>"
  have c: "conn_ok ?c" "0 < cn_epoch cn" using conn_okD [OF ok k(1)] k(2) by (auto simp: conn_ok_def)
  have ok1: "fleet_ok (set_conn k ?c fl)"
    by (rule fleet_ok_move [OF ok k(1) _ c(1)]) (use k in \<open>auto simp: same_conn_def\<close>)
  have "registry_ok (enlist ttl k cn now fl)"
    unfolding registry_ok_def
  proof (intro allI impI)
    fix w r x assume e: "fl_registry (enlist ttl k cn now fl) w = Some (r, x)"
    show "\<exists>l d. fl_conns (enlist ttl k cn now fl) l = Some d \<and> cn_worker d = w \<and> cn_epoch d = rg_epoch r \<and> 0 < rg_epoch r"
    proof (cases "w = cn_worker cn")
      case True
      with e c(2) show ?thesis by (intro exI [of _ k]) (auto simp: enlist_def kv_set_def)
    next
      case False
      with e have "fl_registry (set_conn k ?c fl) w = Some (r, x)" by (simp add: enlist_def kv_set_def)
      moreover have "registry_ok (set_conn k ?c fl)" using ok1 by (simp add: fleet_ok_def)
      moreover have "fl_conns (enlist ttl k cn now fl) = fl_conns (set_conn k ?c fl)" by (simp add: enlist_def)
      ultimately show ?thesis using registry_okD [of "set_conn k ?c fl" w r x] by simp
    qed
  qed
  moreover have "fl_conns (enlist ttl k cn now fl) = fl_conns (set_conn k ?c fl)"
      "fl_epochs (enlist ttl k cn now fl) = fl_epochs (set_conn k ?c fl)"
      "fl_held (enlist ttl k cn now fl) = fl_held (set_conn k ?c fl)"
    by (simp_all add: enlist_def)
  ultimately show ?thesis
    using ok1 fleet_part_cong(1,3) [of "enlist ttl k cn now fl" "set_conn k ?c fl"] unfolding fleet_ok_def by metis
qed

text \<open>With distinct keys a reference is what the map of a process says.\<close>

lemma held_map:
  "held_ok fl \<Longrightarrow> (w, k) \<in> set (fl_held fl h) \<longleftrightarrow> map_of (fl_held fl h) w = Some k"
  by (simp add: held_ok_def)

lemma held_okI:
  assumes "\<And>h. distinct (map fst (fl_held fl h))"
    and "\<And>h w k. map_of (fl_held fl h) w = Some k \<Longrightarrow>
      \<exists>cn. fl_conns fl k = Some cn \<and> cn_worker cn = w \<and> cn_host cn = h \<and> cn_stage cn \<in> {Live, Serving}"
  shows "held_ok fl"
  unfolding held_ok_def
proof (intro allI conjI ballI)
  fix h p assume "p \<in> set (fl_held fl h)"
  then have "map_of (fl_held fl h) (fst p) = Some (snd p)" using assms(1) [of h] by simp
  from assms(2) [OF this] show "case p of (w, k) \<Rightarrow> \<exists>cn. fl_conns fl k = Some cn \<and> cn_worker cn = w
      \<and> cn_host cn = h \<and> cn_stage cn \<in> {Live, Serving}" by (simp add: split_beta)
qed (rule assms(1))

lemma fleet_ok_go_live:
  assumes ok: "fleet_ok fl" and k: "fl_conns fl k = Some cn" "cn_stage cn = Seeded"
  shows "fleet_ok (go_live k cn fl)"
proof -
  let ?c = "cn\<lparr>cn_stage := Live, cn_session := open_session (cn_worker cn) (cn_epoch cn) (wc_max (cn_welcome cn))
      (wc_types (cn_welcome cn)) (wc_residual (cn_welcome cn))\<rparr>"
  have c: "conn_ok ?c" using conn_okD [OF ok k(1)] k(2) by (auto simp: conn_ok_def open_session_def)
  have ok1: "fleet_ok (set_conn k ?c fl)"
    by (rule fleet_ok_move [OF ok k(1) _ c]) (use k in \<open>auto simp: same_conn_def\<close>)
  let ?f = "go_live k cn fl"
  have held: "fl_held ?f = (fl_held fl)(cn_host cn := AList.update (cn_worker cn) k (fl_held fl (cn_host cn)))"
    and conns: "fl_conns ?f = (fl_conns fl)(k \<mapsto> ?c)"
    by (simp_all add: go_live_def hold_def Let_def)
  have h: "held_ok (set_conn k ?c fl)" using ok1 by (simp add: fleet_ok_def)
  have "held_ok ?f"
  proof (rule held_okI)
    show "distinct (map fst (fl_held ?f host))" for host
      using h by (simp add: held_ok_def held distinct_update)
    show "\<exists>d. fl_conns ?f l = Some d \<and> cn_worker d = w \<and> cn_host d = host \<and> cn_stage d \<in> {Live, Serving}"
      if "map_of (fl_held ?f host) w = Some l" for host w l
    proof (cases "host = cn_host cn \<and> w = cn_worker cn")
      case True
      with that have "l = k" by (simp add: held update_conv')
      with True show ?thesis unfolding conns by simp
    next
      case False
      with that have "map_of (fl_held (set_conn k ?c fl) host) w = Some l"
        by (auto simp: held update_conv' split: if_splits)
      then have "(w, l) \<in> set (fl_held (set_conn k ?c fl) host)" using held_map [OF h] by simp
      from held_okD [OF h this] show ?thesis unfolding conns by simp
    qed
  qed
  moreover have "fl_conns ?f = fl_conns (set_conn k ?c fl)" "fl_epochs ?f = fl_epochs (set_conn k ?c fl)"
      "fl_registry ?f = fl_registry (set_conn k ?c fl)"
    by (simp_all add: go_live_def hold_def Let_def)
  ultimately show ?thesis
    using ok1 fleet_part_cong(1,2) [of ?f "set_conn k ?c fl"] unfolding fleet_ok_def by metis
qed

lemma unhold_sel [simp]:
  "fl_conns (unhold cn fl) = fl_conns fl" "fl_epochs (unhold cn fl) = fl_epochs fl"
  "fl_registry (unhold cn fl) = fl_registry fl" "fl_db (unhold cn fl) = fl_db fl"
  "fl_metrics (unhold cn fl) = fl_metrics fl"
  by (simp_all add: unhold_def split: option.splits)

text \<open>Letting go removes the own reference, and no other.\<close>

lemma unhold_exact:
  assumes ok: "fleet_ok fl" and k: "fl_conns fl k = Some cn" "cn_stage cn \<in> {Live, Serving}"
  shows "map_of (fl_held (unhold cn fl) h) w =
    (if map_of (fl_held fl h) w = Some k then None else map_of (fl_held fl h) w)"
    and "distinct (map fst (fl_held (unhold cn fl) h))"
proof -
  have H: "held_ok fl" and N: "numbers_ok fl" using ok by (simp_all add: fleet_ok_def)
  have c: "ls_epoch (cn_session cn) = cn_epoch cn" "0 < cn_epoch cn"
    using conn_okD [OF ok k(1)] k(2) by (auto simp: conn_ok_def)
  have mine: "w = cn_worker cn \<and> h = cn_host cn" if "map_of (fl_held fl h) w = Some k" for h w
    using held_okD [OF H] held_map [OF H] that k(1) by fastforce
  have only: "l = k" if "map_of (fl_held fl (cn_host cn)) (cn_worker cn) = Some l" "fl_conns fl l = Some d"
      "ls_epoch (cn_session d) = cn_epoch cn" for l d
  proof -
    have "cn_worker d = cn_worker cn" "cn_stage d \<in> {Live, Serving}"
      using held_okD [OF H] held_map [OF H] that(1,2) by fastforce+
    then have "cn_epoch d = cn_epoch cn" using conn_okD [OF ok that(2)] that(3) by (auto simp: conn_ok_def)
    with numbers_okD(3) [OF N k(1) that(2)] c(2) \<open>cn_worker d = cn_worker cn\<close> show ?thesis by simp
  qed
  show "map_of (fl_held (unhold cn fl) h) w =
    (if map_of (fl_held fl h) w = Some k then None else map_of (fl_held fl h) w)"
  proof (cases "map_of (fl_held fl h) w = Some k")
    case True
    with mine have "w = cn_worker cn" "h = cn_host cn" by blast+
    with True k(1) c(1) show ?thesis by (simp add: unhold_def delete_conv')
  next
    case False
    show ?thesis
    proof (cases "fl_held (unhold cn fl) = fl_held fl")
      case True
      with False show ?thesis by simp
    next
      case changed: False
      then obtain l d where l: "map_of (fl_held fl (cn_host cn)) (cn_worker cn) = Some l" "fl_conns fl l = Some d"
          "ls_epoch (cn_session d) = cn_epoch cn"
        by (auto simp: unhold_def split: option.splits if_splits)
      with only False have "\<not> (h = cn_host cn \<and> w = cn_worker cn)" by blast
      with False show ?thesis by (auto simp: unhold_def delete_conv' split: option.splits)
    qed
  qed
  show "distinct (map fst (fl_held (unhold cn fl) h))"
    using H by (auto simp: unhold_def held_ok_def distinct_delete split: option.splits)
qed

lemma fleet_ok_finish:
  assumes ok: "fleet_ok fl" and k: "fl_conns fl k = Some cn" "cn_stage cn \<in> {Live, Serving}"
  shows "fleet_ok (finish k cn fl)"
proof (rule fleet_ok_frame [OF ok])
  let ?c = "cn\<lparr>cn_stage := Closing, cn_open := False, cn_listening := False, cn_inbox := [], cn_evicting := False\<rparr>"
  have conns: "fl_conns (finish k cn fl) = (fl_conns fl)(k \<mapsto> ?c)" by (simp add: finish_def)
  have H: "held_ok fl" using ok by (simp add: fleet_ok_def)
  show "rel_option same_conn (fl_conns fl l) (fl_conns (finish k cn fl) l)" for l
    using k by (cases "fl_conns fl l") (auto simp: conns same_conn_def)
  show "conn_ok d" if "fl_conns (finish k cn fl) l = Some d" for l d
    using that conn_okD [OF ok, of l] conn_okD [OF ok k(1)] k(2)
    by (cases "l = k") (auto simp: conns conn_ok_def)
  show "held_ok (finish k cn fl)"
  proof (rule held_okI)
    show "distinct (map fst (fl_held (finish k cn fl) h))" for h
      using unhold_exact(2) [OF ok k] by (simp add: finish_def)
    show "\<exists>d. fl_conns (finish k cn fl) l = Some d \<and> cn_worker d = w \<and> cn_host d = h \<and> cn_stage d \<in> {Live, Serving}"
      if "map_of (fl_held (finish k cn fl) h) w = Some l" for h w l
    proof -
      have "map_of (fl_held fl h) w = Some l" "l \<noteq> k"
        using that unhold_exact(1) [OF ok k, of h w] by (auto simp: finish_def split: if_splits)
      then have "(w, l) \<in> set (fl_held fl h)" using held_map [OF H] by simp
      from held_okD [OF H this] \<open>l \<noteq> k\<close> show ?thesis unfolding conns by simp
    qed
  qed
qed (simp_all add: finish_def)

lemma on_frame_conn:
  assumes "on_frame cx ttl latency k cn text fl = (b, fl')" and "fl_conns fl k = Some cn"
  obtains s where "ledger_shrinks (cn_session cn) s" "fl_conns fl' = (fl_conns fl)(k \<mapsto> cn\<lparr>cn_session := s\<rparr>)"
    "fl_epochs fl' = fl_epochs fl" "fl_held fl' = fl_held fl"
    "\<forall>w r x. fl_registry fl' w = Some (r, x) \<longrightarrow> (\<exists>x. fl_registry fl w = Some (r, x))"
proof -
  have same: "cn\<lparr>cn_session := cn_session cn\<rparr> = cn" by simp
  have expire: "\<exists>x. m w = Some (r, x)" if "kv_expire now v t m w = Some (r, x)" for now v t w r x
      and m :: "(uuid, registration) kv"
    using that by (auto simp: kv_expire_def kv_get_def kv_set_def split: option.splits if_splits)
  note close = that
  have quiet: thesis if "fl_conns fl' = fl_conns fl" "fl_epochs fl' = fl_epochs fl" "fl_held fl' = fl_held fl"
      "\<And>w r x. fl_registry fl' w = Some (r, x) \<Longrightarrow> \<exists>x. fl_registry fl w = Some (r, x)"
    by (rule close [of "cn_session cn"]) (use that assms(2) same in \<open>auto simp: fun_eq_iff\<close>)
  show thesis
  proof (cases "\<exists>message. text = Json (PDict message)")
    case False
    then have "fl' = fl" using assms(1) by (auto simp: on_frame_def split: frame.splits pyval.splits)
    then show ?thesis by (intro quiet) auto
  next
    case True
    then obtain message where m: "text = Json (PDict message)" by blast
    show ?thesis
    proof (cases "dict_get message ''message_type'' \<in> {PStr ''pong'', PStr ''heartbeat''}")
      case True
      show ?thesis
        by (rule quiet) (use True assms(1) m expire in \<open>auto simp: on_frame_def on_pong_def on_heartbeat_def Let_def
          split: if_splits option.splits sum.splits\<close>)
    next
      case False
      obtain r h' where d: "dispatch cx message \<lparr>hb_session = cn_session cn, hb_db = fl_db fl,
          hb_bell = fl_bell fl (cn_host cn), hb_shown = fl_shown fl (cn_worker cn), hb_sent = []\<rparr> = (r, h')"
        by fastforce
      with assms(1) m False show ?thesis
        using dispatch_shrinks [of "\<lparr>hb_session = cn_session cn, hb_db = fl_db fl,
          hb_bell = fl_bell fl (cn_host cn), hb_shown = fl_shown fl (cn_worker cn), hb_sent = []\<rparr>" cx message]
        by (intro close [of "hb_session h'"]) (auto simp: on_frame_def on_task_message_def Let_def)
    qed
  qed
qed

lemma at_do_Some: "at_do fl k sts f = Some fl' \<longleftrightarrow>
    (\<exists>cn. fl_conns fl k = Some cn \<and> cn_stage cn \<in> sts \<and> f cn = Some fl')"
  by (auto simp: at_do_def at_stage_def split: option.splits)

text \<open>The steps that move one connection along and leave the rest of the bookkeeping alone.\<close>

definition quiet_move :: "nat \<Rightarrow> connection \<Rightarrow> fleet \<Rightarrow> fleet \<Rightarrow> bool" where
  "quiet_move k cn fl fl' \<longleftrightarrow> (\<exists>cn'. same_conn cn cn' \<and> conn_ok cn'
     \<and> (cn_stage cn \<in> {Live, Serving} \<longrightarrow> cn_stage cn' \<in> {Live, Serving})
     \<and> fl_conns fl' = (fl_conns fl)(k \<mapsto> cn') \<and> fl_epochs fl' = fl_epochs fl \<and> fl_held fl' = fl_held fl
     \<and> (\<forall>w r x. fl_registry fl' w = Some (r, x) \<longrightarrow> (\<exists>x. fl_registry fl w = Some (r, x))))"

lemma fleet_ok_quiet: "fleet_ok fl \<Longrightarrow> fl_conns fl k = Some cn \<Longrightarrow> quiet_move k cn fl fl' \<Longrightarrow> fleet_ok fl'"
  unfolding quiet_move_def by (elim exE conjE, rule fleet_ok_move) auto

lemma quiet_moves:
  assumes c: "conn_ok cn"
  shows "cn_stage cn = Listed \<Longrightarrow> quiet_move k cn fl (go_online k cn now fl)"
    and "cn_stage cn = Online \<Longrightarrow> quiet_move k cn fl (seed cf k cn now fl)"
    and "cn_stage cn = Live \<Longrightarrow> quiet_move k cn fl (renew_on_hello cf up k cn now fl)"
    and "cn_stage cn \<in> {Live, Serving} \<Longrightarrow> quiet_move k cn fl (listen k cn fl)"
    and "cn_inbox cn \<noteq> [] \<Longrightarrow> cn_stage cn \<in> {Live, Serving} \<Longrightarrow> quiet_move k cn fl (hear k cn fl)"
    and "quiet_move k cn fl (evict k cn fl)"
    and "quiet_move k cn fl (deafen k cn fl)"
    and "quiet_move k cn fl (set_conn k (cn\<lparr>cn_open := False\<rparr>) fl)"
    and "cn_stage cn \<notin> {Live, Serving} \<Longrightarrow>
      quiet_move k cn fl (set_conn k (cn\<lparr>cn_stage := Gone, cn_open := False\<rparr>) fl)"
    and "cn_stage cn = Closing \<Longrightarrow> quiet_move k cn fl (check_registry k cn now fl)"
    and "cn_stage cn = Guarded \<Longrightarrow> quiet_move k cn fl (clear_registry k cn fl)"
    and "cn_stage cn = Cleared \<Longrightarrow> quiet_move k cn fl (retire cf up k cn now fl)"
proof -
  have move: "quiet_move k cn fl fl'" if "conn_ok cn'" "same_conn cn cn'" "fl_conns fl' = (fl_conns fl)(k \<mapsto> cn')"
      "cn_stage cn \<in> {Live, Serving} \<longrightarrow> cn_stage cn' \<in> {Live, Serving}"
      "fl_epochs fl' = fl_epochs fl" "fl_held fl' = fl_held fl"
      "\<forall>w r x. fl_registry fl' w = Some (r, x) \<longrightarrow> (\<exists>x. fl_registry fl w = Some (r, x))" for cn' fl'
    using that unfolding quiet_move_def by (intro exI [of _ cn']) blast
  note defs = same_conn_def conn_ok_def go_online_def seed_def renew_on_hello_def listen_def hear_def
    evict_def deafen_def check_registry_def clear_registry_def retire_def kv_delete_def Let_def
  show "quiet_move k cn fl (go_online k cn now fl)" if "cn_stage cn = Listed"
    by (rule move [of "cn\<lparr>cn_stage := Online\<rparr>"]) (use c that in \<open>auto simp: defs\<close>)
  show "quiet_move k cn fl (seed cf k cn now fl)" if "cn_stage cn = Online"
    by (rule move [of "cn\<lparr>cn_stage := Seeded\<rparr>"]) (use c that in \<open>auto simp: defs\<close>)
  show "quiet_move k cn fl (renew_on_hello cf up k cn now fl)" if "cn_stage cn = Live"
  proof -
    define cn' where "cn' = the (fl_conns (renew_on_hello cf up k cn now fl) k)"
    show ?thesis
      by (rule move [of cn']) (use c that in \<open>auto simp: defs cn'_def split: prod.splits\<close>)
  qed
  show "quiet_move k cn fl (listen k cn fl)" if "cn_stage cn \<in> {Live, Serving}"
    by (rule move [of "cn\<lparr>cn_listening := True\<rparr>"]) (use c that in \<open>auto simp: defs\<close>)
  show "quiet_move k cn fl (hear k cn fl)" if "cn_inbox cn \<noteq> []" and live: "cn_stage cn \<in> {Live, Serving}"
  proof -
    obtain n ns where i: "cn_inbox cn = n # ns" using \<open>cn_inbox cn \<noteq> []\<close> by (cases "cn_inbox cn") auto
    show ?thesis
    proof (cases "n \<le> cn_epoch cn")
      case True
      show ?thesis by (rule move [of "cn\<lparr>cn_inbox := ns\<rparr>"]) (use c i True in \<open>auto simp: defs\<close>)
    next
      case False
      show ?thesis
        by (rule move [of "cn\<lparr>cn_inbox := [], cn_listening := False, cn_evicting := True\<rparr>"])
          (use c i live False in \<open>auto simp: defs\<close>)
    qed
  qed
  show "quiet_move k cn fl (evict k cn fl)"
    by (rule move [of "cn\<lparr>cn_open := False, cn_evicting := False\<rparr>"]) (use c in \<open>auto simp: defs\<close>)
  show "quiet_move k cn fl (deafen k cn fl)"
    by (rule move [of "cn\<lparr>cn_listening := False, cn_inbox := [], cn_deaf := True\<rparr>"]) (use c in \<open>auto simp: defs\<close>)
  show "quiet_move k cn fl (set_conn k (cn\<lparr>cn_open := False\<rparr>) fl)"
    by (rule move [of "cn\<lparr>cn_open := False\<rparr>"]) (use c in \<open>auto simp: defs\<close>)
  show "quiet_move k cn fl (set_conn k (cn\<lparr>cn_stage := Gone, cn_open := False\<rparr>) fl)"
    if "cn_stage cn \<notin> {Live, Serving}"
    by (rule move [of "cn\<lparr>cn_stage := Gone, cn_open := False\<rparr>"]) (use c that in \<open>auto simp: defs\<close>)
  show "quiet_move k cn fl (check_registry k cn now fl)" if "cn_stage cn = Closing"
  proof -
    define st where "st = (case kv_get now (fl_registry fl) (cn_worker cn) of
        Some r \<Rightarrow> if rg_epoch r = cn_epoch cn then Guarded else Gone | None \<Rightarrow> Gone)"
    have e: "check_registry k cn now fl = set_conn k (cn\<lparr>cn_stage := st\<rparr>) fl" and "st \<in> {Guarded, Gone}"
      by (auto simp: check_registry_def st_def split: option.splits)
    show ?thesis unfolding e
      by (rule move [of "cn\<lparr>cn_stage := st\<rparr>"]) (use c that \<open>st \<in> {Guarded, Gone}\<close> in \<open>auto simp: same_conn_def conn_ok_def\<close>)
  qed
  show "quiet_move k cn fl (clear_registry k cn fl)" if "cn_stage cn = Guarded"
    by (rule move [of "cn\<lparr>cn_stage := Cleared\<rparr>"]) (use c that in \<open>auto simp: defs split: if_splits\<close>)
  show "quiet_move k cn fl (retire cf up k cn now fl)" if "cn_stage cn = Cleared"
    by (rule move [of "cn\<lparr>cn_stage := Gone\<rparr>"]) (use c that in \<open>auto simp: defs\<close>)
qed

lemma fleet_ok_same:
  "fleet_ok fl \<Longrightarrow> fl_conns g = fl_conns fl \<Longrightarrow> fl_epochs g = fl_epochs fl \<Longrightarrow> fl_registry g = fl_registry fl \<Longrightarrow>
   fl_held g = fl_held fl \<Longrightarrow> fleet_ok g"
  unfolding fleet_ok_def using fleet_part_cong [of g fl] by simp

lemma fleet_ok_receive:
  assumes ok: "fleet_ok fl" and k: "fl_conns fl k = Some cn" "cn_stage cn = Serving"
    and f: "on_frame cx ttl latency k cn frm fl = (b, fl1)"
  shows "fleet_ok fl1" and "fl_conns fl1 k = Some cn' \<Longrightarrow> cn_stage cn' = Serving"
proof -
  obtain s where s: "ledger_shrinks (cn_session cn) s" "fl_conns fl1 = (fl_conns fl)(k \<mapsto> cn\<lparr>cn_session := s\<rparr>)"
    "fl_epochs fl1 = fl_epochs fl" "fl_held fl1 = fl_held fl"
    "\<forall>w r x. fl_registry fl1 w = Some (r, x) \<longrightarrow> (\<exists>x. fl_registry fl w = Some (r, x))"
    using on_frame_conn [OF f k(1)] by blast
  have "conn_ok (cn\<lparr>cn_session := s\<rparr>)"
    using conn_okD [OF ok k(1)] s(1) by (auto simp: conn_ok_def ledger_shrinks_def)
  then show "fleet_ok fl1"
    by (intro fleet_ok_move [OF ok k(1) _ _ _ s(2,3,4)]) (use k(2) s(5) in \<open>auto simp: same_conn_def\<close>)
  show "fl_conns fl1 k = Some cn' \<Longrightarrow> cn_stage cn' = Serving" using s(2) k(2) by auto
qed

lemma fleet_ok_step:
  assumes ok: "fleet_ok fl" and a: "fleet_do a fl = Some fl'"
  shows "fleet_ok fl'"
proof -
  note c = conn_okD [OF ok]
  note q = fleet_ok_quiet [OF ok _ quiet_moves(1)] fleet_ok_quiet [OF ok _ quiet_moves(2)]
    fleet_ok_quiet [OF ok _ quiet_moves(3)] fleet_ok_quiet [OF ok _ quiet_moves(4)]
    fleet_ok_quiet [OF ok _ quiet_moves(5)] fleet_ok_quiet [OF ok _ quiet_moves(6)]
    fleet_ok_quiet [OF ok _ quiet_moves(7)] fleet_ok_quiet [OF ok _ quiet_moves(8)]
    fleet_ok_quiet [OF ok _ quiet_moves(9)] fleet_ok_quiet [OF ok _ quiet_moves(10)]
    fleet_ok_quiet [OF ok _ quiet_moves(11)] fleet_ok_quiet [OF ok _ quiet_moves(12)]
  show ?thesis
  proof (cases a)
    case (Connect k host wc)
    then show ?thesis using a fleet_ok_connect [OF ok] by (auto split: if_splits)
  next
    case (Number k now)
    then show ?thesis using a fleet_ok_number [OF ok] by (auto simp: at_do_Some)
  next
    case (Announce k reach)
    then show ?thesis using a fleet_ok_announce [OF ok] by (auto simp: at_do_Some)
  next
    case (Enlist k ttl now)
    then show ?thesis using a fleet_ok_enlist [OF ok] by (auto simp: at_do_Some)
  next
    case (GoOnline k now)
    then show ?thesis using a q(1) c by (auto simp: at_do_Some)
  next
    case (Seed k cf now)
    then show ?thesis using a q(2) c by (auto simp: at_do_Some)
  next
    case (GoLive k)
    then show ?thesis using a fleet_ok_go_live [OF ok] by (auto simp: at_do_Some)
  next
    case (Renew k cf up now)
    then show ?thesis using a q(3) c by (auto simp: at_do_Some)
  next
    case (Listen k)
    then show ?thesis using a q(4) c by (auto simp: at_do_Some split: if_splits)
  next
    case (Hear k)
    then obtain cn where cn: "fl_conns fl k = Some cn" "fl' = hear k cn fl" "cn_stage cn \<in> {Live, Serving}"
      using a by (auto simp: at_do_Some split: if_splits)
    show ?thesis
    proof (cases "cn_inbox cn")
      case Nil
      then show ?thesis using ok cn(2) by (simp add: hear_def)
    next
      case (Cons n ns)
      then show ?thesis using q(5) [OF cn(1) c [OF cn(1)] _ cn(3)] cn(2) by simp
    qed
  next
    case (Evict k)
    then show ?thesis using a q(6) c by (auto simp: at_do_Some split: if_splits)
  next
    case (Deafen k)
    then show ?thesis using a q(7) c by (auto simp: at_do_Some split: if_splits)
  next
    case (Drop k)
    then show ?thesis using a q(8) c by (auto simp: at_do_Some)
  next
    case (Fail k)
    then show ?thesis using a q(9) c by (auto simp: at_do_Some)
  next
    case (Receive k cx ttl latency frm)
    then obtain cn b fl1 where cn: "fl_conns fl k = Some cn" "cn_stage cn = Serving"
        "on_frame cx ttl latency k cn frm fl = (b, fl1)"
        "fl' = (if b then fl1 else finish k (the (fl_conns fl1 k)) fl1) \<and> (b \<or> fl_conns fl1 k \<noteq> None)"
      using a by (auto simp: at_do_Some Let_def split: if_splits prod.splits option.splits)
    note r = fleet_ok_receive [OF ok cn(1,2,3)]
    show ?thesis using r cn(4) fleet_ok_finish [OF r(1)] by (cases b) auto
  next
    case (Finish k)
    then show ?thesis using a fleet_ok_finish [OF ok] by (auto simp: at_do_Some)
  next
    case (CheckRegistry k now)
    then show ?thesis using a q(10) c by (auto simp: at_do_Some)
  next
    case (ClearRegistry k)
    then show ?thesis using a q(11) c by (auto simp: at_do_Some)
  next
    case (Retire k cf up now)
    then show ?thesis using a q(12) c by (auto simp: at_do_Some)
  next
    case (Elsewhere d m)
    then show ?thesis using a ok by (auto intro: fleet_ok_same)
  qed
qed

lemma fleet_run_append:
  "fleet_run (as @ bs) fl = (case fleet_run as fl of None \<Rightarrow> None | Some fl' \<Rightarrow> fleet_run bs fl')"
  by (induction "as" arbitrary: fl) (auto split: option.splits)

lemma fleet_ok_run: "fleet_run as fl = Some fl' \<Longrightarrow> fleet_ok fl \<Longrightarrow> fleet_ok fl'"
  by (induction "as" arbitrary: fl) (auto split: option.splits dest: fleet_ok_step)

text \<open>
  C29: Whatever the interleaving, no two handshakes of a worker get the same epoch, the
  registry only ever names the epoch of a connection of that worker, and a process holds
  at most one session per worker, of a live connection of its own whose session carries
  the epoch and the identity of that connection.
\<close>

theorem epochs_and_references:
  assumes "fleet_run as (fleet_start d) = Some fl"
  shows "(\<forall>k l cn cn'. fl_conns fl k = Some cn \<and> fl_conns fl l = Some cn' \<and> cn_worker cn = cn_worker cn'
       \<and> 0 < cn_epoch cn \<and> cn_epoch cn = cn_epoch cn' \<longrightarrow> k = l)
    \<and> (\<forall>w now r. kv_get now (fl_registry fl) w = Some r \<longrightarrow>
         (\<exists>k cn. fl_conns fl k = Some cn \<and> cn_worker cn = w \<and> cn_epoch cn = rg_epoch r))
    \<and> (\<forall>h w k. (w, k) \<in> set (fl_held fl h) \<longrightarrow> map_of (fl_held fl h) w = Some k \<and>
         (\<exists>cn. fl_conns fl k = Some cn \<and> cn_host cn = h \<and> cn_stage cn \<in> {Live, Serving} \<and> cn_worker cn = w
            \<and> ls_worker (cn_session cn) = w \<and> ls_epoch (cn_session cn) = cn_epoch cn))"
proof -
  have ok: "fleet_ok fl" using fleet_ok_run [OF assms fleet_ok_start] .
  then have N: "numbers_ok fl" and R: "registry_ok fl" and H: "held_ok fl" by (simp_all add: fleet_ok_def)
  have "k = l" if "fl_conns fl k = Some cn" "fl_conns fl l = Some cn'" "cn_worker cn = cn_worker cn'"
      "0 < cn_epoch cn" "cn_epoch cn = cn_epoch cn'" for k l cn cn'
    by (rule numbers_okD(3) [OF N that(1,2) that(3) [symmetric] that(5) [symmetric] that(4)])
  moreover have "\<exists>k cn. fl_conns fl k = Some cn \<and> cn_worker cn = w \<and> cn_epoch cn = rg_epoch r"
    if "kv_get now (fl_registry fl) w = Some r" for w now r
  proof -
    obtain x where "fl_registry fl w = Some (r, x)"
      using \<open>kv_get now (fl_registry fl) w = Some r\<close> by (auto simp: kv_get_def split: option.splits if_splits)
    from registry_okD [OF R this] show ?thesis by blast
  qed
  moreover have "map_of (fl_held fl h) w = Some k \<and> (\<exists>cn. fl_conns fl k = Some cn \<and> cn_host cn = h
      \<and> cn_stage cn \<in> {Live, Serving} \<and> cn_worker cn = w \<and> ls_worker (cn_session cn) = w
      \<and> ls_epoch (cn_session cn) = cn_epoch cn)" if m: "(w, k) \<in> set (fl_held fl h)" for h w k
  proof -
    obtain cn where "fl_conns fl k = Some cn" "cn_worker cn = w" "cn_host cn = h" "cn_stage cn \<in> {Live, Serving}"
      using held_okD [OF H m] by blast
    with conn_okD [OF ok this(1)] held_map [OF H] m show ?thesis by (auto simp: conn_ok_def)
  qed
  ultimately show ?thesis by blast
qed

subsection \<open>A listening session learns of every later handshake\<close>

text \<open>What one step can do to a connection.\<close>

definition keeps_ear :: "connection \<Rightarrow> connection \<Rightarrow> bool" where
  "keeps_ear cn cn' \<longleftrightarrow> cn_worker cn' = cn_worker cn
    \<and> (cn_stage cn \<noteq> Greeted \<longrightarrow> cn_stage cn' \<noteq> Greeted \<and> cn_epoch cn' = cn_epoch cn)
    \<and> (cn_open cn' \<and> \<not> cn_deaf cn' \<longrightarrow> cn_open cn \<and> \<not> cn_deaf cn
         \<and> (cn_evicting cn \<longrightarrow> cn_evicting cn') \<and> (cn_listening cn \<longrightarrow> cn_listening cn' \<or> cn_evicting cn')
         \<and> (\<forall>n \<in> set (cn_inbox cn). cn_epoch cn < n \<longrightarrow> n \<in> set (cn_inbox cn') \<or> cn_evicting cn'))"

lemma keeps_ear_refl [simp]: "keeps_ear cn cn"
  by (simp add: keeps_ear_def)

lemma keeps_ear_tell [simp]: "keeps_ear cn (tell w n cn)"
  by (auto simp: keeps_ear_def tell_def)

definition under_way :: "connection \<Rightarrow> bool" where
  "under_way cn \<longleftrightarrow> cn_stage cn \<notin> {Greeted, Numbered, Gone}"

definition ear_move :: "nat \<Rightarrow> connection \<Rightarrow> fleet \<Rightarrow> fleet \<Rightarrow> bool" where
  "ear_move k cn fl fl' \<longleftrightarrow> (let cn' = the (fl_conns fl' k) in
     fl_conns fl' = (fl_conns fl)(k \<mapsto> cn') \<and> keeps_ear cn cn' \<and> (under_way cn' \<longrightarrow> under_way cn))"

lemmas ear_defs = ear_move_def keeps_ear_def under_way_def Let_def

lemma ear_moves:
  assumes k: "fl_conns fl k = Some cn"
  shows "cn_stage cn = Greeted \<Longrightarrow> ear_move k cn fl (number k cn now fl)"
    and "cn_stage cn = Announced \<Longrightarrow> ear_move k cn fl (enlist ttl k cn now fl)"
    and "cn_stage cn = Listed \<Longrightarrow> ear_move k cn fl (go_online k cn now fl)"
    and "cn_stage cn = Online \<Longrightarrow> ear_move k cn fl (seed cf k cn now fl)"
    and "cn_stage cn = Seeded \<Longrightarrow> ear_move k cn fl (go_live k cn fl)"
    and "cn_stage cn = Live \<Longrightarrow> ear_move k cn fl (renew_on_hello cf up k cn now fl)"
    and "cn_stage cn \<in> {Live, Serving} \<Longrightarrow> ear_move k cn fl (listen k cn fl)"
    and "cn_stage cn \<in> {Live, Serving} \<Longrightarrow> ear_move k cn fl (hear k cn fl)"
    and "ear_move k cn fl (evict k cn fl)"
    and "ear_move k cn fl (deafen k cn fl)"
    and "ear_move k cn fl (set_conn k (cn\<lparr>cn_open := False\<rparr>) fl)"
    and "ear_move k cn fl (set_conn k (cn\<lparr>cn_stage := Gone, cn_open := False\<rparr>) fl)"
    and "cn_stage cn = Serving \<Longrightarrow> ear_move k cn fl (finish k cn fl)"
    and "cn_stage cn = Closing \<Longrightarrow> ear_move k cn fl (check_registry k cn now fl)"
    and "cn_stage cn = Guarded \<Longrightarrow> ear_move k cn fl (clear_registry k cn fl)"
    and "cn_stage cn = Cleared \<Longrightarrow> ear_move k cn fl (retire cf up k cn now fl)"
proof -
  show "cn_stage cn = Live \<Longrightarrow> ear_move k cn fl (renew_on_hello cf up k cn now fl)"
    by (cases "renew_worker_leases cf (cn_worker cn) now (fl_db fl)")
      (simp add: ear_defs renew_on_hello_def)
  show "cn_stage cn \<in> {Live, Serving} \<Longrightarrow> ear_move k cn fl (hear k cn fl)"
    using k by (cases "cn_inbox cn") (auto simp: ear_defs hear_def fun_eq_iff)
  show "cn_stage cn = Closing \<Longrightarrow> ear_move k cn fl (check_registry k cn now fl)"
    by (cases "kv_get now (fl_registry fl) (cn_worker cn)") (simp_all add: ear_defs check_registry_def)
qed (auto simp: ear_defs number_def enlist_def go_online_def seed_def go_live_def hold_def listen_def finish_def
    evict_def deafen_def clear_registry_def retire_def split: prod.splits)

lemma ear_receive:
  assumes k: "fl_conns fl k = Some cn" "cn_stage cn = Serving"
    and f: "on_frame cx ttl latency k cn frm fl = (b, fl1)"
  shows "ear_move k cn fl fl1 \<and> ear_move k cn fl (finish k (the (fl_conns fl1 k)) fl1)"
proof -
  obtain s where s: "fl_conns fl1 = (fl_conns fl)(k \<mapsto> cn\<lparr>cn_session := s\<rparr>)"
    by (rule on_frame_conn [OF f k(1)])
  with k(2) show ?thesis by (simp add: ear_defs finish_def)
qed

text \<open>A step other than a handshake's first or an announcement moves one connection.\<close>

lemma step_shape:
  assumes "fleet_do a fl = Some fl'" and "\<forall>k reach. a \<noteq> Announce k reach"
  obtains "fl_conns fl' = fl_conns fl"
  | k host wc where "fl_conns fl k = None" "fl_conns fl' = (fl_conns fl)(k \<mapsto> greeted host wc)"
  | k cn where "fl_conns fl k = Some cn" "ear_move k cn fl fl'"
proof -
  note close = that
  show thesis
  proof (cases a)
    case (Connect k host wc)
    then show ?thesis using assms close(2) [of k host wc] by (auto split: if_splits)
  next
    case (Receive k cx ttl latency frm)
    then obtain cn b fl1 where cn: "fl_conns fl k = Some cn" "cn_stage cn = Serving"
        "on_frame cx ttl latency k cn frm fl = (b, fl1)"
        "fl' = (if b then fl1 else finish k (the (fl_conns fl1 k)) fl1)"
      using assms(1) by (auto simp: at_do_Some Let_def split: if_splits prod.splits option.splits)
    then have "ear_move k cn fl fl'" using ear_receive [OF cn(1,2,3)] by simp
    with cn(1) show ?thesis by (rule close(3))
  next
    case (Elsewhere d m)
    then show ?thesis using assms close(1) by auto
  qed (use assms close(3) ear_moves in \<open>fastforce simp: at_do_Some split: if_splits\<close>)+
qed

text \<open>
  A connection is warned when it is closed or deaf, on its way to close, has a newer epoch
  waiting in its inbox, or still listens while the other handshake has not announced one.
\<close>

definition unannounced :: "uuid \<Rightarrow> int \<Rightarrow> connection option \<Rightarrow> bool" where
  "unannounced w e other \<longleftrightarrow> (case other of None \<Rightarrow> True | Some d \<Rightarrow>
     cn_worker d \<noteq> w \<or> \<not> under_way d \<or> cn_epoch d \<le> e)"

definition warned :: "connection option \<Rightarrow> connection \<Rightarrow> bool" where
  "warned other cn \<longleftrightarrow> cn_stage cn \<noteq> Greeted \<and> (cn_open cn \<and> \<not> cn_deaf cn \<longrightarrow> cn_evicting cn \<or> cn_listening cn \<and>
     ((\<exists>n \<in> set (cn_inbox cn). cn_epoch cn < n) \<or> unannounced (cn_worker cn) (cn_epoch cn) other))"

lemma warned_ear:
  assumes "warned other cn" and "keeps_ear cn cn'"
    and "unannounced (cn_worker cn) (cn_epoch cn) other \<Longrightarrow> unannounced (cn_worker cn) (cn_epoch cn) other'"
  shows "warned other' cn'"
  using assms unfolding warned_def keeps_ear_def by auto

lemma unannounced_ear:
  assumes "unannounced w e (Some d)" and "keeps_ear d d'" and "under_way d' \<longrightarrow> under_way d"
  shows "unannounced w e (Some d')"
  using assms by (auto simp: unannounced_def keeps_ear_def under_way_def)

lemma warned_step:
  assumes a: "fleet_do a fl = Some fl'" and k: "fl_conns fl k = Some cn" and w: "warned (fl_conns fl l) cn"
    and l: "l \<noteq> k" and heard: "\<forall>reach. a = Announce l reach \<longrightarrow> reach k"
  shows "\<exists>cn'. fl_conns fl' k = Some cn' \<and> cn_worker cn' = cn_worker cn \<and> cn_epoch cn' = cn_epoch cn
    \<and> warned (fl_conns fl' l) cn'"
proof -
  have same: "cn_worker cn' = cn_worker cn \<and> cn_epoch cn' = cn_epoch cn" if "keeps_ear cn cn'" for cn'
    using that w by (auto simp: keeps_ear_def warned_def)
  show ?thesis
  proof (cases "\<exists>j reach. a = Announce j reach")
    case True
    then obtain j reach d where j: "fl_conns fl j = Some d" "cn_stage d = Numbered" "fl' = announce reach j d fl"
        and r: "j = l \<longrightarrow> reach k"
      using a heard by (auto simp: at_do_Some)
    show ?thesis
    proof (cases "j = k")
      case True
      have "keeps_ear cn (cn\<lparr>cn_stage := Announced\<rparr>)" by (simp add: keeps_ear_def)
      moreover have "unannounced (cn_worker cn) (cn_epoch cn) (fl_conns fl l) \<Longrightarrow>
          unannounced (cn_worker cn) (cn_epoch cn) (fl_conns fl' l)"
        using True l j(3) by (cases "fl_conns fl l") (auto simp: announce_def unannounced_def under_way_def)
      ultimately have "warned (fl_conns fl' l) (cn\<lparr>cn_stage := Announced\<rparr>)" by (rule warned_ear [OF w])
      then show ?thesis using True j k by (simp add: announce_def)
    next
      case False
      let ?cn' = "if reach k then tell (cn_worker d) (cn_epoch d) cn else cn"
      have ear: "keeps_ear cn ?cn'" by simp
      have k': "fl_conns fl' k = Some ?cn'" using False j(3) k by (simp add: announce_def)
      have "warned (fl_conns fl' l) ?cn'"
      proof (cases "j = l \<and> cn_worker d = cn_worker cn \<and> cn_epoch cn < cn_epoch d")
        case True
        then show ?thesis using w r by (auto simp: warned_def tell_def)
      next
        case out: False
        have "unannounced (cn_worker cn) (cn_epoch cn) (fl_conns fl l) \<Longrightarrow>
            unannounced (cn_worker cn) (cn_epoch cn) (fl_conns fl' l)"
          using out j by (cases "j = l"; cases "fl_conns fl l")
            (auto simp: announce_def unannounced_def under_way_def)
        then show ?thesis by (rule warned_ear [OF w ear])
      qed
      with k' show ?thesis by (auto simp: tell_def)
    qed
  next
    case False
    then have "\<forall>k reach. a \<noteq> Announce k reach" by blast
    with a show ?thesis
    proof (cases rule: step_shape)
      case 1
      then show ?thesis using k w by simp
    next
      case (2 j host wc)
      have "unannounced (cn_worker cn) (cn_epoch cn) (fl_conns fl l) \<Longrightarrow>
          unannounced (cn_worker cn) (cn_epoch cn) (fl_conns fl' l)"
        using 2 by (auto simp: unannounced_def under_way_def greeted_def)
      from warned_ear [OF w keeps_ear_refl this] show ?thesis using 2 k by auto
    next
      case (3 j d)
      obtain d' where d': "fl_conns fl' = (fl_conns fl)(j \<mapsto> d')" "keeps_ear d d'" "under_way d' \<longrightarrow> under_way d"
        using 3(2) by (auto simp: ear_move_def Let_def)
      show ?thesis
      proof (cases "j = k")
        case True
        then have e: "keeps_ear cn d'" and f: "fl_conns fl' l = fl_conns fl l" using d' 3(1) k l by auto
        have "warned (fl_conns fl' l) d'" by (rule warned_ear [OF w e]) (simp add: f)
        then show ?thesis using d'(1) True same [OF e] by simp
      next
        case False
        have "unannounced (cn_worker cn) (cn_epoch cn) (fl_conns fl l) \<Longrightarrow>
            unannounced (cn_worker cn) (cn_epoch cn) (fl_conns fl' l)"
          using unannounced_ear [OF _ d'(2,3)] 3(1) by (cases "j = l") (auto simp: d'(1))
        from warned_ear [OF w keeps_ear_refl this] show ?thesis using False d'(1) k by auto
      qed
    qed
  qed
qed

lemma warned_run:
  assumes "fleet_run as fl = Some fl'" "fl_conns fl k = Some cn" "warned (fl_conns fl l) cn" "l \<noteq> k"
    "\<forall>reach. Announce l reach \<in> set as \<longrightarrow> reach k"
  shows "\<exists>cn'. fl_conns fl' k = Some cn' \<and> cn_worker cn' = cn_worker cn \<and> cn_epoch cn' = cn_epoch cn
    \<and> warned (fl_conns fl' l) cn'"
  using assms
proof (induction "as" arbitrary: fl cn)
  case (Cons a "as")
  obtain g where g: "fleet_do a fl = Some g" "fleet_run as g = Some fl'"
    using Cons.prems(1) by (auto split: option.splits)
  obtain cm where "fl_conns g k = Some cm" "cn_worker cm = cn_worker cn" "cn_epoch cm = cn_epoch cn"
      "warned (fl_conns g l) cm"
    using warned_step [OF g(1) Cons.prems(2-4)] Cons.prems(5) by auto
  with Cons.IH [OF g(2)] Cons.prems(4,5) show ?case by (metis list.set_intros(2))
qed auto

text \<open>Hearing the inbox up to a newer epoch leads to the close.\<close>

lemma hearing_evicts:
  assumes "fl_conns fl k = Some cn" "cn_listening cn" "cn_stage cn \<in> {Live, Serving}"
    and "\<exists>n \<in> set (cn_inbox cn). cn_epoch cn < n"
  shows "\<exists>m f c. fleet_run (replicate m (Hear k)) fl = Some f \<and> fl_conns f k = Some c
    \<and> cn_evicting c \<and> cn_stage c \<in> {Live, Serving}"
  using assms
proof (induction "cn_inbox cn" arbitrary: cn fl)
  case (Cons n ns)
  have hear: "fleet_do (Hear k) fl = Some (hear k cn fl)"
    using Cons.prems(1-3) by (auto simp: at_do_def at_stage_def)
  show ?case
  proof (cases "n \<le> cn_epoch cn")
    case True
    let ?c = "cn\<lparr>cn_inbox := ns\<rparr>"
    have h: "hear k cn fl = set_conn k ?c fl" using True by (simp add: hear_def Cons.hyps(2) [symmetric])
    have "\<exists>n \<in> set ns. cn_epoch cn < n" using Cons.prems(4) Cons.hyps(2) [symmetric] True by auto
    then have "\<exists>m f c. fleet_run (replicate m (Hear k)) (set_conn k ?c fl) = Some f \<and> fl_conns f k = Some c
        \<and> cn_evicting c \<and> cn_stage c \<in> {Live, Serving}"
      using Cons.prems(2,3) by (intro Cons.hyps(1) [of ?c]) auto
    then obtain m f c where "fleet_run (replicate m (Hear k)) (set_conn k ?c fl) = Some f"
        "fl_conns f k = Some c" "cn_evicting c" "cn_stage c \<in> {Live, Serving}" by blast
    then show ?thesis using hear h by (intro exI [of _ "Suc m"] exI [of _ f] exI [of _ c]) simp
  next
    case False
    then show ?thesis using hear Cons.hyps(2) [symmetric] Cons.prems(3)
      by (intro exI [of _ 1] exI [of _ "hear k cn fl"]
        exI [of _ "cn\<lparr>cn_inbox := [], cn_listening := False, cn_evicting := True\<rparr>"]) (simp add: hear_def)
  qed
qed simp

lemma evicting_closes:
  assumes "fl_conns fl k = Some cn" "cn_evicting cn" "cn_stage cn \<in> {Live, Serving}"
  shows "\<exists>f c. fleet_run [Evict k] fl = Some f \<and> fl_conns f k = Some c \<and> \<not> cn_open c"
  using assms by (simp add: at_do_def at_stage_def evict_def)

text \<open>
  C28: A session that listens on its control channel before a newer handshake of its worker
  announces itself does not outlive an announcement that reaches it. The key-value server
  promises no delivery, so that the publication reaches the older listener is assumed; then,
  whatever runs in between, the older socket is closed, or its listener has died, or it is
  about to send its notice and close, or the messages in its inbox bring it there: the steps
  of its listener alone, and a send that ends one way or the other, close it.
\<close>

theorem superseded_is_told:
  assumes "fleet_run before (fleet_start d) = Some fl"
    and "fl_conns fl k = Some cn" and "cn_listening cn"
    and "case fl_conns fl l of None \<Rightarrow> True | Some d \<Rightarrow> cn_stage d \<in> {Greeted, Numbered}"
    and "fleet_run after fl = Some fl'"
    and "\<forall>reach. Announce l reach \<in> set after \<longrightarrow> reach k"
    and "fl_conns fl' l = Some new" and "under_way new"
    and "cn_worker new = cn_worker cn" and "cn_epoch cn < cn_epoch new"
  shows "\<exists>old. fl_conns fl' k = Some old \<and> cn_epoch old = cn_epoch cn \<and> (\<not> cn_open old \<or> cn_deaf old
    \<or> (\<exists>m f c. fleet_run (replicate m (Hear k) @ [Evict k]) fl' = Some f
         \<and> fl_conns f k = Some c \<and> \<not> cn_open c))"
proof -
  have ok: "fleet_ok fl" by (rule fleet_ok_run [OF assms(1) fleet_ok_start])
  have live: "cn_stage cn \<in> {Live, Serving}" using conn_okD [OF ok assms(2)] assms(3) by (simp add: conn_ok_def)
  then have "l \<noteq> k" using assms(2,4) by auto
  have "unannounced (cn_worker cn) (cn_epoch cn) (fl_conns fl l)"
    using assms(4) by (auto simp: unannounced_def under_way_def split: option.splits)
  then have "warned (fl_conns fl l) cn" using assms(3) live by (auto simp: warned_def)
  from warned_run [OF assms(5,2) this \<open>l \<noteq> k\<close> assms(6)] obtain old where old: "fl_conns fl' k = Some old"
      "cn_worker old = cn_worker cn" "cn_epoch old = cn_epoch cn" "warned (fl_conns fl' l) old" by blast
  have "\<not> unannounced (cn_worker old) (cn_epoch old) (fl_conns fl' l)"
    using assms(7-10) old(2,3) by (simp add: unannounced_def)
  then have told: "cn_open old \<Longrightarrow> \<not> cn_deaf old \<Longrightarrow>
      cn_evicting old \<or> cn_listening old \<and> (\<exists>n \<in> set (cn_inbox old). cn_epoch old < n)"
    using old(4) by (auto simp: warned_def)
  have "conn_ok old" using conn_okD [OF fleet_ok_run [OF assms(5) ok] old(1)] .
  then have st: "cn_listening old \<or> cn_evicting old \<Longrightarrow> cn_stage old \<in> {Live, Serving}" by (simp add: conn_ok_def)
  have "\<exists>m f c. fleet_run (replicate m (Hear k) @ [Evict k]) fl' = Some f \<and> fl_conns f k = Some c \<and> \<not> cn_open c"
    if o: "cn_open old" "\<not> cn_deaf old"
  proof (cases "cn_evicting old")
    case True
    from evicting_closes [OF old(1) this] st True show ?thesis by (intro exI [of _ 0]) simp
  next
    case False
    with told [OF o] have i: "cn_listening old" "\<exists>n \<in> set (cn_inbox old). cn_epoch old < n" by simp_all
    obtain m f c where "fleet_run (replicate m (Hear k)) fl' = Some f" "fl_conns f k = Some c"
        "cn_evicting c" "cn_stage c \<in> {Live, Serving}"
      using hearing_evicts [OF old(1) i(1) _ i(2)] st i(1) by blast
    with evicting_closes [of f k c] show ?thesis
      by (intro exI [of _ m]) (simp add: fleet_run_append)
  qed
  with old(1,3) show ?thesis by blast
qed

subsection \<open>Concrete runs\<close>

text \<open>Worker 1 connects to two processes, as connection 0 to process 0 and as 1 to process 1.\<close>

definition ex_profile :: profile where
  "ex_profile = \<lparr>wc_worker = 1, wc_max = 1, wc_types = [''sleep''], wc_residual = 0\<rparr>"

definition ex_begin_join :: "nat \<Rightarrow> action list" where
  "ex_begin_join k = [Connect k k ex_profile, Number k 0, Announce k (\<lambda>_. True)]"

definition ex_end_join :: "nat \<Rightarrow> action list" where
  "ex_end_join k = [Enlist k 120 0, GoOnline k 0, Seed k default_settings 0, GoLive k,
     Renew k default_settings False 0]"

definition ex_joined :: "nat \<Rightarrow> int \<Rightarrow> bool \<Rightarrow> connection" where
  "ex_joined k epoch listening = \<lparr>cn_worker = 1, cn_host = k, cn_stage = Serving, cn_epoch = epoch,
     cn_welcome = ex_profile, cn_session = open_session 1 epoch 1 [''sleep''] 0, cn_open = True,
     cn_listening = listening, cn_inbox = [], cn_evicting = False, cn_deaf = False\<rparr>"

lemmas run_simps = at_do_def at_stage_def number_def announce_def enlist_def go_online_def seed_def go_live_def
  hold_def renew_on_hello_def listen_def hear_def Let_def greeted_def ex_profile_def tell_def open_session_def
  kv_incr_def kv_get_def kv_set_def

definition ex_fleet0 :: fleet where "ex_fleet0 = fleet_start (ex_db [])"
definition ex_one_listening :: fleet where
  "ex_one_listening = the (fleet_run (ex_begin_join 0 @ ex_end_join 0 @ [Listen 0]) ex_fleet0)"

lemma ex_one_listening_run:
  "fleet_run (ex_begin_join 0 @ ex_end_join 0 @ [Listen 0]) ex_fleet0 = Some ex_one_listening
   \<and> fl_conns ex_one_listening = [0 \<mapsto> ex_joined 0 1 True]
   \<and> fl_epochs ex_one_listening = [1 \<mapsto> (1, None)]
   \<and> fl_held ex_one_listening 0 = [(1, 0)] \<and> fl_held ex_one_listening 1 = []"
  by (simp add: ex_one_listening_def ex_fleet0_def fleet_start_def ex_begin_join_def ex_end_join_def
      run_simps ex_joined_def fun_eq_iff)

theorem superseded_is_told_witness:
  "\<exists>m f c. fleet_run (replicate m (Hear 0) @ [Evict 0])
      (the (fleet_run (ex_begin_join 1) ex_one_listening)) = Some f
    \<and> fl_conns f 0 = Some c \<and> \<not> cn_open c"
proof -
  note one = ex_one_listening_run
  let ?f = "the (fleet_run (ex_begin_join 1) ex_one_listening)"
  have run: "fleet_run (ex_begin_join 1) ex_one_listening = Some ?f"
    using one by (simp add: ex_begin_join_def run_simps)
  have conns: "fl_conns ?f 1 = Some ((greeted 1 ex_profile)\<lparr>cn_stage := Announced, cn_epoch := 2\<rparr>)"
      "fl_conns ?f 0 = Some ((ex_joined 0 1 True)\<lparr>cn_inbox := [2]\<rparr>)"
    using one by (simp_all add: ex_begin_join_def run_simps ex_joined_def)
  show ?thesis
    using superseded_is_told [OF one [THEN conjunct1, unfolded ex_fleet0_def], of 0 "ex_joined 0 1 True" 1
        "ex_begin_join 1" ?f, OF _ _ _ run _ conns(1)] one conns(2)
    by (simp add: ex_joined_def under_way_def greeted_def ex_profile_def ex_begin_join_def)
qed

text \<open>
  C30: The teardown of a superseded session is harmless: when the registry names another
  epoch, it ends without writing the task or worker tables, the registry, the published
  tasks or the metrics, it lets go of its own session only, and it takes no further step.
\<close>

theorem superseded_teardown_harmless:
  assumes "fleet_run before (fleet_start d) = Some fl"
    and "fl_conns fl k = Some cn" and "cn_stage cn = Serving"
    and "kv_get now (fl_registry fl) (cn_worker cn) = Some r" and "rg_epoch r \<noteq> cn_epoch cn"
    and "fleet_run [Finish k, CheckRegistry k now] fl = Some fl'"
  shows "fl_db fl' = fl_db fl \<and> fl_registry fl' = fl_registry fl \<and> fl_shown fl' = fl_shown fl
    \<and> fl_metrics fl' = fl_metrics fl
    \<and> map_option cn_stage (fl_conns fl' k) = Some Gone
    \<and> (\<forall>h w. map_of (fl_held fl' h) w =
         (if map_of (fl_held fl h) w = Some k then None else map_of (fl_held fl h) w))"
proof -
  have ok: "fleet_ok fl" by (rule fleet_ok_run [OF assms(1) fleet_ok_start])
  have "fl' = check_registry k (cn\<lparr>cn_stage := Closing, cn_open := False, cn_listening := False, cn_inbox := [], cn_evicting := False\<rparr>)
      now (finish k cn fl)"
    using assms(2,3,6) by (simp add: at_do_def at_stage_def finish_def)
  also have "\<dots> = set_conn k ((cn\<lparr>cn_stage := Closing, cn_open := False, cn_listening := False, cn_inbox := [], cn_evicting := False\<rparr>)\<lparr>cn_stage := Gone\<rparr>)
      (finish k cn fl)"
    using assms(4,5) by (simp add: check_registry_def finish_def)
  finally have "fl' = set_conn k ((cn\<lparr>cn_stage := Closing, cn_open := False, cn_listening := False, cn_inbox := [], cn_evicting := False\<rparr>)\<lparr>cn_stage := Gone\<rparr>)
      (finish k cn fl)" .
  moreover have "fl_shown (unhold cn fl) = fl_shown fl" by (simp add: unhold_def split: option.splits)
  ultimately show ?thesis
    using unhold_exact(1) [OF ok assms(2)] assms(3) by (simp add: finish_def)
qed

definition ex_overtaken :: fleet where
  "ex_overtaken = the (fleet_run (ex_begin_join 1 @ ex_end_join 1) ex_one_listening)"

theorem superseded_teardown_harmless_witness:
  "\<exists>fl'. fleet_run [Finish 0, CheckRegistry 0 1] ex_overtaken = Some fl'
    \<and> map_of (fl_held fl' 1) 1 = Some 1 \<and> map_of (fl_held fl' 0) 1 = None"
proof -
  note one = ex_one_listening_run
  have over: "fleet_run (ex_begin_join 1 @ ex_end_join 1) ex_one_listening = Some ex_overtaken"
      "fl_conns ex_overtaken 0 = Some ((ex_joined 0 1 True)\<lparr>cn_inbox := [2]\<rparr>)"
      "map_option rg_epoch (kv_get 1 (fl_registry ex_overtaken) 1) = Some 2"
      "fl_held ex_overtaken 0 = [(1, 0)]" "fl_held ex_overtaken 1 = [(1, 1)]"
    using one by (simp_all add: ex_overtaken_def ex_begin_join_def ex_end_join_def run_simps ex_joined_def)
  have reached: "fleet_run ((ex_begin_join 0 @ ex_end_join 0 @ [Listen 0]) @ ex_begin_join 1 @ ex_end_join 1)
      (fleet_start (ex_db [])) = Some ex_overtaken"
    using one over(1) unfolding ex_fleet0_def by (simp only: fleet_run_append option.case)
  obtain r where r: "kv_get 1 (fl_registry ex_overtaken) 1 = Some r" "rg_epoch r = 2" using over(3) by auto
  obtain fl' where run: "fleet_run [Finish 0, CheckRegistry 0 1] ex_overtaken = Some fl'"
    using over(2) by (auto simp: at_do_def at_stage_def finish_def ex_joined_def)
  from superseded_teardown_harmless [OF reached over(2) _ _ _ run, of r] r over(4,5) run show ?thesis
    by (simp add: ex_joined_def)
qed

definition ex_race :: "action list" where
  "ex_race = [Connect 0 0 ex_profile, Number 0 0, Connect 1 1 ex_profile, Number 1 0, Announce 0 (\<lambda>_. True),
     Announce 1 (\<lambda>_. True)]
     @ ex_end_join 1 @ [Listen 1] @ ex_end_join 0 @ [Listen 0]"

text \<open>
  The older session can linger. When two handshakes of a worker overlap so that the newer
  one announces itself before the older one listens, both sessions end up live on their
  processes, both listen with nothing left to hear, both are offered work, and the registry
  names the older one.
\<close>

theorem older_session_lingers:
  "\<exists>fl old new. fleet_run ex_race (fleet_start (ex_db [])) = Some fl
    \<and> fl_conns fl 0 = Some old \<and> fl_conns fl 1 = Some new
    \<and> cn_worker old = cn_worker new \<and> cn_epoch old < cn_epoch new
    \<and> cn_stage old = Serving \<and> cn_open old \<and> cn_listening old \<and> cn_inbox old = []
    \<and> cn_stage new = Serving \<and> cn_open new \<and> cn_listening new \<and> cn_inbox new = []
    \<and> sessions_of 0 fl = [(1, cn_session old)] \<and> 0 < free_credits (cn_session old)
    \<and> sessions_of 1 fl = [(1, cn_session new)] \<and> 0 < free_credits (cn_session new)
    \<and> map_option rg_epoch (kv_get 1 (fl_registry fl) 1) = Some (cn_epoch old)"
proof -
  define fl where "fl = the (fleet_run ex_race (fleet_start (ex_db [])))"
  have "fleet_run ex_race (fleet_start (ex_db [])) = Some fl"
    "fl_conns fl 0 = Some (ex_joined 0 1 True)" "fl_conns fl 1 = Some (ex_joined 1 2 True)"
    "fl_held fl 0 = [(1, 0)]" "fl_held fl 1 = [(1, 1)]"
    "map_option rg_epoch (kv_get 1 (fl_registry fl) 1) = Some 1"
    by (simp_all add: fl_def ex_race_def ex_end_join_def fleet_start_def run_simps ex_joined_def)
  then show ?thesis
    by (intro exI [of _ fl] exI [of _ "ex_joined 0 1 True"] exI [of _ "ex_joined 1 2 True"])
      (simp add: sessions_of_def ex_joined_def free_credits_def open_session_def in_flight_def)
qed

text \<open>
  Nothing makes up for a lost announcement. When the publication of the newer handshake does
  not reach the older listener, both sessions end up live and listening, with nothing left
  to hear.
\<close>

lemma lost_announcement_lingers:
  "\<exists>fl. fleet_run ([Connect 1 1 ex_profile, Number 1 0, Announce 1 (\<lambda>_. False)] @ ex_end_join 1 @ [Listen 1])
      ex_one_listening = Some fl
    \<and> fl_conns fl 0 = Some (ex_joined 0 1 True) \<and> fl_conns fl 1 = Some (ex_joined 1 2 True)"
  using ex_one_listening_run by (simp add: ex_end_join_def run_simps ex_joined_def)

definition ex_late_teardown :: "action list" where
  "ex_late_teardown = ex_begin_join 0 @ ex_end_join 0 @ [Finish 0, CheckRegistry 0 0]
     @ ex_begin_join 1 @ ex_end_join 1 @ [Listen 1, ClearRegistry 0, Retire 0 default_settings True 5]"

text \<open>
  The guard of the teardown and what it guards are not one step. When a new session
  registers between the two, the teardown of the old one removes the registry entry of the
  new session, which its pongs do not bring back, and reports the connected worker OFFLINE.
\<close>

theorem teardown_hits_newer:
  "\<exists>fl new. fleet_run ex_late_teardown (fleet_start (ex_db [])) = Some fl
    \<and> fl_conns fl 1 = Some new \<and> cn_stage new = Serving \<and> cn_open new
    \<and> kv_get 6 (fl_registry fl) 1 = None
    \<and> kv_get 6 (fl_registry (on_pong default_settings 120 None new 6 fl)) 1 = None
    \<and> map_option wk_status (find_worker (fl_db fl) 1) = Some OFFLINE"
proof -
  define fl where "fl = the (fleet_run ex_late_teardown (fleet_start (ex_db [])))"
  have "fleet_run ex_late_teardown (fleet_start (ex_db [])) = Some fl
    \<and> fl_conns fl 1 = Some (ex_joined 1 2 True) \<and> fl_registry fl 1 = None
    \<and> map_option wk_status (find_worker (fl_db fl) 1) = Some OFFLINE"
    by (simp add: fl_def ex_late_teardown_def ex_begin_join_def ex_end_join_def fleet_start_def run_simps ex_joined_def
        finish_def unhold_def check_registry_def clear_registry_def retire_def kv_delete_def
        transition_status_def wants_transition_def write_status_def ex_db_def ex_worker_def find_worker_def
        set_worker_def update_where_def shorten_local_leases_def shorten_worker_leases_def map_tasks_def
        worker_state_defs)
  then show ?thesis
    by (intro exI [of _ fl] exI [of _ "ex_joined 1 2 True"])
      (simp add: ex_joined_def on_pong_def kv_expire_def kv_get_def ex_profile_def)
qed

theorem epochs_and_references_witness:
  "map_of (fl_held ex_one_listening 0) 1 = Some 0 \<and> (\<exists>cn. fl_conns ex_one_listening 0 = Some cn \<and> cn_worker cn = 1)"
  using epochs_and_references [OF ex_one_listening_run [THEN conjunct1, unfolded ex_fleet0_def]]
    ex_one_listening_run by (metis list.set_intros(1))

end
