(* ===== verification/LivenessProperties.thy ===== *)
theory LivenessProperties
  imports Liveness Examples
begin

text \<open>What a sweep makes of a worker's silence, measured on the coordinator's clock.\<close>

lemma last_stamp:
  "map_of (rev (heartbeat_fields payload t)) ''last_heartbeat_at'' = Some (Moment t)"
  "map_of (rev (baseline_fields t)) ''last_heartbeat_at'' = Some (Moment t)"
  by (simp_all add: heartbeat_fields_def baseline_fields_def)

lemma silence_stamped:
  assumes "sent \<in> {heartbeat_fields payload t, baseline_fields t}"
  shows "silence w now (merge_metrics c w sent t m) =
    (if now < t + of_int (cf_offline_after c * 3) then Some (now - t) else None)"
  using assms last_stamp silence_merged by auto

text \<open>
  C31: Silence is noticed at exactly the configured thresholds: a worker that counts as
  connected and whose last heartbeat the coordinator received at a moment t is OFFLINE
  after any sweep more than the offline threshold later, SUSPECT after one more than the
  suspect threshold later, and keeps its status before, also when its snapshot has expired
  by then; a sweep never touches a worker that was never connected, went offline or is
  quarantined.
\<close>

theorem silence_is_noticed:
  assumes "distinct (map wk_id (db_workers d))" and "find_worker d w = Some row"
    and "wk_status row \<in> {CONNECTING, ONLINE, SUSPECT}"
    and "sent \<in> {heartbeat_fields payload t, baseline_fields t}" and "t \<le> now" and "0 < cf_offline_after c"
  shows "(\<exists>row'. find_worker (sweep_heartbeats c now (merge_metrics c w sent t m) d) w = Some row'
      \<and> wk_status row' = (if of_int (cf_offline_after c) < now - t then OFFLINE
          else if of_int (cf_suspect_after c) < now - t then SUSPECT else wk_status row)
      \<and> wk_revoked row' = wk_revoked row \<and> wk_credential_hash row' = wk_credential_hash row)
    \<and> (\<forall>i other. find_worker d i = Some other \<and> wk_status other \<notin> {CONNECTING, ONLINE, SUSPECT} \<longrightarrow>
         find_worker (sweep_heartbeats c now (merge_metrics c w sent t m) d) i = Some other)"
proof -
  let ?m = "merge_metrics c w sent t m"
  have id: "wk_id row = w" using find_worker_mem [OF assms(2)] by simp
  have "wk_status (swept_row c now ?m row) = (if of_int (cf_offline_after c) < now - t then OFFLINE
      else if of_int (cf_suspect_after c) < now - t then SUSPECT else wk_status row)"
  proof (cases "now < t + of_int (cf_offline_after c * 3)")
    case True
    then show ?thesis using assms(3) id
      by (auto simp: swept_row_def silence_stamped [OF assms(4)] sweep_verdict_def worker_state_defs)
  next
    case False
    then have "of_int (cf_offline_after c * 3) \<le> now - t" by simp
    moreover have "(of_int (cf_offline_after c) :: rat) < of_int (cf_offline_after c * 3)"
      using assms(6) by simp
    ultimately have "of_int (cf_offline_after c) < now - t" by (rule order.strict_trans2 [rotated])
    with False show ?thesis using assms(3) id
      by (auto simp: swept_row_def silence_stamped [OF assms(4)] sweep_verdict_def worker_state_defs)
  qed
  then show ?thesis
    using sweep_row [OF assms(1), of c now ?m] assms(2)
    by (auto simp: swept_row_def split: option.splits)
qed

theorem silence_is_noticed_witness:
  "map_option wk_status (find_worker (sweep_heartbeats default_settings 1000
     (merge_metrics default_settings 1 (baseline_fields 0) 0 Map.empty) (ex_db [])) 1) = Some OFFLINE"
proof -
  have "\<exists>row'. find_worker (sweep_heartbeats default_settings 1000
      (merge_metrics default_settings 1 (baseline_fields 0) 0 Map.empty) (ex_db [])) 1 = Some row'
    \<and> wk_status row' = OFFLINE"
    using silence_is_noticed [of "ex_db []" 1 "ex_worker 1" "baseline_fields 0" "[]" 0 1000 default_settings Map.empty]
    by (auto simp: ex_db_def find_worker_def ex_worker_def default_settings_def worker_state_defs)
  then show ?thesis by auto
qed

end
