(* ===== verification/TaskLife.thy ===== *)
theory TaskLife
  imports SystemProperties RowSteps
begin

text \<open>
  The abstract specification of a task: what an operator is promised, without leases,
  clocks, policies or history. A row of the table implements it, and every statement of
  the coordinator is one abstract move of each task, or none.
\<close>

datatype life =
    Waiting int
  | Held uuid int bool
  | Done uuid int
  | Dead
  | Withdrawn

text \<open>
  The number counts the attempts that were lost; the flag says whether the worker has
  reported that it began.
\<close>

inductive life_step :: "life \<Rightarrow> life \<Rightarrow> bool" where
  hand_out: "life_step (Waiting n) (Held w n False)"
| withdraw: "life_step (Waiting n) Withdrawn"
| begin_work: "life_step (Held w n False) (Held w n True)"
| finish_work: "life_step (Held w n b) (Done w n)"
| give_up: "life_step (Held w n b) Dead"
| hand_back: "life_step (Held w n b) (Waiting (n + 1))"

inductive_cases life_stepE: "life_step x y"

definition life_of :: "task_row \<Rightarrow> life" where
  "life_of t =
     (if tk_status t = QUEUED then Waiting (tk_attempt t)
      else if tk_status t = ASSIGNED then Held (the (tk_worker t)) (tk_attempt t) False
      else if tk_status t = RUNNING then Held (the (tk_worker t)) (tk_attempt t) True
      else if tk_status t = COMPLETED then Done (the (tk_worker t)) (tk_attempt t)
      else if tk_status t = CANCELLED then Withdrawn
      else Dead)"

lemma life_row_step:
  assumes "row_step c d t u" and ok: "task_ok t"
  shows "life_of u = life_of t \<or> life_step (life_of t) (life_of u)"
  using assms(1)
proof cases
  case (reported s now)
  have "tk_worker t \<noteq> None" using task_ok_live [OF ok reported(3)] by (simp add: leased_def)
  with reported show ?thesis
    by (auto simp: life_of_def live_status_def status_stamp_RUNNING status_stamp_final intro: life_step.intros)
next
  case (completed r now)
  then show ?thesis
    by (auto simp: life_of_def live_status_def complete_stamp_def intro: life_step.intros)
next
  case (reclaimed now rnd)
  then show ?thesis
    by (auto simp: life_of_def overdue_def live_status_def reclaim_stamp_def intro: life_step.intros)
next
  case (renewed now)
  then show ?thesis by (simp add: life_of_def renew_stamp_def)
next
  case (shortened grace now)
  then show ?thesis by (simp add: life_of_def shorten_stamp_def)
qed (auto simp: life_of_def claim_stamp_def cancel_stamp_def unlink_results_def intro: life_step.intros)

lemma life_of_newborn: "newborn t \<Longrightarrow> life_of t = Waiting 0"
  by (simp add: newborn_def life_of_def)

text \<open>
  C6: The task table implements the abstract life of a task: in every reachable database,
  whatever statement any replica runs next, each task makes exactly one abstract move or
  none (handed out to one worker, begun, finished, given up, handed back with its attempt
  counted, withdrawn while it waits), and a task that appears is one that waits for its
  first attempt.
\<close>

theorem task_life_refines:
  assumes "reachable c d" and "step c d e"
  shows "(\<forall>i t. find_task d i = Some t \<longrightarrow>
      (\<exists>u. find_task e i = Some u \<and> (life_of u = life_of t \<or> life_step (life_of t) (life_of u))))
    \<and> (\<forall>i u. find_task d i = None \<and> find_task e i = Some u \<longrightarrow> life_of u = Waiting 0)"
proof -
  have ok: "db_ok d" by (rule reachable_ok [OF assms(1)])
  have "\<exists>u. find_task e i = Some u \<and> (life_of u = life_of t \<or> life_step (life_of t) (life_of u))"
    if "find_task d i = Some t" for i t
    using row_of_step [OF assms(2) ok that] life_row_step db_ok_find [OF ok that] by blast
  moreover have "life_of u = Waiting 0" if "find_task d i = None" "find_task e i = Some u" for i u
    using origin_of_row [OF assms(2) ok that(2)] that(1) life_of_newborn by auto
  ultimately show ?thesis by blast
qed

theorem task_life_refines_witness:
  "\<exists>u. find_task ex_started 10 = Some u \<and> life_of u = Held 1 0 True
    \<and> life_step (Held 1 0 False) (life_of u)"
proof -
  let ?t = "claim_stamp default_settings ex_submitted 1 40 (ex_task 10 5)"
  have t: "life_of ?t = Held 1 0 False" by (simp add: life_of_def claim_stamp_def)
  have u: "life_of ex_started_task = Held 1 0 True" by (simp add: life_of_def)
  have "life_of ex_started_task = life_of ?t \<or> life_step (life_of ?t) (life_of ex_started_task)"
    using task_life_refines [OF ex_claimed_reachable started_step [OF ex_begin], THEN conjunct1,
        rule_format, OF ex_claimed_task] ex_started_find by auto
  with t u ex_started_find show ?thesis by simp
qed

end
