(* ===== verification/OperatorApi.thy ===== *)
theory OperatorApi
  imports Connections
begin

text \<open>
  \<open>coordinator/app/main.py\<close>, the operator's endpoints: the task API behind
  \<open>_operator_guard\<close>, the queue primitive, the worker listing and the push. An endpoint
  returns its response, or the exception that becomes a 500, with the gate it leaves; a
  session that does not commit leaves the tables alone. \<open>fmt\<close> prints a moment, \<open>msg\<close> an
  exception.
\<close>

definition KNOWN_ATTEMPT_OUTCOMES :: "string list" where
  "KNOWN_ATTEMPT_OUTCOMES = [''EXPIRED'', REASSIGNED_OUTCOME, FENCED_OUTCOME, EXHAUSTED_OUTCOME]"

definition opt_py :: "('a \<Rightarrow> pyval) \<Rightarrow> 'a option \<Rightarrow> pyval" where
  "opt_py f v = (case v of None \<Rightarrow> PNone | Some x \<Rightarrow> f x)"

definition moment :: "(time \<Rightarrow> string) \<Rightarrow> time option \<Rightarrow> pyval" where
  "moment fmt = opt_py (\<lambda>x. PStr (fmt x))"

definition uuid_py :: "uuid option \<Rightarrow> pyval" where
  "uuid_py = opt_py (\<lambda>i. PStr (uuid_str i))"

definition ok_body :: "pydict \<Rightarrow> response" where
  "ok_body b = \<lparr>re_status = 200, re_body = b\<rparr>"

type_synonym answer = "(exn + response) \<times> gate"

definition guarded ::
  "settings \<Rightarrow> secrets \<Rightarrow> string \<Rightarrow> string \<Rightarrow> time \<Rightarrow> gate \<Rightarrow> (gate \<Rightarrow> answer) \<Rightarrow> answer" where
  "guarded c sc secret ip now g f = (case operator_guard c sc secret ip now g of
      (Inl e, g1) \<Rightarrow> (Inl e, g1)
    | (Inr (Some rejection), g1) \<Rightarrow> (Inr rejection, g1)
    | (Inr None, g1) \<Rightarrow> f g1)"

text \<open>An \<open>except\<close> clause that answers 400 with the text of the exceptions it names.\<close>

definition bad_request :: "(exn \<Rightarrow> bool) \<Rightarrow> (exn \<Rightarrow> string) \<Rightarrow> gate \<Rightarrow> exn + 'a \<Rightarrow> ('a \<Rightarrow> answer) \<Rightarrow> answer" where
  "bad_request caught msg g r f = (case r of
      Inl e \<Rightarrow> (if caught e then Inr (refuse 400 (msg e)) else Inl e, g)
    | Inr x \<Rightarrow> f x)"

fun invalid_task :: "exn \<Rightarrow> bool" where
  "invalid_task (UnknownTaskType _) = True"
| "invalid_task (InvalidTaskParameters _) = True"
| "invalid_task QueueLimitExceeded = True"
| "invalid_task _ = False"

fun invalid_filter :: "exn \<Rightarrow> bool" where
  "invalid_filter (UnknownTaskState _) = True"
| "invalid_filter (UnknownTaskType _) = True"
| "invalid_filter QueueLimitExceeded = True"
| "invalid_filter _ = False"

fun invalid_policy :: "exn \<Rightarrow> bool" where
  "invalid_policy (InvalidTaskPolicy _) = True"
| "invalid_policy _ = False"

fun unknown_type :: "exn \<Rightarrow> bool" where
  "unknown_type (UnknownTaskType _) = True"
| "unknown_type _ = False"

definition over_limit :: "exn \<Rightarrow> bool" where
  "over_limit e \<longleftrightarrow> e = QueueLimitExceeded"

subsection \<open>Submitting\<close>

record enqueue_request =
  eq_secret :: string
  eq_type :: string
  eq_parameters :: "pydict option"
  eq_payload :: "pydict option"
  eq_priority :: int
  eq_count :: int

definition enqueue_tasks ::
  "settings \<Rightarrow> secrets \<Rightarrow> coercion \<Rightarrow> (nat \<Rightarrow> uuid) \<Rightarrow> (exn \<Rightarrow> string) \<Rightarrow> string \<Rightarrow> string \<Rightarrow> string \<Rightarrow> enqueue_request
     \<Rightarrow> time \<Rightarrow> gate \<Rightarrow> answer" where
  "enqueue_tasks c sc co ids msg header ip corr body now g =
     guarded c sc (if header \<noteq> [] then header else eq_secret body) ip now g (\<lambda>g.
       bad_request invalid_task msg g
         (enqueue_batch co ids (eq_type body) corr (eq_count body) (cf_enqueue_max c) (eq_parameters body)
            (eq_payload body) (eq_priority body) now (gt_db g))
         (\<lambda>(task_ids, d).
           (Inr \<lparr>re_status = 201, re_body = [(''status'', PStr ''queued''), (''count'', PInt (int (length task_ids))),
              (''task_ids'', if length task_ids = 1 then PList (map (\<lambda>i. PStr (uuid_str i)) task_ids) else PNone),
              (''correlation_id'', PStr corr)]\<rparr>, g\<lparr>gt_db := d\<rparr>)))"

subsection \<open>Reading tasks\<close>

definition seconds_until :: "time \<Rightarrow> time option \<Rightarrow> pyval" where
  "seconds_until now = opt_py (\<lambda>m. PFloat (Fin (of_int (round_half_even ((m - now) * 10)) / 10)))"

definition observed_duration :: "time option \<Rightarrow> time option \<Rightarrow> pyval" where
  "observed_duration assigned completed = (case (assigned, completed) of
      (Some a, Some b) \<Rightarrow> PFloat (Fin (of_int (round_half_even ((b - a) * 1000)) / 1000))
    | _ \<Rightarrow> PNone)"

definition task_summary :: "(time \<Rightarrow> string) \<Rightarrow> time \<Rightarrow> task_row \<Rightarrow> pydict" where
  "task_summary fmt now t = [(''task_id'', PStr (uuid_str (tk_id t))), (''task_type'', PStr (tk_type t)),
     (''status'', PStr (tk_status t)), (''priority'', PInt (tk_priority t)),
     (''assigned_worker_id'', uuid_py (tk_worker t)), (''created_at'', PStr (fmt (tk_created_at t))),
     (''assigned_at'', moment fmt (tk_assigned_at t)), (''started_at'', moment fmt (tk_started_at t)),
     (''completed_at'', moment fmt (tk_completed_at t)), (''updated_at'', PStr (fmt (tk_updated_at t))),
     (''attempt_count'', PInt (tk_attempt t)), (''correlation_id'', PStr (tk_correlation t)),
     (''observed_duration_seconds'', observed_duration (tk_assigned_at t) (tk_completed_at t)),
     (''has_result'', PBool (tk_result t \<noteq> None)), (''lease_expires_at'', moment fmt (tk_lease t)),
     (''deadline_at'', moment fmt (tk_deadline t)), (''lease_seconds_remaining'', seconds_until now (tk_lease t)),
     (''not_before'', moment fmt (tk_not_before t)), (''retry_in_seconds'', seconds_until now (tk_not_before t)),
     (''excluded_worker_id'', uuid_py (tk_excluded t))]"

definition str_list :: "string list option \<Rightarrow> pyval" where
  "str_list = opt_py (\<lambda>xs. PList (map PStr xs))"

definition list_tasks_endpoint ::
  "settings \<Rightarrow> secrets \<Rightarrow> (time \<Rightarrow> string) \<Rightarrow> (exn \<Rightarrow> string) \<Rightarrow> string \<Rightarrow> string \<Rightarrow> string list option \<Rightarrow> string option
     \<Rightarrow> string option \<Rightarrow> string option \<Rightarrow> int \<Rightarrow> int \<Rightarrow> time \<Rightarrow> gate \<Rightarrow> answer" where
  "list_tasks_endpoint c sc fmt msg header ip status ty worker_id corr limit offset now g =
     guarded c sc header ip now g (\<lambda>g.
       if worker_id \<noteq> None \<and> parse_uuid (the worker_id) = None
       then (Inr (refuse 400 ''worker_id is not a valid UUID''), g)
       else bad_request invalid_filter msg g
         (list_tasks \<lparr>fl_statuses = (case status of None \<Rightarrow> [] | Some ss \<Rightarrow> ss), fl_type = ty,
            fl_worker = Option.bind worker_id parse_uuid, fl_correlation = corr\<rparr> limit offset (cf_list_max c) (gt_db g))
         (\<lambda>(rows, has_more).
           (Inr (ok_body [(''tasks'', PList (map (\<lambda>t. PDict (task_summary fmt now t)) rows)),
              (''count'', PInt (int (length rows))), (''limit'', PInt limit), (''offset'', PInt offset),
              (''has_more'', PBool has_more),
              (''filters'', PDict [(''status'', str_list status), (''task_type'', opt_py PStr ty),
                 (''worker_id'', opt_py PStr worker_id), (''correlation_id'', opt_py PStr corr)])]), g)))"

definition task_queue_depth :: "settings \<Rightarrow> secrets \<Rightarrow> string \<Rightarrow> string \<Rightarrow> time \<Rightarrow> gate \<Rightarrow> answer" where
  "task_queue_depth c sc header ip now g = guarded c sc header ip now g (\<lambda>g.
     (Inr (ok_body [(''depth'', PInt (int (queue_depth (gt_db g)))),
        (''counts'', PDict (map (\<lambda>(s, n). (s, PInt (int n))) (counts_by_status (gt_db g)))),
        (''fenced_results'', PInt (int (fenced_result_count (gt_db g))))]), g))"

definition attempt_item :: "(time \<Rightarrow> string) \<Rightarrow> attempt_row \<Rightarrow> pydict" where
  "attempt_item fmt a = [(''attempt_id'', PStr (uuid_str (at_id a))), (''task_id'', PStr (uuid_str (at_task a))),
     (''attempt_number'', PInt (at_number a)), (''worker_id'', uuid_py (at_worker a)),
     (''outcome'', PStr (at_outcome a)), (''reason'', opt_py PStr (at_reason a)),
     (''correlation_id'', opt_py PStr (at_correlation a)), (''recorded_at'', PStr (fmt (at_recorded_at a)))]"

definition list_attempts ::
  "settings \<Rightarrow> secrets \<Rightarrow> (time \<Rightarrow> string) \<Rightarrow> (string \<Rightarrow> string) \<Rightarrow> string \<Rightarrow> string \<Rightarrow> string list option \<Rightarrow> string option
     \<Rightarrow> int \<Rightarrow> time \<Rightarrow> gate \<Rightarrow> answer" where
  "list_attempts c sc fmt unknown_outcome header ip outcome worker_id limit now g = guarded c sc header ip now g (\<lambda>g.
     let wanted = (case outcome of None \<Rightarrow> [] | Some os \<Rightarrow> os);
         capped = min limit (cf_list_max c)
     in case find (\<lambda>s. s \<notin> set KNOWN_ATTEMPT_OUTCOMES) wanted of
          Some s \<Rightarrow> (Inr (refuse 400 (unknown_outcome s)), g)
        | None \<Rightarrow>
            if worker_id \<noteq> None \<and> parse_uuid (the worker_id) = None
            then (Inr (refuse 400 ''worker_id is not a valid UUID''), g)
            else let rows = recent_attempts (nat capped) wanted worker_id (gt_db g)
                 in (Inr (ok_body [(''attempts'', PList (map (\<lambda>a. PDict (attempt_item fmt a)) rows)),
                      (''count'', PInt (int (length rows))), (''limit'', PInt capped),
                      (''filters'', PDict [(''outcome'', str_list outcome), (''worker_id'', opt_py PStr worker_id)])]), g))"

definition task_throughput ::
  "settings \<Rightarrow> secrets \<Rightarrow> (time \<Rightarrow> string) \<Rightarrow> (exn \<Rightarrow> string) \<Rightarrow> string \<Rightarrow> string \<Rightarrow> int \<Rightarrow> time \<Rightarrow> gate \<Rightarrow> answer" where
  "task_throughput c sc fmt msg header ip minutes now g = guarded c sc header ip now g (\<lambda>g.
     bad_request over_limit msg g (completions_per_minute minutes (cf_throughput_max c) now (gt_db g))
       (\<lambda>series. (Inr (ok_body [(''window_minutes'', PInt minutes),
          (''series'', PList (map (\<lambda>(b, n). PDict [(''minute'', PStr (fmt b)), (''completed'', PInt (int n))]) series)),
          (''completed_in_window'', PInt (int (sum_list (map snd series))))]), g)))"

subsection \<open>Policies\<close>

definition entry_py :: "(time \<Rightarrow> string) \<Rightarrow> policy_entry \<Rightarrow> pyval" where
  "entry_py fmt e = PDict ((''task_type'', PStr (pe_type e))
     # concat (map (\<lambda>(f, n, source). [(f, PInt n), (f @ ''_source'', PStr source)]) (pe_values e))
     @ [(''updated_at'', moment fmt (pe_updated_at e))])"

definition list_task_policies ::
  "settings \<Rightarrow> secrets \<Rightarrow> (time \<Rightarrow> string) \<Rightarrow> string \<Rightarrow> string \<Rightarrow> time \<Rightarrow> gate \<Rightarrow> answer" where
  "list_task_policies c sc fmt header ip now g = guarded c sc header ip now g (\<lambda>g.
     case effective_policies c (gt_db g) of
        Inl e \<Rightarrow> (Inl e, g)
      | Inr ps \<Rightarrow> (Inr (ok_body [(''policies'', PList (map (entry_py fmt) ps)), (''count'', PInt (int (length ps)))]), g))"

definition effective_entry :: "(time \<Rightarrow> string) \<Rightarrow> string \<Rightarrow> policy_entry list \<Rightarrow> pyval" where
  "effective_entry fmt ty ps = entry_py fmt (the (find (\<lambda>e. pe_type e = ty) ps))"

text \<open>The body is what the client set, field by field.\<close>

definition upsert_task_policy ::
  "settings \<Rightarrow> secrets \<Rightarrow> (time \<Rightarrow> string) \<Rightarrow> (exn \<Rightarrow> string) \<Rightarrow> string \<Rightarrow> string \<Rightarrow> string \<Rightarrow> pydict \<Rightarrow> time \<Rightarrow> gate \<Rightarrow> answer" where
  "upsert_task_policy c sc fmt msg header ip ty body now g = guarded c sc header ip now g (\<lambda>g.
     bad_request invalid_policy msg g (validate_policy body) (\<lambda>vs.
       bad_request unknown_type msg g
         (bind_exn (set_policy ty vs now (gt_db g)) (\<lambda>d.
            bind_exn (effective_policies c d) (\<lambda>ps. Inr (d, ps))))
         (\<lambda>(d, ps). (Inr (ok_body [(''task_type'', PStr ty),
            (''applied'', PDict (map (\<lambda>(f, n). (f, PInt n)) vs)), (''effective'', effective_entry fmt ty ps)]),
            g\<lparr>gt_db := d\<rparr>))))"

definition delete_task_policy ::
  "settings \<Rightarrow> secrets \<Rightarrow> (time \<Rightarrow> string) \<Rightarrow> (exn \<Rightarrow> string) \<Rightarrow> string \<Rightarrow> string \<Rightarrow> string \<Rightarrow> time \<Rightarrow> gate \<Rightarrow> answer" where
  "delete_task_policy c sc fmt msg header ip ty now g = guarded c sc header ip now g (\<lambda>g.
     bad_request unknown_type msg g
       (bind_exn (clear_policy ty (gt_db g)) (\<lambda>(removed, d).
          bind_exn (effective_policies c d) (\<lambda>ps. Inr (removed, d, ps))))
       (\<lambda>(removed, d, ps). (Inr (ok_body [(''task_type'', PStr ty), (''removed'', PBool removed),
          (''effective'', effective_entry fmt ty ps)]), if removed then g\<lparr>gt_db := d\<rparr> else g)))"

subsection \<open>The queue primitive\<close>

definition claimed_item :: "(time \<Rightarrow> string) \<Rightarrow> task_row \<Rightarrow> pydict" where
  "claimed_item fmt t = [(''task_id'', PStr (uuid_str (tk_id t))), (''task_type'', PStr (tk_type t)),
     (''parameters'', PDict (tk_parameters t)), (''payload'', opt_py PDict (tk_payload t)),
     (''priority'', PInt (tk_priority t)), (''correlation_id'', PStr (tk_correlation t)),
     (''assigned_at'', moment fmt (tk_assigned_at t)), (''lease_expires_at'', moment fmt (tk_lease t))]"

definition dequeue_tasks ::
  "settings \<Rightarrow> secrets \<Rightarrow> (time \<Rightarrow> string) \<Rightarrow> (exn \<Rightarrow> string) \<Rightarrow> string \<Rightarrow> string \<Rightarrow> string \<Rightarrow> int \<Rightarrow> uuid set \<Rightarrow> time \<Rightarrow> gate
     \<Rightarrow> answer" where
  "dequeue_tasks c sc fmt msg instance_id secret worker_id limit locked now g = (case verify_admin_secret sc secret of
      Inl e \<Rightarrow> (Inl e, g)
    | Inr False \<Rightarrow> (Inr (refuse 401 ''invalid admin credential''), g)
    | Inr True \<Rightarrow> (case parse_uuid worker_id of
          None \<Rightarrow> (Inr (refuse 400 ''worker_id is not a valid UUID''), g)
        | Some w \<Rightarrow> bad_request over_limit msg g (dequeue c w limit (cf_dequeue_max c) None locked now (gt_db g))
            (\<lambda>(rows, d). (Inr (ok_body [(''count'', PInt (int (length rows))),
               (''tasks'', PList (map (\<lambda>t. PDict (claimed_item fmt t)) rows)),
               (''coordinator_instance'', PStr instance_id)]), g\<lparr>gt_db := d\<rparr>))))"

subsection \<open>One task\<close>

record life_entry =
  le_state :: string
  le_at :: time
  le_source :: string

definition entry_if :: "string \<Rightarrow> string \<Rightarrow> time option \<Rightarrow> life_entry list" where
  "entry_if state source moment_of = (case moment_of of
      None \<Rightarrow> [] | Some x \<Rightarrow> [\<lparr>le_state = state, le_at = x, le_source = source\<rparr>])"

definition updated_source :: string where
  "updated_source = ''updated_at (no dedicated column; terminal states are the last write)''"

definition lifecycle :: "task_row \<Rightarrow> life_entry list" where
  "lifecycle t = \<lparr>le_state = QUEUED, le_at = tk_created_at t, le_source = ''created_at''\<rparr>
     # entry_if ASSIGNED ''assigned_at'' (tk_assigned_at t) @ entry_if RUNNING ''started_at'' (tk_started_at t)
     @ (if tk_status t = COMPLETED \<and> tk_completed_at t \<noteq> None
        then entry_if COMPLETED ''completed_at'' (tk_completed_at t)
        else if tk_status t = FAILED \<or> tk_status t = CANCELLED
        then [\<lparr>le_state = tk_status t, le_at = tk_updated_at t, le_source = updated_source\<rparr>]
        else [])"

definition entry_dict :: "(time \<Rightarrow> string) \<Rightarrow> life_entry \<Rightarrow> pyval" where
  "entry_dict fmt e = PDict [(''state'', PStr (le_state e)), (''at'', PStr (fmt (le_at e))), (''source'', PStr (le_source e))]"

definition history_item :: "(time \<Rightarrow> string) \<Rightarrow> attempt_row \<Rightarrow> pyval" where
  "history_item fmt a = PDict [(''attempt_number'', PInt (at_number a)), (''worker_id'', uuid_py (at_worker a)),
     (''outcome'', PStr (at_outcome a)), (''reason'', opt_py PStr (at_reason a)),
     (''recorded_at'', PStr (fmt (at_recorded_at a))), (''correlation_id'', opt_py PStr (at_correlation a))]"

definition inspect_task ::
  "settings \<Rightarrow> secrets \<Rightarrow> (time \<Rightarrow> string) \<Rightarrow> string \<Rightarrow> string \<Rightarrow> string \<Rightarrow> time \<Rightarrow> gate \<Rightarrow> answer" where
  "inspect_task c sc fmt header ip task_id now g = guarded c sc header ip now g (\<lambda>g.
     case get_task (gt_db g) task_id of
        None \<Rightarrow> (Inr (refuse 404 ''task not found''), g)
      | Some (t, r) \<Rightarrow> (Inr (ok_body (task_summary fmt now t
          @ [(''timeline'', PList (map (entry_dict fmt) (lifecycle t))),
             (''attempts'', PList (map (history_item fmt) (task_attempts (gt_db g) task_id 50))),
             (''result'', opt_py (\<lambda>x. PDict (rs_payload x)) r),
             (''result_size_bytes'', opt_py (\<lambda>x. PInt (rs_size_bytes x)) r),
             (''result_submitted_at'', moment fmt (map_option rs_submitted_at r))])), g))"

definition cancel_task ::
  "settings \<Rightarrow> secrets \<Rightarrow> string \<Rightarrow> string \<Rightarrow> string \<Rightarrow> time \<Rightarrow> gate \<Rightarrow> answer" where
  "cancel_task c sc header ip task_id now g = guarded c sc header ip now g (\<lambda>g.
     case cancel_queued_task task_id now (gt_db g) of
        Inl e \<Rightarrow> (Inl e, g)
      | Inr ((out, current), d) \<Rightarrow>
          let g1 = (if out = TRANSITIONED then g\<lparr>gt_db := d\<rparr> else g)
          in if out = NOT_FOUND then (Inr (refuse 404 ''task not found''), g1)
             else if out = NOT_CANCELLABLE
             then (Inr \<lparr>re_status = 409, re_body = [(''task_id'', PStr task_id), (''status'', opt_py PStr current),
                     (''detail'', PStr (''task is '' @ (case current of None \<Rightarrow> ''None'' | Some s \<Rightarrow> s)
                        @ '': only a QUEUED task can be cancelled (cancelling in-flight work is not in M2 scope)''))]\<rparr>, g1)
             else (Inr (ok_body [(''task_id'', PStr task_id), (''status'', PStr ''CANCELLED''),
                     (''previous_status'', opt_py PStr current)]), g1))"

subsection \<open>Workers\<close>

definition worker_failures ::
  "settings \<Rightarrow> secrets \<Rightarrow> (time \<Rightarrow> string) \<Rightarrow> string \<Rightarrow> string \<Rightarrow> time \<Rightarrow> gate \<Rightarrow> answer" where
  "worker_failures c sc fmt header ip now g = guarded c sc header ip now g (\<lambda>g.
     let rows = worker_failure_counts (gt_db g)
     in (Inr (ok_body [(''workers'', PList (map (\<lambda>r. PDict [(''worker_id'', PStr (uuid_str (fc_worker r))),
            (''outcome'', PStr (fc_outcome r)), (''failures'', PInt (int (fc_failures r))),
            (''last_failure_at'', PStr (fmt (fc_last r)))]) rows)), (''count'', PInt (int (length rows)))]), g))"

definition WORKER_METRICS_FIELDS :: "string list" where
  "WORKER_METRICS_FIELDS = [''sequence'', ''uptime_seconds'', ''cpu_percent'', ''memory_percent'', ''latency_ms'',
     ''last_heartbeat_at'']"

definition metric_py :: "(time \<Rightarrow> string) \<Rightarrow> metric option \<Rightarrow> pyval" where
  "metric_py fmt m = (case m of None \<Rightarrow> PNone | Some (Sample v) \<Rightarrow> v | Some (Moment x) \<Rightarrow> PStr (fmt x))"

definition worker_item :: "(time \<Rightarrow> string) \<Rightarrow> time \<Rightarrow> fleet \<Rightarrow> worker_row \<Rightarrow> pydict" where
  "worker_item fmt now fl w =
     (let snapshot = (case kv_get now (fl_metrics fl) (wk_id w) of None \<Rightarrow> [] | Some d \<Rightarrow> d);
          registry = kv_get now (fl_registry fl) (wk_id w);
          current = fl_shown fl (wk_id w)
      in [(''worker_id'', PStr (uuid_str (wk_id w))), (''status'', PStr (wk_status w)),
          (''revoked'', PBool (wk_revoked w)), (''agent_version'', opt_py PStr (wk_agent_version w)),
          (''created_at'', PStr (fmt (wk_created_at w))), (''connected'', PBool (registry \<noteq> None)),
          (''session_epoch'', opt_py (\<lambda>r. PInt (rg_epoch r)) registry),
          (''max_concurrent'', opt_py (\<lambda>r. PInt (rg_max r)) registry),
          (''supported_task_types'', opt_py (\<lambda>r. PList (map PStr (rg_types r))) registry),
          (''current_tasks'', PList (map PDict current)), (''running_task_count'', PInt (int (length current)))]
         @ map (\<lambda>f. (f, metric_py fmt (map_of snapshot f))) WORKER_METRICS_FIELDS)"

definition list_workers ::
  "secrets \<Rightarrow> (time \<Rightarrow> string) \<Rightarrow> string \<Rightarrow> time \<Rightarrow> fleet \<Rightarrow> exn + response" where
  "list_workers sc fmt header now fl = (case verify_admin_secret sc header of
      Inl e \<Rightarrow> Inl e
    | Inr False \<Rightarrow> Inr (refuse 401 ''invalid admin credential'')
    | Inr True \<Rightarrow> Inr (ok_body [(''workers'', PList (map (\<lambda>w. PDict (worker_item fmt now fl w)) (db_workers (fl_db fl)))),
        (''server_time'', PStr (fmt now))]))"

text \<open>What a push publishes on the channel of a worker; nothing checks that anyone listens.\<close>

record push_request =
  ps_secret :: string
  ps_type :: string
  ps_payload :: "pydict option"

definition push_to_worker ::
  "secrets \<Rightarrow> string \<Rightarrow> string \<Rightarrow> string \<Rightarrow> push_request \<Rightarrow> (exn + response) \<times> (string \<times> pydict) list" where
  "push_to_worker sc fresh stamp worker_id body = (case verify_admin_secret sc (ps_secret body) of
      Inl e \<Rightarrow> (Inl e, [])
    | Inr False \<Rightarrow> (Inr (refuse 401 ''invalid admin credential''), [])
    | Inr True \<Rightarrow> (case parse_uuid worker_id of
          None \<Rightarrow> (Inr (refuse 404 ''not found''), [])
        | Some _ \<Rightarrow>
            let e = \<lparr>en_type = PStr (ps_type body), en_payload = PDict (case ps_payload body of None \<Rightarrow> [] | Some p \<Rightarrow> p),
                  en_version = PStr PROTOCOL_VERSION, en_correlation = PStr fresh, en_worker = PStr worker_id,
                  en_epoch = PInt 0, en_timestamp = PStr stamp\<rparr>
            in (Inr (ok_body [(''status'', PStr ''published''), (''correlation_id'', PStr fresh)]),
                [(worker_id, to_dict e)])))"

subsection \<open>The service itself\<close>

text \<open>
  Readiness asks every dependency; what a probe raised is its text, and a draining replica
  is not asked anything.
\<close>

definition probe_result :: "string option \<Rightarrow> pyval" where
  "probe_result failure = PStr (case failure of None \<Rightarrow> ''ok'' | Some what \<Rightarrow> ''error: '' @ what)"

definition ready :: "bool \<Rightarrow> string option \<Rightarrow> string option \<Rightarrow> response" where
  "ready draining database redis =
     (if draining then \<lparr>re_status = 503, re_body = [(''status'', PStr ''draining''), (''checks'', PDict [])]\<rparr>
      else let healthy = (database = None \<and> redis = None)
           in \<lparr>re_status = (if healthy then 200 else 503),
               re_body = [(''status'', PStr (if healthy then ''ready'' else ''not_ready'')),
                 (''checks'', PDict [(''database'', probe_result database), (''redis'', probe_result redis)])]\<rparr>)"

definition health :: "string \<Rightarrow> response" where
  "health git_sha = ok_body [(''status'', PStr ''healthy''), (''version'', PStr git_sha)]"

definition validation_error_without_echo :: "pydict list \<Rightarrow> response" where
  "validation_error_without_echo errors = \<lparr>re_status = 422, re_body = [(''detail'',
     PList (map (\<lambda>e. PDict [(''loc'', dict_get e ''loc''), (''msg'', dict_get e ''msg''), (''type'', dict_get e ''type'')])
       errors))]\<rparr>"

text \<open>One pass of the retention loop; a pass that raises is logged and leaves the tables.\<close>

definition retention_pass :: "settings \<Rightarrow> time \<Rightarrow> db \<Rightarrow> db" where
  "retention_pass c now d =
     (let (purged, e) = purge_expired_results (cf_retention c) now d in if 0 < purged then e else d)"

end
