(* ===== verification/OperatorProperties.thy ===== *)
theory OperatorProperties
  imports OperatorApi AuthProperties SystemProperties RowSteps
begin

text \<open>
  What the operator's endpoints promise: nothing is read or written without the admin
  secret, every call is a sequence of the steps of the database and a refused call is
  none, and the timeline an inspection reconstructs from the columns of a row is the
  path the task took, for good once the task is finished.
\<close>

subsection \<open>One dispatcher for the endpoints\<close>

record front =
  fr_settings :: settings
  fr_secrets :: secrets
  fr_coercion :: coercion
  fr_fmt :: "time \<Rightarrow> string"
  fr_msg :: "exn \<Rightarrow> string"
  fr_outcome :: "string \<Rightarrow> string"
  fr_instance :: string

datatype api_call =
    Submit "nat \<Rightarrow> uuid" string enqueue_request
  | ListTasks "string list option" "string option" "string option" "string option" int int
  | Depth
  | Attempts "string list option" "string option" int
  | Throughput int
  | Policies
  | PutPolicy string pydict
  | DeletePolicy string
  | Claim string string int "uuid set"
  | Inspect string
  | Cancel string
  | Failures

fun serve :: "front \<Rightarrow> string \<Rightarrow> string \<Rightarrow> time \<Rightarrow> api_call \<Rightarrow> gate \<Rightarrow> answer" where
  "serve fr header ip now (Submit ids corr body) g =
     enqueue_tasks (fr_settings fr) (fr_secrets fr) (fr_coercion fr) ids (fr_msg fr) header ip corr body now g"
| "serve fr header ip now (ListTasks status ty worker_id corr limit offset) g =
     list_tasks_endpoint (fr_settings fr) (fr_secrets fr) (fr_fmt fr) (fr_msg fr) header ip status ty worker_id corr
       limit offset now g"
| "serve fr header ip now Depth g = task_queue_depth (fr_settings fr) (fr_secrets fr) header ip now g"
| "serve fr header ip now (Attempts out worker_id limit) g =
     list_attempts (fr_settings fr) (fr_secrets fr) (fr_fmt fr) (fr_outcome fr) header ip out worker_id limit now g"
| "serve fr header ip now (Throughput minutes) g =
     task_throughput (fr_settings fr) (fr_secrets fr) (fr_fmt fr) (fr_msg fr) header ip minutes now g"
| "serve fr header ip now Policies g =
     list_task_policies (fr_settings fr) (fr_secrets fr) (fr_fmt fr) header ip now g"
| "serve fr header ip now (PutPolicy ty body) g =
     upsert_task_policy (fr_settings fr) (fr_secrets fr) (fr_fmt fr) (fr_msg fr) header ip ty body now g"
| "serve fr header ip now (DeletePolicy ty) g =
     delete_task_policy (fr_settings fr) (fr_secrets fr) (fr_fmt fr) (fr_msg fr) header ip ty now g"
| "serve fr header ip now (Claim secret worker_id limit locked) g =
     dequeue_tasks (fr_settings fr) (fr_secrets fr) (fr_fmt fr) (fr_msg fr) (fr_instance fr) secret worker_id limit
       locked now g"
| "serve fr header ip now (Inspect task_id) g =
     inspect_task (fr_settings fr) (fr_secrets fr) (fr_fmt fr) header ip task_id now g"
| "serve fr header ip now (Cancel task_id) g =
     cancel_task (fr_settings fr) (fr_secrets fr) header ip task_id now g"
| "serve fr header ip now Failures g =
     worker_failures (fr_settings fr) (fr_secrets fr) (fr_fmt fr) header ip now g"

text \<open>The secret a call presents, and the calls a client can make: a policy is a JSON object.\<close>

fun presented :: "string \<Rightarrow> api_call \<Rightarrow> string" where
  "presented header (Submit ids corr body) = (if header \<noteq> [] then header else eq_secret body)"
| "presented header (Claim secret worker_id limit locked) = secret"
| "presented header _ = header"

fun well_formed :: "api_call \<Rightarrow> bool" where
  "well_formed (PutPolicy ty body) = distinct (map fst body)"
| "well_formed _ = True"

subsection \<open>The guard\<close>

definition same_but_rate :: "gate \<Rightarrow> gate \<Rightarrow> bool" where
  "same_but_rate g h \<longleftrightarrow> h = g\<lparr>gt_rate := gt_rate h\<rparr>"

lemma same_but_rate_db: "same_but_rate g h \<Longrightarrow> gt_db h = gt_db g"
  by (metis same_but_rate_def gate.select_convs(1) gate.simps(10) gate.surjective gate.update_convs(5))

lemma window_same: "fixed_window_limited scope ip limit now g = (b, h) \<Longrightarrow> same_but_rate g h"
  by (auto simp: fixed_window_limited_def same_but_rate_def Let_def split: prod.splits)

definition turned_away :: "answer \<Rightarrow> bool" where
  "turned_away a \<longleftrightarrow> (\<exists>r. fst a = Inr r \<and> re_status r \<in> {401, 429} \<and> map fst (re_body r) = [''detail''])"

lemma guarded_cases:
  assumes "guarded c sc secret ip now g f = (a, h)"
  obtains (away) "turned_away (a, h)" "same_but_rate g h"
  | (broken) e where "verify_admin_secret sc secret = Inl e" "a = Inl e" "same_but_rate g h"
  | (passed) g1 where "verify_admin_secret sc secret = Inr True" "same_but_rate g g1" "f g1 = (a, h)"
proof -
  obtain limited g1 where w: "fixed_window_limited ''taskapi'' ip (cf_api_limit c) now g = (limited, g1)"
    by (metis surj_pair)
  note same = window_same [OF w]
  show ?thesis
  proof (cases limited)
    case True
    with assms have "turned_away (a, h)" "h = g1"
      by (auto simp: guarded_def operator_guard_def w turned_away_def refuse_def reply_def)
    with same show ?thesis using away by simp
  next
    case False
    show ?thesis
    proof (cases "verify_admin_secret sc secret")
      case (Inl e)
      with assms False have "a = Inl e" "h = g1"
        by (auto simp: guarded_def operator_guard_def w)
      with same Inl show ?thesis using broken by simp
    next
      case (Inr ok)
      show ?thesis
      proof (cases ok)
        case True
        with assms False Inr same show ?thesis
          by (intro passed) (auto simp: guarded_def operator_guard_def w)
      next
        case nok: False
        with assms False Inr have "turned_away (a, h)" "h = g1"
          by (auto simp: guarded_def operator_guard_def w turned_away_def refuse_def reply_def)
        with same show ?thesis using away by simp
      qed
    qed
  qed
qed

text \<open>Every endpoint but the queue primitive is a body behind the guard.\<close>

fun is_claim :: "api_call \<Rightarrow> bool" where
  "is_claim (Claim _ _ _ _) = True"
| "is_claim _ = False"

lemma serve_guarded:
  "\<not> is_claim call \<Longrightarrow> \<exists>f. serve fr header ip now call g =
     guarded (fr_settings fr) (fr_secrets fr) (presented header call) ip now g f"
  by (cases call) (auto simp: enqueue_tasks_def list_tasks_endpoint_def task_queue_depth_def list_attempts_def
      task_throughput_def list_task_policies_def upsert_task_policy_def delete_task_policy_def inspect_task_def
      cancel_task_def worker_failures_def)

text \<open>
  What a caller without the secret gets: a refusal that holds one word, or, because the
  comparison refuses to look at anything outside ASCII, an exception before anything is done.
\<close>

definition denied :: "secrets \<Rightarrow> string \<Rightarrow> exn + response \<Rightarrow> bool" where
  "denied sc key a \<longleftrightarrow> (\<exists>r. a = Inr r \<and> re_status r \<in> {401, 429} \<and> map fst (re_body r) = [''detail''])
     \<or> a = Inl TypeError \<and> \<not> (is_ascii key \<and> is_ascii (sc_admin sc))"

lemma wrong_secret:
  assumes "key \<noteq> sc_admin sc"
  shows "verify_admin_secret sc key = Inr False
    \<or> verify_admin_secret sc key = Inl TypeError \<and> \<not> (is_ascii key \<and> is_ascii (sc_admin sc))"
  using assms by (simp add: verify_admin_secret_def compare_digest_def)

lemma denied_refusal [simp]: "n \<in> {401, 429} \<Longrightarrow> denied sc key (Inr (refuse n m))"
  by (simp add: denied_def refuse_def reply_def)

lemma shut_out:
  assumes wrong: "presented header call \<noteq> sc_admin (fr_secrets fr)"
    and served: "serve fr header ip now call g = (a, h)"
  shows "denied (fr_secrets fr) (presented header call) a \<and> same_but_rate g h"
proof (cases "is_claim call")
  case True
  with wrong_secret [OF wrong] served show ?thesis
    by (cases call) (auto simp: dequeue_tasks_def same_but_rate_def denied_def [of _ _ "Inl TypeError"])
next
  case False
  then obtain f where "guarded (fr_settings fr) (fr_secrets fr) (presented header call) ip now g f = (a, h)"
    using serve_guarded [of call fr header ip now g] served by auto
  then show ?thesis
    by (cases rule: guarded_cases) (use wrong_secret [OF wrong] in \<open>auto simp: denied_def turned_away_def\<close>)
qed

subsection \<open>Calls are steps\<close>

definition refused :: "exn + response \<Rightarrow> bool" where
  "refused a \<longleftrightarrow> (case a of Inl _ \<Rightarrow> True | Inr r \<Rightarrow> 400 \<le> re_status r)"

lemma refused_simps [simp]: "refused (Inl e)" "refused (Inr r) \<longleftrightarrow> 400 \<le> re_status r"
  by (simp_all add: refused_def)

lemma refuse_status [simp]: "re_status (refuse n m) = n"
  by (simp add: refuse_def reply_def)

fun read_only :: "api_call \<Rightarrow> bool" where
  "read_only (Submit ids corr body) = False"
| "read_only (PutPolicy ty body) = False"
| "read_only (DeletePolicy ty) = False"
| "read_only (Claim secret worker_id limit locked) = False"
| "read_only (Cancel task_id) = False"
| "read_only _ = True"

lemma bad_request_cases:
  assumes "bad_request caught msg g r f = (a, h)"
  obtains (caught) "refused a" "h = g" | (went) x where "r = Inr x" "f x = (a, h)"
  using assms by (cases r) (auto simp: bad_request_def split: if_splits)

lemma guarded_steps:
  assumes "guarded c sc secret ip now g f = (a, h)"
    and body: "\<And>g1. gt_db g1 = gt_db g \<Longrightarrow> f g1 = (a, h) \<Longrightarrow>
      (step c)\<^sup>*\<^sup>* (gt_db g) (gt_db h) \<and> (refused a \<or> ro \<longrightarrow> gt_db h = gt_db g)"
  shows "(step c)\<^sup>*\<^sup>* (gt_db g) (gt_db h) \<and> (refused a \<or> ro \<longrightarrow> gt_db h = gt_db g)"
  using assms(1)
proof (cases rule: guarded_cases)
  case (passed g1)
  with body [OF same_but_rate_db [OF passed(2)]] show ?thesis by simp
qed (auto dest: same_but_rate_db)

lemma one_step: "step c d e \<Longrightarrow> (step c)\<^sup>*\<^sup>* d e"
  by (rule r_into_rtranclp)

lemma submit_steps:
  "serve fr header ip now (Submit ids corr body) g = (a, h) \<Longrightarrow>
   (step (fr_settings fr))\<^sup>*\<^sup>* (gt_db g) (gt_db h) \<and> (refused a \<or> False \<longrightarrow> gt_db h = gt_db g)"
  unfolding serve.simps enqueue_tasks_def
  by (erule guarded_steps, erule bad_request_cases)
    (auto intro!: one_step elim!: batch_step simp del: enqueue_batch_def)

lemma put_policy_steps:
  "distinct (map fst body) \<Longrightarrow> serve fr header ip now (PutPolicy ty body) g = (a, h) \<Longrightarrow>
   (step (fr_settings fr))\<^sup>*\<^sup>* (gt_db g) (gt_db h) \<and> (refused a \<or> False \<longrightarrow> gt_db h = gt_db g)"
  unfolding serve.simps upsert_task_policy_def
  by (erule guarded_steps, (erule bad_request_cases, simp)+)
    (auto intro!: one_step elim!: set_policy_step simp: bind_exn_def ok_body_def split: sum.splits)

lemma delete_policy_steps:
  "serve fr header ip now (DeletePolicy ty) g = (a, h) \<Longrightarrow>
   (step (fr_settings fr))\<^sup>*\<^sup>* (gt_db g) (gt_db h) \<and> (refused a \<or> False \<longrightarrow> gt_db h = gt_db g)"
  unfolding serve.simps delete_task_policy_def
  by (erule guarded_steps, erule bad_request_cases)
    (auto intro: one_step [OF clear_policy_step] simp: bind_exn_def ok_body_def split: sum.splits if_splits)

lemma claim_steps:
  "serve fr header ip now (Claim secret worker_id limit locked) g = (a, h) \<Longrightarrow>
   (step (fr_settings fr))\<^sup>*\<^sup>* (gt_db g) (gt_db h) \<and> (refused a \<or> False \<longrightarrow> gt_db h = gt_db g)"
  unfolding serve.simps dequeue_tasks_def
  by (auto split: sum.splits bool.splits option.splits elim!: bad_request_cases
      intro!: one_step dequeue_step simp: ok_body_def)

lemma cancel_steps:
  "serve fr header ip now (Cancel task_id) g = (a, h) \<Longrightarrow>
   (step (fr_settings fr))\<^sup>*\<^sup>* (gt_db g) (gt_db h) \<and> (refused a \<or> False \<longrightarrow> gt_db h = gt_db g)"
  unfolding serve.simps cancel_task_def
  by (erule guarded_steps)
    (auto split: sum.splits if_splits prod.splits intro!: one_step elim!: cancel_step simp: Let_def ok_body_def)

lemma read_only_keeps:
  assumes "read_only call" "serve fr header ip now call g = (a, h)"
  shows "gt_db h = gt_db g"
proof -
  have away: "gt_db h = gt_db g" if "guarded c sc secret ip now g f = (a, h)" "\<And>g1. f g1 = (a, h) \<Longrightarrow> h = g1"
    for c sc secret f
    using that(1) by (cases rule: guarded_cases) (use that(2) same_but_rate_db in blast)+
  have keep: "bad_request caught msg g1 r f = (a, h) \<Longrightarrow> (\<And>x. f x = (a, h) \<Longrightarrow> h = g1) \<Longrightarrow> h = g1"
    for caught msg g1 f and r :: "exn + 'x"
    by (erule bad_request_cases)
  show ?thesis
    using assms
    by (cases call; simp add: list_tasks_endpoint_def task_queue_depth_def list_attempts_def
        task_throughput_def list_task_policies_def inspect_task_def worker_failures_def)
      (erule away; auto split: if_splits sum.splits option.splits prod.splits elim!: bad_request_cases simp: Let_def)+
qed

lemma serve_steps:
  assumes "serve fr header ip now call g = (a, h)" "well_formed call"
  shows "(step (fr_settings fr))\<^sup>*\<^sup>* (gt_db g) (gt_db h)
     \<and> (refused a \<or> read_only call \<longrightarrow> gt_db h = gt_db g)"
proof (cases "read_only call")
  case True
  then show ?thesis using read_only_keeps [OF True assms(1)] by simp
next
  case False
  then show ?thesis
    using assms submit_steps put_policy_steps delete_policy_steps claim_steps cancel_steps
    by (cases call) (simp_all del: serve.simps)
qed

subsection \<open>The timeline of a row\<close>

text \<open>Which of the columns behind the timeline are filled, by status.\<close>

definition stamped :: "task_row \<Rightarrow> bool" where
  "stamped t \<longleftrightarrow> (tk_status t = ASSIGNED \<longrightarrow> tk_started_at t = None)
     \<and> (tk_status t = CANCELLED \<longrightarrow> tk_assigned_at t = None \<and> tk_started_at t = None)
     \<and> (tk_status t = COMPLETED \<longrightarrow> tk_assigned_at t \<noteq> None)
     \<and> (tk_started_at t \<noteq> None \<longrightarrow> tk_assigned_at t \<noteq> None)"

lemma stamped_step:
  assumes "row_step c d t u" "task_ok t" "stamped t"
  shows "stamped u"
  using assms(1)
proof cases
  case (reported s now)
  have "leased t" by (rule task_ok_live [OF assms(2) reported(3)])
  with reported assms(3) show ?thesis
    by (auto simp: stamped_def status_stamp_def start_stamp_def settle_def leased_def is_terminal_def Let_def)
next
  case (completed r now)
  have "leased t" by (rule task_ok_live [OF assms(2) completed(2)])
  with completed show ?thesis by (auto simp: stamped_def complete_stamp_def leased_def)
qed (use assms in \<open>auto simp: stamped_def claim_stamp_def cancel_stamp_def reclaim_stamp_def unlink_results_def
    renew_stamp_def shorten_stamp_def task_ok_def unassigned_def\<close>)

interpretation stamps: row_invariant c "\<lambda>_. True" stamped for c
proof unfold_locales
  show "stamped t" if "newborn t" for t using that by (simp add: newborn_def stamped_def unassigned_def)
qed (auto intro: stamped_step)

text \<open>The path a status is reached by; a reclaimed task starts over, and its history is the attempt rows.\<close>

fun walked :: "string list \<Rightarrow> bool" where
  "walked (s # s' # ss) \<longleftrightarrow> check_transition s s' = Inr True \<and> walked (s' # ss)"
| "walked _ \<longleftrightarrow> True"

lemma timeline_states:
  assumes "task_ok t" "stamped t"
  shows "le_state (last (lifecycle t)) = tk_status t"
    and "tk_assigned_at t \<noteq> None \<or> tk_status t \<noteq> FAILED \<Longrightarrow> walked (map le_state (lifecycle t))"
proof -
  have st: "tk_status t \<in> {QUEUED, ASSIGNED, RUNNING, COMPLETED, FAILED, CANCELLED}"
    using assms(1) by (simp add: task_ok_def)
  have live: "live_status (tk_status t) \<Longrightarrow> leased t" by (rule task_ok_live [OF assms(1)])
  have facts: "tk_status t = QUEUED \<Longrightarrow> unassigned t" "tk_status t = RUNNING \<Longrightarrow> tk_started_at t \<noteq> None"
      "tk_status t = COMPLETED \<Longrightarrow> tk_started_at t \<noteq> None \<and> tk_completed_at t \<noteq> None"
    using assms(1) by (auto simp: task_ok_def)
  show "le_state (last (lifecycle t)) = tk_status t"
    using st live facts assms(2)
    by (auto simp: lifecycle_def entry_if_def stamped_def leased_def unassigned_def live_status_def split: option.splits)
  show "walked (map le_state (lifecycle t))" if "tk_assigned_at t \<noteq> None \<or> tk_status t \<noteq> FAILED"
    using that st live facts assms(2)
    by (auto simp: lifecycle_def entry_if_def stamped_def leased_def unassigned_def live_status_def check_transition_def
        ALLOWED_def TASK_STATES_def split: option.splits)
qed

lemma unlink_lifecycle: "lifecycle (unlink_results g t) = lifecycle t"
  by (auto simp: unlink_results_def lifecycle_def entry_if_def)

lemma unlink_none: "tk_result t = None \<Longrightarrow> unlink_results g t = t"
  by (simp add: unlink_results_def)

lemma finished_row_step:
  assumes r: "row_step c d t u" and "task_ok t" "tk_status t \<in> TERMINAL_STATES"
  shows "lifecycle u = lifecycle t \<and> tk_status u = tk_status t
    \<and> (tk_status t \<noteq> COMPLETED \<longrightarrow> u = t)"
proof -
  have dead: "\<not> live_status (tk_status t)" "tk_status t \<noteq> QUEUED"
    using assms(3) live_not_terminal [of "tk_status t"] by (auto simp: TERMINAL_STATES_def)
  have res: "tk_status t \<noteq> COMPLETED \<Longrightarrow> tk_result t = None"
    using assms(2) by (auto simp: task_ok_def)
  show ?thesis
    using r
  proof cases
    case (unlinked gone)
    then show ?thesis using res unlink_none by (simp add: unlink_lifecycle)
  next
    case (reclaimed now rnd)
    with dead show ?thesis by (simp add: overdue_def)
  qed (use dead in simp_all)
qed

subsection \<open>The properties\<close>

text \<open>
  C16: No endpoint of the operator does or shows anything without the admin secret. Whatever
  a call presents instead, the twelve task, policy and failure endpoints, the listing of the
  workers, the push and the revocation answer 401, or 429 from the rate limit, with a body
  that holds the one word of the refusal; if the presented or the stored secret has a
  character outside ASCII, the comparison raises instead, before anything is read. No table,
  token or claim is touched and nothing is published.
\<close>

theorem api_needs_secret:
  assumes "key \<noteq> sc_admin (fr_secrets fr)"
  shows "(presented header call = key \<and> serve fr header ip now call g = (a, h) \<longrightarrow>
      denied (fr_secrets fr) key a \<and> h = g\<lparr>gt_rate := gt_rate h\<rparr>)
    \<and> denied (fr_secrets fr) key (list_workers (fr_secrets fr) (fr_fmt fr) key now fl)
    \<and> (ps_secret push = key \<longrightarrow> denied (fr_secrets fr) key (fst (push_to_worker (fr_secrets fr) fresh stamp w push))
         \<and> snd (push_to_worker (fr_secrets fr) fresh stamp w push) = [])
    \<and> denied (fr_secrets fr) key (fst (revoke_worker (fr_secrets fr) key w now g))
    \<and> snd (revoke_worker (fr_secrets fr) key w now g) = g"
proof -
  note w = wrong_secret [OF assms]
  have "denied (fr_secrets fr) key a \<and> h = g\<lparr>gt_rate := gt_rate h\<rparr>"
    if "presented header call = key" "serve fr header ip now call g = (a, h)"
    using shut_out [of header call fr ip now g a h] that assms by (simp add: same_but_rate_def)
  moreover have "denied (fr_secrets fr) key (list_workers (fr_secrets fr) (fr_fmt fr) key now fl)"
    using w by (auto simp: list_workers_def denied_def [of _ _ "Inl TypeError"])
  moreover have "denied (fr_secrets fr) key (fst (push_to_worker (fr_secrets fr) fresh stamp w push))
      \<and> snd (push_to_worker (fr_secrets fr) fresh stamp w push) = []" if "ps_secret push = key"
    using w that by (auto simp: push_to_worker_def denied_def [of _ _ "Inl TypeError"])
  moreover have "denied (fr_secrets fr) key (fst (revoke_worker (fr_secrets fr) key w now g))
      \<and> snd (revoke_worker (fr_secrets fr) key w now g) = g"
    using w by (auto simp: revoke_worker_def denied_def [of _ _ "Inl TypeError"])
  ultimately show ?thesis by blast
qed

text \<open>
  C15: Every call of the operator's API is a sequence of the steps of the database, so what
  holds of the reachable databases holds whatever an operator does; and a call that is
  answered with an error, or raises one, or only reads, changes no table.
\<close>

theorem api_calls_are_steps:
  assumes "serve fr header ip now call g = (a, h)" "well_formed call"
    and "reachable (fr_settings fr) (gt_db g)"
  shows "(step (fr_settings fr))\<^sup>*\<^sup>* (gt_db g) (gt_db h) \<and> reachable (fr_settings fr) (gt_db h)
    \<and> (refused a \<or> read_only call \<longrightarrow> gt_db h = gt_db g)"
  using serve_steps [OF assms(1,2)] reachable_steps [OF assms(3)] by blast

text \<open>
  C17: The timeline of an inspection is honest: for every task of a reachable database it
  ends in the status the row has, and unless the reclaimer gave the task up each entry is a
  legal move from the one before it.
\<close>

theorem timeline_is_the_path:
  assumes "reachable c d" "find_task d i = Some t"
  shows "hd (map le_state (lifecycle t)) = QUEUED \<and> le_state (last (lifecycle t)) = tk_status t
    \<and> (tk_assigned_at t \<noteq> None \<or> tk_status t \<noteq> FAILED \<longrightarrow> walked (map le_state (lifecycle t)))"
proof -
  have "task_ok t" by (rule db_ok_find [OF reachable_ok [OF assms(1)] assms(2)])
  moreover have "stamped t"
    by (rule stamps.reachable_inv [OF assms(1)]) (use find_task_mem [OF assms(2)] in simp)
  ultimately show ?thesis using timeline_states by (auto simp: lifecycle_def)
qed

text \<open>
  A finished task is never written again: whatever runs afterwards, its timeline and
  status stay what they are, and the row of a failed or cancelled task does not change at
  all (so its updated_at is the moment it ended); of a completed one only the link to an
  expired result goes.
\<close>

theorem finished_timeline_frozen:
  assumes "reachable c d" "find_task d i = Some t" "tk_status t \<in> TERMINAL_STATES"
    and "(step c)\<^sup>*\<^sup>* d e"
  shows "\<exists>u. find_task e i = Some u \<and> lifecycle u = lifecycle t \<and> tk_status u = tk_status t
    \<and> (tk_status t \<noteq> COMPLETED \<longrightarrow> u = t)"
proof (rule row_along [OF assms(4,1,2)])
  show "lifecycle u = lifecycle t \<and> tk_status u = tk_status t \<and> (tk_status t \<noteq> COMPLETED \<longrightarrow> u = t)"
    if "row_step c d' v u" "task_ok v"
      "lifecycle v = lifecycle t \<and> tk_status v = tk_status t \<and> (tk_status t \<noteq> COMPLETED \<longrightarrow> v = t)"
    for d' v u
    using finished_row_step [OF that(1,2)] that(3) assms(3) by auto
qed simp

subsection \<open>A concrete call\<close>

definition ex_front :: front where
  "ex_front = \<lparr>fr_settings = default_settings, fr_secrets = ex_secrets, fr_coercion = strict_coercion,
     fr_fmt = (\<lambda>_. ''then''), fr_msg = (\<lambda>_. ''no''), fr_outcome = (\<lambda>_. ''no''), fr_instance = ''one''\<rparr>"

definition ex_desk :: gate where "ex_desk = gate_start ex_submitted"
definition ex_cancelled :: db where "ex_cancelled = set_task 10 (cancel_stamp 50) ex_submitted"

lemma ex_guess: "compare_digest ''guess'' ''root'' = Inr False" "compare_digest ''root'' ''root'' = Inr True"
  "is_ascii ''guess''" "is_ascii ''root''"
  by (simp_all add: compare_digest_def is_ascii_def)

lemma ex_cancel: "cancel_queued_task (uuid_str 10) 50 ex_submitted = Inr ((TRANSITIONED, Some QUEUED), ex_cancelled)"
  by (simp add: cancel_found [OF parse_uuid_str ex_submitted_task] ex_cancelled_def)

lemma ex_cancelled_reachable: "reachable default_settings ex_cancelled"
  by (rule reachable_step [OF ex_submitted_reachable cancel_step [OF ex_cancel]])

lemma ex_cancelled_task: "find_task ex_cancelled 10 = Some (cancel_stamp 50 (ex_task 10 5))"
  using ex_submitted_task by (simp add: ex_cancelled_def find_task_set_task cancel_stamp_def)

lemma ex_cancel_call: "fst (serve ex_front ''root'' ''ip'' 50 (Cancel (uuid_str 10)) ex_desk) =
    Inr \<lparr>re_status = 200, re_body = [(''task_id'', PStr (uuid_str 10)), (''status'', PStr ''CANCELLED''),
      (''previous_status'', PStr QUEUED)]\<rparr>"
  "gt_db (snd (serve ex_front ''root'' ''ip'' 50 (Cancel (uuid_str 10)) ex_desk)) = ex_cancelled"
  by (simp_all add: ex_front_def cancel_task_def guarded_def operator_guard_def fixed_window_limited_def kv_incr_def
      kv_get_def ex_desk_def gate_start_def verify_admin_secret_def ex_secrets_def ex_guess ex_cancel ok_body_def
      default_settings_def opt_py_def)

theorem api_needs_secret_witness:
  "denied ex_secrets ''guess'' (fst (serve ex_front ''guess'' ''ip'' 50 (Cancel (uuid_str 10)) ex_desk))
   \<and> gt_db (snd (serve ex_front ''guess'' ''ip'' 50 (Cancel (uuid_str 10)) ex_desk)) = ex_submitted
   \<and> denied ex_secrets ''guess'' (fst (revoke_worker ex_secrets ''guess'' (uuid_str 1) 50 ex_desk))"
proof -
  obtain a h where call: "serve ex_front ''guess'' ''ip'' 50 (Cancel (uuid_str 10)) ex_desk = (a, h)"
    by (metis surj_pair)
  have secret: "fr_secrets ex_front = ex_secrets" "sc_admin ex_secrets = ''root''"
    by (simp_all add: ex_front_def ex_secrets_def)
  have wrong: "''guess'' \<noteq> sc_admin (fr_secrets ex_front)" by (simp add: secret)
  note all = api_needs_secret [OF wrong, of "''guess''" "Cancel (uuid_str 10)" "''ip''" 50 ex_desk a h, unfolded secret(1)]
  have presented: "presented ''guess'' (Cancel (uuid_str 10)) = ''guess''" by simp
  have away: "denied ex_secrets ''guess'' a \<and> h = ex_desk\<lparr>gt_rate := gt_rate h\<rparr>"
    using conjunct1 [OF all] call presented by blast
  have "denied ex_secrets ''guess'' (fst (revoke_worker ex_secrets ''guess'' (uuid_str 1) 50 ex_desk))"
    by (rule conjunct1 [OF conjunct2 [OF conjunct2 [OF conjunct2 [OF all]]]])
  moreover have "same_but_rate ex_desk h" using away unfolding same_but_rate_def by blast
  then have "gt_db h = ex_submitted" by (simp add: same_but_rate_db ex_desk_def gate_start_def)
  ultimately show ?thesis using away unfolding call fst_conv snd_conv by blast
qed

theorem api_calls_are_steps_witness:
  "reachable default_settings (gt_db (snd (serve ex_front ''root'' ''ip'' 50 (Cancel (uuid_str 10)) ex_desk)))"
proof -
  obtain a h where call: "serve ex_front ''root'' ''ip'' 50 (Cancel (uuid_str 10)) ex_desk = (a, h)"
    by (metis surj_pair)
  have "reachable (fr_settings ex_front) (gt_db ex_desk)"
    using ex_submitted_reachable by (simp add: ex_front_def ex_desk_def gate_start_def)
  from api_calls_are_steps [OF call _ this] show ?thesis
    unfolding call snd_conv by (simp add: ex_front_def)
qed

theorem timeline_is_the_path_witness:
  "le_state (last (lifecycle ex_started_task)) = RUNNING \<and> walked (map le_state (lifecycle ex_started_task))"
  using timeline_is_the_path [OF ex_started_reachable ex_started_find] by simp

theorem finished_timeline_frozen_witness:
  "find_task (write_status 1 ONLINE 60 ex_cancelled) 10 = Some (cancel_stamp 50 (ex_task 10 5))"
proof -
  have "(step default_settings)\<^sup>*\<^sup>* ex_cancelled (write_status 1 ONLINE 60 ex_cancelled)"
    by (rule r_into_rtranclp) (rule worker_status_step)
  moreover have "tk_status (cancel_stamp 50 (ex_task 10 5)) = CANCELLED" by (simp add: cancel_stamp_def)
  ultimately show ?thesis
    using finished_timeline_frozen [OF ex_cancelled_reachable ex_cancelled_task] by (auto simp: TERMINAL_STATES_def)
qed

end
