(* ===== verification/Executors.thy ===== *)
theory Executors
  imports TaskTypes Results
begin

text \<open>
  \<open>worker/executors.py\<close>: the four workloads a worker runs. An executor is a chunked
  loop that looks at a cancel flag between chunks and leaves a fraction in a slot. The
  flag is the function \<open>cancel\<close> from the number of the look to what it saw (\<open>None\<close> in the
  source is the constantly false one), the writes to the slot are collected in a list, and
  the last of them is what an observer sees. The digest is a parameter; so is how much
  longer than asked each \<open>time.sleep\<close> took. \<open>None\<close> is a run that never returns.
\<close>

datatype exec_exn =
    UnsupportedTaskType string
  | ExecutionCancelled
  | InvalidExecutionParameters string
  | Escaped exn

definition HASH_CHUNK_ROUNDS :: int where "HASH_CHUNK_ROUNDS = 100000"
definition COUNT_CHUNK :: int where "COUNT_CHUNK = 1000000"
definition SLEEP_SLICE_SECONDS :: rat where "SLEEP_SLICE_SECONDS = 1 / 2"
definition MAX_DECODED_BYTES :: nat where "MAX_DECODED_BYTES = 64 * 1024"
definition FINGERPRINT_HEX_CHARS :: nat where "FINGERPRINT_HEX_CHARS = 12"

type_synonym 'a run = "((exec_exn + 'a) \<times> rat list) option"

definition report_fraction :: "rat \<Rightarrow> rat" where
  "report_fraction fraction = min 1 fraction"

definition exec_int :: "pydict \<Rightarrow> string \<Rightarrow> exec_exn + int" where
  "exec_int parameters key = (case dict_get parameters key of
      PInt n \<Rightarrow> if n < 1 then Inl (InvalidExecutionParameters key) else Inr n
    | _ \<Rightarrow> Inl (InvalidExecutionParameters key))"

fun not_positive :: "pyfloat \<Rightarrow> bool" where
  "not_positive (Fin r) \<longleftrightarrow> r \<le> 0"
| "not_positive NegInf \<longleftrightarrow> True"
| "not_positive _ \<longleftrightarrow> False"

definition exec_number :: "pydict \<Rightarrow> string \<Rightarrow> exec_exn + pyfloat" where
  "exec_number parameters key = (case dict_get parameters key of
      PInt n \<Rightarrow> if n \<le> 0 then Inl (InvalidExecutionParameters key)
                else (case float_of_int n of Inl e \<Rightarrow> Inl (Escaped e) | Inr x \<Rightarrow> Inr x)
    | PFloat x \<Rightarrow> if not_positive x then Inl (InvalidExecutionParameters key) else Inr x
    | _ \<Rightarrow> Inl (InvalidExecutionParameters key))"

subsection \<open>The chunk loops\<close>

function count_loop :: "(nat \<Rightarrow> bool) \<Rightarrow> int \<Rightarrow> nat \<Rightarrow> int \<Rightarrow> int \<Rightarrow> rat list \<Rightarrow> (exec_exn + int) \<times> rat list" where
  "count_loop cancel n k sofar made ps =
     (if \<not> made < n then (Inr sofar, ps)
      else if cancel k then (Inl ExecutionCancelled, ps)
      else let portion = min COUNT_CHUNK (n - made)
           in count_loop cancel n (Suc k) (((\<lambda>x. x + 1) ^^ nat portion) sofar) (made + portion)
                (ps @ [report_fraction (of_int (made + portion) / of_int n)]))"
  by pat_completeness auto
termination
  by (relation "measure (\<lambda>(cancel, n, k, sofar, made, ps). nat (n - made))") (auto simp: COUNT_CHUNK_def)

definition run_count_to_n :: "(nat \<Rightarrow> bool) \<Rightarrow> pydict \<Rightarrow> pyval run" where
  "run_count_to_n cancel parameters = Some (case exec_int parameters ''n'' of
      Inl e \<Rightarrow> (Inl e, [])
    | Inr n \<Rightarrow> (case count_loop cancel n 0 0 0 [] of (r, ps) \<Rightarrow> (map_sum id PInt r, ps)))"

type_synonym digest = "string \<Rightarrow> nat list \<Rightarrow> nat list"

function hash_loop ::
  "(nat list \<Rightarrow> nat list) \<Rightarrow> (nat \<Rightarrow> bool) \<Rightarrow> int \<Rightarrow> nat \<Rightarrow> nat list \<Rightarrow> int \<Rightarrow> rat list
     \<Rightarrow> (exec_exn + nat list) \<times> rat list" where
  "hash_loop h cancel rounds k digest made ps =
     (if \<not> made < rounds then (Inr digest, ps)
      else if cancel k then (Inl ExecutionCancelled, ps)
      else let portion = min HASH_CHUNK_ROUNDS (rounds - made)
           in hash_loop h cancel rounds (Suc k) ((h ^^ nat portion) digest) (made + portion)
                (ps @ [report_fraction (of_int (made + portion) / of_int rounds)]))"
  by pat_completeness auto
termination
  by (relation "measure (\<lambda>(h, cancel, rounds, k, digest, made, ps). nat (rounds - made))")
    (auto simp: HASH_CHUNK_ROUNDS_def)

definition hex_text :: "nat list \<Rightarrow> string" where
  "hex_text bytes = concat (map (\<lambda>b. [hex_char (b div 16), hex_char (b mod 16)]) bytes)"

definition hash_seed :: "nat list" where "hash_seed = replicate 32 0"

definition run_hash_rounds :: "digest \<Rightarrow> (nat \<Rightarrow> bool) \<Rightarrow> pydict \<Rightarrow> pyval run" where
  "run_hash_rounds new cancel parameters = Some (case exec_int parameters ''rounds'' of
      Inl e \<Rightarrow> (Inl e, [])
    | Inr rounds \<Rightarrow> (case dict_get_default parameters ''algorithm'' (PStr ''sha256'') of
          PStr algorithm \<Rightarrow>
            if algorithm \<notin> set [''sha256'', ''sha512''] then (Inl (InvalidExecutionParameters ''algorithm''), [])
            else (case hash_loop (new algorithm) cancel rounds 0 hash_seed 0 [] of
                (r, ps) \<Rightarrow> (map_sum id (\<lambda>d. PStr (hex_text d)) r, ps))
        | _ \<Rightarrow> (Inl (InvalidExecutionParameters ''algorithm''), [])))"

text \<open>
  \<open>seconds - elapsed\<close> and the fraction of an infinite or undefined duration: the loop
  sleeps full slices and never sees the end.
\<close>

fun slept_enough :: "pyfloat \<Rightarrow> rat \<Rightarrow> bool" where
  "slept_enough (Fin r) elapsed \<longleftrightarrow> r - elapsed \<le> 0"
| "slept_enough NegInf elapsed \<longleftrightarrow> True"
| "slept_enough _ elapsed \<longleftrightarrow> False"

fun next_slice :: "pyfloat \<Rightarrow> rat \<Rightarrow> rat" where
  "next_slice (Fin r) elapsed = min SLEEP_SLICE_SECONDS (r - elapsed)"
| "next_slice _ elapsed = SLEEP_SLICE_SECONDS"

fun slept_fraction :: "pyfloat \<Rightarrow> rat \<Rightarrow> rat" where
  "slept_fraction (Fin r) elapsed = elapsed / r"
| "slept_fraction NaN elapsed = 1"
| "slept_fraction _ elapsed = 0"

partial_function (option) sleep_loop ::
  "(nat \<Rightarrow> rat) \<Rightarrow> (nat \<Rightarrow> bool) \<Rightarrow> pyfloat \<Rightarrow> nat \<Rightarrow> rat \<Rightarrow> rat list \<Rightarrow> rat run" where
  "sleep_loop lag cancel seconds k elapsed ps =
     (if cancel k then Some (Inl ExecutionCancelled, ps)
      else if slept_enough seconds elapsed then Some (Inr elapsed, ps)
      else let later = elapsed + next_slice seconds elapsed + max 0 (lag k)
           in sleep_loop lag cancel seconds (Suc k) later (ps @ [report_fraction (slept_fraction seconds later)]))"

definition run_sleep :: "(nat \<Rightarrow> rat) \<Rightarrow> (nat \<Rightarrow> bool) \<Rightarrow> pydict \<Rightarrow> pyval run" where
  "run_sleep lag cancel parameters = (case exec_number parameters ''seconds'' of
      Inl e \<Rightarrow> Some (Inl e, [])
    | Inr seconds \<Rightarrow> map_option (\<lambda>r. case r of
          (Inl e, ps) \<Rightarrow> (Inl e, ps)
        | (Inr elapsed, ps) \<Rightarrow> (Inr (PFloat (round3 (Fin elapsed))), ps @ [report_fraction 1]))
        (sleep_loop lag cancel seconds 0 0 []))"

definition run_opaque_payload :: "(nat \<Rightarrow> bool) \<Rightarrow> pydict \<Rightarrow> pyval run" where
  "run_opaque_payload cancel parameters = Some (case dict_get parameters ''payload_b64'' of
      PStr raw_b64 \<Rightarrow>
        if cancel 0 then (Inl ExecutionCancelled, [])
        else (case b64_decode raw_b64 of
            None \<Rightarrow> (Inl (InvalidExecutionParameters ''payload_b64''), [])
          | Some raw \<Rightarrow>
              if length raw > MAX_DECODED_BYTES then (Inl (InvalidExecutionParameters ''payload_b64''), [])
              else (Inr (PStr (b64_encode raw)), [report_fraction 1]))
    | _ \<Rightarrow> (Inl (InvalidExecutionParameters ''payload_b64''), []))"

subsection \<open>Dispatch\<close>

record machine =
  ma_digest :: digest
  ma_lag :: "nat \<Rightarrow> rat"

definition EXECUTORS :: "(string \<times> (machine \<Rightarrow> (nat \<Rightarrow> bool) \<Rightarrow> pydict \<Rightarrow> pyval run)) list" where
  "EXECUTORS = [(''count_to_n'', \<lambda>ma. run_count_to_n), (''hash_rounds'', \<lambda>ma. run_hash_rounds (ma_digest ma)),
     (''sleep'', \<lambda>ma. run_sleep (ma_lag ma)), (''opaque_payload'', \<lambda>ma. run_opaque_payload)]"

definition execute :: "machine \<Rightarrow> string \<Rightarrow> pydict option \<Rightarrow> (nat \<Rightarrow> bool) \<Rightarrow> pyval run" where
  "execute ma task_type parameters cancel = (case map_of EXECUTORS task_type of
      None \<Rightarrow> Some (Inl (UnsupportedTaskType task_type), [])
    | Some executor \<Rightarrow> executor ma cancel (case parameters of None \<Rightarrow> [] | Some d \<Rightarrow> d))"

definition fingerprint :: "(string \<Rightarrow> string) \<Rightarrow> (pyval \<Rightarrow> string) \<Rightarrow> pyval \<Rightarrow> string" where
  "fingerprint sha256_hex canonical_json result = take FINGERPRINT_HEX_CHARS (sha256_hex (canonical_json result))"

end
