(* ===== verification/ExecutorProperties.thy ===== *)
theory ExecutorProperties
  imports Executors
begin

text \<open>
  What the executors compute. The two chunk loops are one loop over different steps, and
  the interface \<open>chunked\<close> says what any such loop does: the whole number of steps, an end
  at the first look that sees the flag, fractions that reach one.
\<close>

locale chunked =
  fixes chunk :: int and f :: "'a \<Rightarrow> 'a" and cancel :: "nat \<Rightarrow> bool" and n :: int
    and loop :: "nat \<Rightarrow> 'a \<Rightarrow> int \<Rightarrow> rat list \<Rightarrow> (exec_exn + 'a) \<times> rat list"
  assumes some_progress: "1 \<le> chunk"
    and unfold_loop: "loop k x made ps =
      (if \<not> made < n then (Inr x, ps)
       else if cancel k then (Inl ExecutionCancelled, ps)
       else let portion = min chunk (n - made)
            in loop (Suc k) ((f ^^ nat portion) x) (made + portion)
                 (ps @ [report_fraction (of_int (made + portion) / of_int n)]))"
begin

lemma loop_stop: "n \<le> made \<Longrightarrow> loop k x made ps = (Inr x, ps)"
  by (simp add: unfold_loop)

lemma loop_halt: "made < n \<Longrightarrow> cancel k \<Longrightarrow> loop k x made ps = (Inl ExecutionCancelled, ps)"
  by (simp add: unfold_loop)

lemma loop_go: "made < n \<Longrightarrow> \<not> cancel k \<Longrightarrow> loop k x made ps =
    loop (Suc k) ((f ^^ nat (min chunk (n - made))) x) (made + min chunk (n - made))
      (ps @ [report_fraction (of_int (made + min chunk (n - made)) / of_int n)])"
  by (subst unfold_loop) (simp add: Let_def)

lemma loop_induct [case_names stop halt go]:
  assumes "\<And>k x made ps. n \<le> made \<Longrightarrow> P k x made ps"
    and "\<And>k x made ps. made < n \<Longrightarrow> cancel k \<Longrightarrow> P k x made ps"
    and "\<And>k x made ps. made < n \<Longrightarrow> \<not> cancel k \<Longrightarrow>
      P (Suc k) ((f ^^ nat (min chunk (n - made))) x) (made + min chunk (n - made))
        (ps @ [report_fraction (of_int (made + min chunk (n - made)) / of_int n)]) \<Longrightarrow> P k x made ps"
  shows "P k x made ps"
proof (induction "nat (n - made)" arbitrary: k x made ps rule: less_induct)
  case less
  show ?case
  proof (cases "made < n \<and> \<not> cancel k")
    case True
    then have "0 < min chunk (n - made)" using some_progress by simp
    then have "nat (n - (made + min chunk (n - made))) < nat (n - made)" using True by simp
    from less [OF this] show ?thesis by (rule assms(3) [OF conjunct1 [OF True] conjunct2 [OF True]])
  next
    case False
    show ?thesis
    proof (cases "made < n")
      case True
      with False show ?thesis by (intro assms(2)) simp_all
    next
      case False
      then show ?thesis by (intro assms(1)) simp
    qed
  qed
qed

lemma steps_done:
  "made \<le> n \<Longrightarrow> fst (loop k x made ps) \<in> {Inr ((f ^^ nat (n - made)) x), Inl ExecutionCancelled}
     \<and> ((\<forall>j. \<not> cancel j) \<longrightarrow> fst (loop k x made ps) = Inr ((f ^^ nat (n - made)) x))"
proof (induction k x made ps rule: loop_induct)
  case (stop k x made ps)
  then show ?case using loop_stop by simp
next
  case (halt k x made ps)
  then show ?case using loop_halt by auto
next
  case (go k x made ps)
  let ?p = "min chunk (n - made)"
  have "nat (n - made) = nat (n - (made + ?p)) + nat ?p" using go(1) some_progress by auto
  then have "(f ^^ nat (n - made)) x = (f ^^ nat (n - (made + ?p))) ((f ^^ nat ?p) x)"
    by (simp add: funpow_add)
  with go(3) loop_go [OF go(1,2), of x ps] show ?case by auto
qed

lemma prompt:
  "\<forall>j \<ge> j0. cancel j \<Longrightarrow> length (snd (loop k x made ps)) \<le> length ps + (j0 - k)"
proof (induction k x made ps rule: loop_induct)
  case (stop k x made ps)
  then show ?case using loop_stop by simp
next
  case (halt k x made ps)
  then show ?case using loop_halt by simp
next
  case (go k x made ps)
  then have "k < j0" by (meson not_le)
  then have e: "Suc (length ps) + (j0 - Suc k) = length ps + (j0 - k)" by simp
  from go(3) [OF go.prems] have "length (snd (loop k x made ps)) \<le> Suc (length ps) + (j0 - Suc k)"
    unfolding loop_go [OF go(1,2), of x ps] length_append_singleton .
  then show ?case unfolding e .
qed

lemma fractions:
  assumes "0 < n"
  shows "0 \<le> made \<Longrightarrow> set ps \<subseteq> {0..1} \<Longrightarrow> set (snd (loop k x made ps)) \<subseteq> {0..1}
     \<and> (made < n \<and> (\<forall>j. \<not> cancel j) \<longrightarrow> snd (loop k x made ps) \<noteq> [] \<and> last (snd (loop k x made ps)) = 1)"
proof (induction k x made ps rule: loop_induct)
  case (stop k x made ps)
  then show ?case using loop_stop by simp
next
  case (halt k x made ps)
  then show ?case using loop_halt by auto
next
  case (go k x made ps)
  let ?p = "min chunk (n - made)"
  let ?q = "report_fraction (of_int (made + ?p) / of_int n)"
  have p: "0 \<le> made + ?p" using go(1) go.prems(1) some_progress by simp
  then have "(0 :: rat) \<le> of_int (made + ?p) / of_int n"
    using assms by (intro divide_nonneg_pos) simp_all
  then have "?q \<in> {0..1}" by (simp add: report_fraction_def)
  then have IH: "set (snd (loop k x made ps)) \<subseteq> {0..1}
     \<and> (made + ?p < n \<and> (\<forall>j. \<not> cancel j) \<longrightarrow> snd (loop k x made ps) \<noteq> [] \<and> last (snd (loop k x made ps)) = 1)"
    using go(3) [OF p] go.prems(2) loop_go [OF go(1,2), of x ps] by simp
  have "snd (loop k x made ps) = ps @ [1]" if "\<not> made + ?p < n"
  proof -
    have "made + ?p = n" using that go(1) by (simp add: min_def split: if_splits)
    then show ?thesis
      using loop_go [OF go(1,2), of x ps] loop_stop [of n] assms by (simp add: report_fraction_def)
  qed
  with IH show ?case by fastforce
qed

end

interpretation counting: chunked COUNT_CHUNK "\<lambda>x. x + 1" cancel n "count_loop cancel n"
  for cancel :: "nat \<Rightarrow> bool" and n :: int
  by unfold_locales (simp add: COUNT_CHUNK_def, rule count_loop.simps)

interpretation hashing: chunked HASH_CHUNK_ROUNDS h cancel n "hash_loop h cancel n"
  for h :: "nat list \<Rightarrow> nat list" and cancel :: "nat \<Rightarrow> bool" and n :: int
  by unfold_locales (simp add: HASH_CHUNK_ROUNDS_def, rule hash_loop.simps)

subsection \<open>Sleeping\<close>

text \<open>A finite duration is slept out: the loop returns, and never early.\<close>

lemma slice_half: "0 < r - elapsed \<Longrightarrow> \<not> 0 < r - (elapsed + next_slice (Fin r) elapsed + max 0 x) \<or>
    r - (elapsed + next_slice (Fin r) elapsed + max 0 x) \<le> r - elapsed - 1 / 2"
  by (auto simp: SLEEP_SLICE_SECONDS_def min_def max_def)

lemma sleep_returns:
  assumes "0 < r"
  shows "r - elapsed \<le> rat_of_nat m / 2 \<Longrightarrow> 0 \<le> elapsed \<Longrightarrow> set ps \<subseteq> {0..1} \<Longrightarrow>
    \<exists>res qs. sleep_loop lag cancel (Fin r) k elapsed ps = Some (res, qs) \<and> set qs \<subseteq> {0..1}
      \<and> (\<forall>x. res = Inr x \<longrightarrow> r \<le> x) \<and> (\<forall>e. res = Inl e \<longrightarrow> e = ExecutionCancelled)
      \<and> ((\<forall>j. \<not> cancel j) \<longrightarrow> (\<exists>x. res = Inr x))
      \<and> ((\<forall>j \<ge> j0. cancel j) \<longrightarrow> length qs \<le> length ps + (j0 - k))"
proof (induction m arbitrary: k elapsed ps)
  case 0
  then show ?case by (subst sleep_loop.simps) auto
next
  case (Suc m)
  consider "cancel k" | "\<not> cancel k" "r - elapsed \<le> 0" | "\<not> cancel k" "0 < r - elapsed" by linarith
  then show ?case
  proof cases
    case 3
    let ?e = "elapsed + next_slice (Fin r) elapsed + max 0 (lag k)"
    let ?ps = "ps @ [report_fraction (slept_fraction (Fin r) ?e)]"
    have loop: "sleep_loop lag cancel (Fin r) k elapsed ps = sleep_loop lag cancel (Fin r) (Suc k) ?e ?ps"
      by (subst sleep_loop.simps) (use 3 in \<open>simp add: Let_def\<close>)
    have e: "0 \<le> ?e" using Suc.prems(2) 3 by (simp add: SLEEP_SLICE_SECONDS_def)
    have close: "r - ?e \<le> rat_of_nat m / 2"
    proof -
      have "rat_of_nat (Suc m) / 2 = rat_of_nat m / 2 + 1 / 2" "0 \<le> rat_of_nat m / 2"
        by (simp_all add: field_simps)
      with slice_half [OF 3(2), of "lag k"] Suc.prems(1) show ?thesis by linarith
    qed
    have "set ?ps \<subseteq> {0..1}"
      using e Suc.prems(3) assms by (simp add: report_fraction_def)
    from Suc.IH [OF close e this, of "Suc k"] show ?thesis
    proof (elim exE conjE)
      fix res qs
      assume r: "sleep_loop lag cancel (Fin r) (Suc k) ?e ?ps = Some (res, qs)" "set qs \<subseteq> {0..1}"
        "\<forall>x. res = Inr x \<longrightarrow> r \<le> x" "\<forall>e. res = Inl e \<longrightarrow> e = ExecutionCancelled"
        "(\<forall>j. \<not> cancel j) \<longrightarrow> (\<exists>x. res = Inr x)"
        "(\<forall>j \<ge> j0. cancel j) \<longrightarrow> length qs \<le> length ?ps + (j0 - Suc k)"
      have "length ?ps + (j0 - Suc k) = length ps + (j0 - k)" if "\<forall>j \<ge> j0. cancel j"
        using that 3(1) not_le [of j0 k] by auto
      then have "(\<forall>j \<ge> j0. cancel j) \<longrightarrow> length qs \<le> length ps + (j0 - k)" using r(6) by (metis (no_types))
      with r(1-5) show ?thesis unfolding loop by blast
    qed
  next
    case 1
    with Suc.prems show ?thesis by (subst sleep_loop.simps) auto
  next
    case 2
    with Suc.prems show ?thesis by (subst sleep_loop.simps) auto
  qed
qed

lemma sleep_terminates:
  assumes "0 < r"
  obtains res qs where "sleep_loop lag cancel (Fin r) 0 0 [] = Some (res, qs)" "set qs \<subseteq> {0..1}"
    "\<And>x. res = Inr x \<Longrightarrow> r \<le> x" "\<And>e. res = Inl e \<Longrightarrow> e = ExecutionCancelled"
    "(\<forall>j. \<not> cancel j) \<Longrightarrow> \<exists>x. res = Inr x" "(\<forall>j \<ge> j0. cancel j) \<Longrightarrow> length qs \<le> j0"
proof -
  obtain m where "2 * r < rat_of_nat m" using reals_Archimedean2 by blast
  then have "r - 0 \<le> rat_of_nat m / 2" by simp
  have "(0 :: rat) \<le> 0" "set [] \<subseteq> {0 .. 1 :: rat}" by simp_all
  from sleep_returns [OF assms \<open>r - 0 \<le> rat_of_nat m / 2\<close> this, of lag cancel 0 j0] show ?thesis
  proof (elim exE conjE)
    fix res qs
    assume r: "sleep_loop lag cancel (Fin r) 0 0 [] = Some (res, qs)" "set qs \<subseteq> {0..1}"
      "\<forall>x. res = Inr x \<longrightarrow> r \<le> x" "\<forall>e. res = Inl e \<longrightarrow> e = ExecutionCancelled"
      "(\<forall>j. \<not> cancel j) \<longrightarrow> (\<exists>x. res = Inr x)"
      "(\<forall>j \<ge> j0. cancel j) \<longrightarrow> length qs \<le> length ([] :: rat list) + (j0 - 0)"
    show thesis by (rule that [OF r(1,2)]) (use r(3-6) in simp_all)
  qed
qed

subsection \<open>What the coordinator admits, a worker can run\<close>

lemma round_half_even_near: "x - 1 / 2 \<le> rat_of_int (round_half_even x)"
proof -
  have "rat_of_int \<lfloor>x\<rfloor> \<le> x" "x < rat_of_int \<lfloor>x\<rfloor> + 1" by linarith+
  then show ?thesis by (auto simp: round_half_even_def Let_def)
qed

lemma b64_val_less: "b64_val c = Some n \<Longrightarrow> n < 64"
  using distinct_alphabet(2) by (auto simp: b64_val_def dest!: map_of_SomeD set_zip_rightD)

lemma b64_decode_bound: "b64_decode s = Some bs \<Longrightarrow> \<forall>b \<in> set bs. b < 256"
proof (induction s arbitrary: bs rule: b64_decode.induct)
  case (2 p q r s cs)
  have b1: "i * 4 + j div 16 < 256" if "i < 64" "j < 64" for i j :: nat
    using b64_sextet [of i 6 "j div 16" 2] that by (simp add: less_mult_imp_div_less)
  have b2: "j mod 16 * 16 + k div 4 < 256" if "k < 64" for j k :: nat
    using b64_sextet [of "j mod 16" 4 "k div 4" 4] that by (simp add: less_mult_imp_div_less)
  have b3: "k mod 4 * 64 + l < 256" if "l < 64" for k l :: nat
    using b64_sextet [of "k mod 4" 2 l 6] that by simp
  show ?case
    using "2.prems" "2.IH" by (auto split: option.splits if_splits dest!: b64_val_less intro: b1 b2 b3)
qed auto

text \<open>The answer each type is known to have.\<close>

definition known_answer :: "machine \<Rightarrow> string \<Rightarrow> pydict \<Rightarrow> pyval \<Rightarrow> bool" where
  "known_answer ma ty d v \<longleftrightarrow>
     (ty = ''count_to_n'' \<and> v = dict_get d ''n'')
   \<or> (ty = ''hash_rounds'' \<and> (\<exists>n a. dict_get d ''rounds'' = PInt n \<and> dict_get d ''algorithm'' = PStr a
        \<and> v = PStr (hex_text ((ma_digest ma a ^^ nat n) hash_seed))))
   \<or> (ty = ''sleep'' \<and> (\<exists>r x. dict_get d ''seconds'' = PFloat (Fin r) \<and> v = PFloat (Fin x) \<and> r - 1 / 2000 \<le> x))
   \<or> (ty = ''opaque_payload'' \<and> (\<exists>s t. dict_get d ''payload_b64'' = PStr s \<and> v = PStr t
        \<and> b64_decode t = b64_decode s))"

lemma execute_simps:
  "execute ma ''count_to_n'' (Some d) cancel = run_count_to_n cancel d"
  "execute ma ''hash_rounds'' (Some d) cancel = run_hash_rounds (ma_digest ma) cancel d"
  "execute ma ''sleep'' (Some d) cancel = run_sleep (ma_lag ma) cancel d"
  "execute ma ''opaque_payload'' (Some d) cancel = run_opaque_payload cancel d"
  by (simp_all add: execute_def EXECUTORS_def)

lemma run_count:
  assumes "1 \<le> n"
  shows "run_count_to_n cancel [(''n'', PInt n)] = Some (map_sum id PInt (fst (count_loop cancel n 0 0 0 [])),
      snd (count_loop cancel n 0 0 0 []))"
  using assms by (simp add: run_count_to_n_def exec_int_def dict_get_def split: prod.splits)

lemma run_hash:
  assumes "1 \<le> n" "a \<in> {''sha256'', ''sha512''}"
  shows "run_hash_rounds new cancel [(''rounds'', PInt n), (''algorithm'', PStr a)] =
    Some (map_sum id (\<lambda>d. PStr (hex_text d)) (fst (hash_loop (new a) cancel n 0 hash_seed 0 [])),
      snd (hash_loop (new a) cancel n 0 hash_seed 0 []))"
  using assms by (auto simp: run_hash_rounds_def exec_int_def dict_get_def dict_get_default_def split: prod.splits)

lemma count_steps: "0 \<le> n \<Longrightarrow> ((\<lambda>x. x + 1) ^^ nat n) 0 = (n :: int)"
proof -
  have "((\<lambda>x. x + 1) ^^ m) 0 = int m" for m by (induction m) auto
  then show "0 \<le> n \<Longrightarrow> ?thesis" by simp
qed

lemma sleep_answer:
  assumes "r \<le> x"
  shows "known_answer ma ''sleep'' [(''seconds'', PFloat (Fin r))] (PFloat (round3 (Fin x)))"
proof -
  have "r - 1 / 2000 \<le> rat_of_int (round_half_even (x * 1000)) / 1000"
    using round_half_even_near [of "x * 1000"] assms by (simp add: field_simps)
  then show ?thesis
    unfolding known_answer_def round3.simps
    by (intro disjI2 disjI1 conjI exI [of _ r] exI [of _ "rat_of_int (round_half_even (x * 1000)) / 1000"])
      (simp_all add: dict_get_def)
qed

lemma runs_to_the_end:
  assumes "well_formed_parameters ty d"
  shows "\<exists>v ps. execute ma ty (Some d) (\<lambda>_. False) = Some (Inr v, ps) \<and> known_answer ma ty d v
    \<and> set ps \<subseteq> {0..1} \<and> ps \<noteq> [] \<and> last ps = 1"
  using assms unfolding well_formed_parameters_def
proof (elim disjE exE conjE)
  fix n assume d: "ty = ''count_to_n''" "d = [(''n'', PInt n)]" "1 \<le> n"
  show ?thesis
    using counting.steps_done [of 0 n "\<lambda>_. False" 0 0 "[]"] counting.fractions [of n 0 "[]" "\<lambda>_. False" 0 0] d
    by (simp add: execute_simps run_count known_answer_def dict_get_def count_steps)
next
  fix n a assume d: "ty = ''hash_rounds''" "d = [(''rounds'', PInt n), (''algorithm'', PStr a)]" "1 \<le> n"
    "a \<in> {''sha256'', ''sha512''}"
  show ?thesis
    using hashing.steps_done [of 0 n "ma_digest ma a" "\<lambda>_. False" 0 hash_seed "[]"]
      hashing.fractions [of n 0 "[]" "ma_digest ma a" "\<lambda>_. False" 0 hash_seed] d(3)
    unfolding d(1,2) by (simp add: execute_simps run_hash [OF d(3,4)] known_answer_def dict_get_def)
next
  fix r assume d: "ty = ''sleep''" "d = [(''seconds'', PFloat (Fin r))]" "0 < r"
  obtain x qs where s: "sleep_loop (ma_lag ma) (\<lambda>_. False) (Fin r) 0 0 [] = Some (Inr x, qs)"
      "set qs \<subseteq> {0..1}" "r \<le> x"
    using sleep_terminates [OF d(3), of "ma_lag ma" "\<lambda>_. False" 0] by (metis (no_types, lifting))
  have "known_answer ma ty d (PFloat (round3 (Fin x)))"
    unfolding d(1,2) using s(3) by (rule sleep_answer)
  with s d show ?thesis
    by (simp add: execute_simps run_sleep_def exec_number_def dict_get_def report_fraction_def)
next
  fix s raw assume d: "ty = ''opaque_payload''" "d = [(''payload_b64'', PStr s)]" "b64_decode s = Some raw"
    "length raw \<le> MAX_OPAQUE_PAYLOAD_BYTES"
  then show ?thesis
    using b64_decode_encode [OF b64_decode_bound [OF d(3)]]
    by (simp add: execute_simps run_opaque_payload_def dict_get_def known_answer_def report_fraction_def
        MAX_OPAQUE_PAYLOAD_BYTES_def MAX_DECODED_BYTES_def)
qed

definition ex_machine :: machine where
  "ex_machine = \<lparr>ma_digest = (\<lambda>a bytes. bytes), ma_lag = (\<lambda>_. 0)\<rparr>"

text \<open>
  C11: What the coordinator admits, a worker can run: for every parameter object the
  registry of the coordinator has validated, the executor of the type returns (the sleep
  loop too, however long each slice takes) with the answer the type is known to have, and
  raises nothing; the progress it shows stays between 0 and 1 and ends at 1. So the two
  registries, which share no code, agree.
\<close>

theorem validated_parameters_execute:
  assumes "validate_parameters co ty p = Inr d"
  shows "\<exists>v ps. execute ma ty (Some d) (\<lambda>_. False) = Some (Inr v, ps) \<and> known_answer ma ty d v
    \<and> set ps \<subseteq> {0..1} \<and> ps \<noteq> [] \<and> last ps = 1"
  by (rule runs_to_the_end [OF validated_well_formed [OF assms]])

theorem validated_parameters_execute_witness:
  "\<exists>ps. execute ex_machine ''count_to_n'' (Some [(''n'', PInt 7)]) (\<lambda>_. False) = Some (Inr (PInt 7), ps) \<and> last ps = 1"
proof -
  have "validate_parameters strict_coercion ''count_to_n'' (Some [(''n'', PInt 7)]) = Inr [(''n'', PInt 7)]"
    by (simp add: validate_parameters_def strict_CountToN)
  from validated_parameters_execute [OF this, of ex_machine] show ?thesis
    by (auto simp: known_answer_def dict_get_def)
qed

text \<open>
  C14: Cancellation is prompt and is never mistaken for a result that did not finish: an
  execution whose flag stays set from look number j on returns after at most j
  further chunks (one more report for the end of a sleep that had just finished), with the
  known answer or with ExecutionCancelled.
\<close>

theorem cancellation_is_prompt:
  assumes "validate_parameters co ty p = Inr d" and "\<forall>k \<ge> j. cancel k"
  shows "\<exists>r ps. execute ma ty (Some d) cancel = Some (r, ps) \<and> length ps \<le> j + 1
    \<and> (r = Inl ExecutionCancelled \<or> (\<exists>v. r = Inr v \<and> known_answer ma ty d v))"
  using validated_well_formed [OF assms(1)] unfolding well_formed_parameters_def
proof (elim disjE exE conjE)
  fix n assume d: "ty = ''count_to_n''" "d = [(''n'', PInt n)]" "1 \<le> n"
  show ?thesis
    using counting.steps_done [of 0 n cancel 0 0 "[]"] counting.prompt [OF assms(2), of n 0 0 0 "[]"] d
    by (auto simp: execute_simps run_count known_answer_def dict_get_def count_steps)
next
  fix n a assume d: "ty = ''hash_rounds''" "d = [(''rounds'', PInt n), (''algorithm'', PStr a)]" "1 \<le> n"
    "a \<in> {''sha256'', ''sha512''}"
  show ?thesis
    using hashing.steps_done [of 0 n "ma_digest ma a" cancel 0 hash_seed "[]"] d(3)
      hashing.prompt [OF assms(2), of "ma_digest ma a" n 0 hash_seed 0 "[]"]
    unfolding d(1,2) by (auto simp: execute_simps run_hash [OF d(3,4)] known_answer_def dict_get_def)
next
  fix r assume d: "ty = ''sleep''" "d = [(''seconds'', PFloat (Fin r))]" "0 < r"
  obtain res qs where s: "sleep_loop (ma_lag ma) cancel (Fin r) 0 0 [] = Some (res, qs)"
      "\<And>x. res = Inr x \<Longrightarrow> r \<le> x" "\<And>e. res = Inl e \<Longrightarrow> e = ExecutionCancelled" "length qs \<le> j"
    using sleep_terminates [OF d(3), of "ma_lag ma" cancel j] assms(2) by (metis (no_types, lifting))
  show ?thesis
    using s sleep_answer [OF s(2)] d(3) unfolding d(1,2)
    by (cases res) (auto simp: execute_simps run_sleep_def exec_number_def dict_get_def)
next
  fix s raw assume d: "ty = ''opaque_payload''" "d = [(''payload_b64'', PStr s)]" "b64_decode s = Some raw"
    "length raw \<le> MAX_OPAQUE_PAYLOAD_BYTES"
  then show ?thesis
    using b64_decode_encode [OF b64_decode_bound [OF d(3)]]
    by (auto simp: execute_simps run_opaque_payload_def dict_get_def known_answer_def
        MAX_OPAQUE_PAYLOAD_BYTES_def MAX_DECODED_BYTES_def)
qed

theorem cancellation_is_prompt_witness:
  "\<exists>r ps. execute ex_machine ''count_to_n'' (Some [(''n'', PInt 7)]) (\<lambda>_. True) = Some (r, ps) \<and> length ps \<le> 1"
proof -
  have "validate_parameters strict_coercion ''count_to_n'' (Some [(''n'', PInt 7)]) = Inr [(''n'', PInt 7)]"
    by (simp add: validate_parameters_def strict_CountToN)
  from cancellation_is_prompt [OF this, of 0 "\<lambda>_. True" ex_machine] show ?thesis by auto
qed

end
