(* ===== verification/WorkerAgent.thy ===== *)
theory WorkerAgent
  imports Executors LocalSession Wire
begin

text \<open>
  \<open>worker/worker.py\<close>: the agent on a worker machine. The class \<open>TaskRunner\<close> with the
  dictionaries it keeps, and every handler up to its first \<open>await\<close>; what a handler sends is
  returned as a list, and whether a send succeeds is an argument where the code looks at it.
  \<open>time.monotonic()\<close>, random draws, fresh identifiers and HTTP answers are arguments.
\<close>

record agent =
  ag_worker :: string
  ag_version :: string
  ag_types :: "string list"
  ag_max_concurrent :: int
  ag_max_pending :: int
  ag_max_result :: int
  ag_ack_grace :: rat
  ag_retry_base :: rat
  ag_retry_factor :: rat
  ag_retry_max :: rat
  ag_ws_base :: rat
  ag_ws_factor :: rat
  ag_ws_max :: rat

text \<open>The module constants of an environment that sets none of them.\<close>

definition default_agent :: "string \<Rightarrow> agent" where
  "default_agent worker = \<lparr>ag_worker = worker, ag_version = ''0.1.0'',
     ag_types = [''count_to_n'', ''hash_rounds'', ''sleep'', ''opaque_payload''],
     ag_max_concurrent = 4, ag_max_pending = 64, ag_max_result = 128 * 1024, ag_ack_grace = 10,
     ag_retry_base = 5, ag_retry_factor = 2, ag_retry_max = 60,
     ag_ws_base = 1, ag_ws_factor = 2, ag_ws_max = 30\<rparr>"

fun split_comma :: "string \<Rightarrow> string list" where
  "split_comma [] = [[]]"
| "split_comma (x # xs) = (if x = CHR '','' then [] # split_comma xs
     else case split_comma xs of [] \<Rightarrow> [[x]] | w # ws \<Rightarrow> (x # w) # ws)"

definition advertised_types :: "string \<Rightarrow> string list" where
  "advertised_types setting = map (strip_by is_space) (filter (\<lambda>t. strip_by is_space t \<noteq> []) (split_comma setting))"

definition RESULT_STATUS_COMPLETED :: string where "RESULT_STATUS_COMPLETED = ''COMPLETED''"

subsection \<open>The state\<close>

record running_task =
  rt_id :: string
  rt_type :: string
  rt_correlation :: string
  rt_started_at :: time
  rt_progress :: rat
  rt_cancel :: bool
  rt_last_reported :: "rat option"
  rt_attempt :: int
  rt_epoch :: int
  rt_token :: string

text \<open>Dictionaries keep their insertion order; \<open>rn_due\<close> is the event \<open>results_pending\<close>.\<close>

record runner =
  rn_max :: int
  rn_running :: "(string \<times> running_task) list"
  rn_slots :: int
  rn_attached :: bool
  rn_epoch :: int
  rn_pending :: "(string \<times> pydict) list"
  rn_sent_at :: "(string \<times> time) list"
  rn_due :: bool

definition new_runner :: "int \<Rightarrow> runner" where
  "new_runner n = \<lparr>rn_max = n, rn_running = [], rn_slots = n, rn_attached = False, rn_epoch = 0,
     rn_pending = [], rn_sent_at = [], rn_due = False\<rparr>"

definition tasks_in_flight :: "runner \<Rightarrow> int" where
  "tasks_in_flight r = int (length (rn_running r))"

text \<open>\<open>next(iter(d))\<close> on an empty dictionary raises; with a cap of one or more it never comes to that.\<close>

definition drop_oldest :: "runner \<Rightarrow> runner" where
  "drop_oldest r = (case rn_pending r of
      [] \<Rightarrow> r
    | (dropped, _) # rest \<Rightarrow> r\<lparr>rn_pending := rest, rn_sent_at := AList.delete dropped (rn_sent_at r)\<rparr>)"

definition over_cap :: "agent \<Rightarrow> runner \<Rightarrow> bool" where
  "over_cap ag r \<longleftrightarrow> ag_max_pending ag \<le> int (length (rn_pending r))"

function make_room :: "agent \<Rightarrow> runner \<Rightarrow> exn + runner" where
  "make_room ag r = (if over_cap ag r
     then (if rn_pending r = [] then Inl StopIteration else make_room ag (drop_oldest r))
     else Inr r)"
  by pat_completeness auto
termination
  by (relation "measure (\<lambda>(ag, r). length (rn_pending r))") (auto simp: drop_oldest_def split: list.splits)

declare make_room.simps [simp del]

definition record_result :: "agent \<Rightarrow> string \<Rightarrow> pydict \<Rightarrow> runner \<Rightarrow> exn + runner" where
  "record_result ag task_id envelope r = bind_exn (make_room ag r) (\<lambda>r.
     Inr (r\<lparr>rn_pending := AList.update task_id envelope (rn_pending r), rn_due := True\<rparr>))"

definition result_acknowledged :: "string \<Rightarrow> runner \<Rightarrow> bool \<times> runner" where
  "result_acknowledged task_id r =
     (let pending = AList.delete task_id (rn_pending r)
      in (map_of (rn_pending r) task_id \<noteq> None,
          r\<lparr>rn_pending := pending, rn_sent_at := AList.delete task_id (rn_sent_at r),
            rn_due := (if pending = [] then False else rn_due r)\<rparr>))"

definition awaiting_ack :: "agent \<Rightarrow> time \<Rightarrow> string \<Rightarrow> runner \<Rightarrow> bool" where
  "awaiting_ack ag now task_id r = (case map_of (rn_sent_at r) task_id of
      None \<Rightarrow> False | Some sent \<Rightarrow> now - sent < ag_ack_grace ag)"

definition attach :: "int \<Rightarrow> runner \<Rightarrow> runner" where
  "attach epoch r = r\<lparr>rn_attached := True, rn_epoch := epoch, rn_sent_at := [],
     rn_due := (if rn_pending r \<noteq> [] then True else rn_due r)\<rparr>"

definition detach :: "runner \<Rightarrow> runner" where
  "detach r = r\<lparr>rn_attached := False\<rparr>"

definition cancel_all :: "runner \<Rightarrow> runner" where
  "cancel_all r = r\<lparr>rn_running := map (\<lambda>(i, t). (i, t\<lparr>rt_cancel := True\<rparr>)) (rn_running r)\<rparr>"

subsection \<open>Messages\<close>

record outgoing =
  og_type :: string
  og_correlation :: string
  og_payload :: pydict

definition on_wire :: "agent \<Rightarrow> string \<Rightarrow> outgoing \<Rightarrow> pydict" where
  "on_wire ag stamp m = to_dict \<lparr>en_type = PStr (og_type m), en_payload = PDict (og_payload m),
     en_version = PStr PROTOCOL_VERSION, en_correlation = PStr (og_correlation m),
     en_worker = PStr (ag_worker ag), en_epoch = PInt 0, en_timestamp = PStr stamp\<rparr>"

text \<open>\<open>report\<close> sends on the live session or drops the message.\<close>

definition report_message :: "outgoing \<Rightarrow> runner \<Rightarrow> outgoing list" where
  "report_message m r = (if rn_attached r then [m] else [])"

definition coerce_int :: "pyval \<Rightarrow> exn + int" where
  "coerce_int v = (case v of
      PInt _ \<Rightarrow> map_sum id (max 0) (py_int v)
    | PFloat _ \<Rightarrow> (case py_int v of
          Inl e \<Rightarrow> if e \<in> {TypeError, ValueError} then Inr 0 else Inl e | Inr n \<Rightarrow> Inr (max 0 n))
    | PStr _ \<Rightarrow> (case py_int v of
          Inl e \<Rightarrow> if e \<in> {TypeError, ValueError} then Inr 0 else Inl e | Inr n \<Rightarrow> Inr (max 0 n))
    | _ \<Rightarrow> Inr 0)"

definition ack_message :: "string \<Rightarrow> string \<Rightarrow> outgoing" where
  "ack_message corr task_id = \<lparr>og_type = ''task_ack'', og_correlation = corr,
     og_payload = [(''task_id'', PStr task_id), (''accepted'', PBool True), (''reason'', PNone)]\<rparr>"

definition refuse_task :: "string \<Rightarrow> string \<Rightarrow> string \<Rightarrow> string \<Rightarrow> outgoing" where
  "refuse_task task_id task_type corr code = \<lparr>og_type = ''task_ack'', og_correlation = corr,
     og_payload = [(''task_id'', PStr task_id), (''accepted'', PBool False), (''reason_code'', PStr code),
       (''reason'', PStr (code @ '': '' @ task_type))]\<rparr>"

text \<open>A duration is a rational here, so \<open>round\<close> is exact; a result with an encoding never needs \<open>default=str\<close>.\<close>

definition build_result_envelope ::
  "(rat \<Rightarrow> string) \<Rightarrow> agent \<Rightarrow> running_task \<Rightarrow> pyval \<Rightarrow> rat \<Rightarrow> exn + pydict" where
  "build_result_envelope fr ag t result duration =
     (let envelope = [(''task_id'', PStr (rt_id t)), (''status'', PStr RESULT_STATUS_COMPLETED),
            (''attempt_number'', PInt (rt_attempt t)), (''session_epoch'', PInt (rt_epoch t)),
            (''idempotency_token'', PStr (rt_token t)), (''duration_seconds'', PFloat (round3 (Fin duration))),
            (''result'', result), (''truncated'', PBool False)]
      in bind_exn (json_size fr envelope) (\<lambda>size.
           Inr (if ag_max_result ag < size
                then AList.update ''original_size_bytes'' (PInt size)
                       (AList.update ''truncated'' (PBool True) (AList.update ''result'' PNone envelope))
                else envelope)))"

definition result_message :: "string \<Rightarrow> pydict \<Rightarrow> outgoing" where
  "result_message task_id envelope = \<lparr>og_type = ''task_result'',
     og_correlation = (case dict_get envelope ''correlation_id'' of PStr s \<Rightarrow> if s = [] then task_id else s | _ \<Rightarrow> task_id),
     og_payload = filter (\<lambda>(k, v). k \<noteq> ''correlation_id'') envelope\<rparr>"

text \<open>\<open>submit_result\<close> before its send and after it; \<open>sent\<close> is what the send answered.\<close>

definition submit_result :: "string \<Rightarrow> runner \<Rightarrow> outgoing list" where
  "submit_result task_id r = (case map_of (rn_pending r) task_id of
      None \<Rightarrow> [] | Some envelope \<Rightarrow> report_message (result_message task_id envelope) r)"

definition mark_sent :: "bool \<Rightarrow> string \<Rightarrow> time \<Rightarrow> runner \<Rightarrow> runner" where
  "mark_sent sent task_id now r =
     (if sent then r\<lparr>rn_sent_at := AList.update task_id now (rn_sent_at r)\<rparr> else r)"

end
