(* ===== verification/WorkerNode.thy ===== *)
theory WorkerNode
  imports WorkerAgent
begin

text \<open>
  \<open>worker/worker.py\<close>, continued: what arrives on the socket, what an execution does when
  its executor returns, and the two background loops. A handler returns what it sends and the
  runner it leaves, or the exception that ends the session with the runner as it is then.
\<close>

subsection \<open>Admission\<close>

definition task_started_message :: "string \<Rightarrow> string \<Rightarrow> string \<Rightarrow> outgoing" where
  "task_started_message corr task_id task_type = \<lparr>og_type = ''task_started'', og_correlation = corr,
     og_payload = [(''task_id'', PStr task_id), (''task_type'', PStr task_type)]\<rparr>"

definition admitted :: "string \<Rightarrow> string \<Rightarrow> string \<Rightarrow> time \<Rightarrow> int \<Rightarrow> int \<Rightarrow> string \<Rightarrow> running_task" where
  "admitted task_id task_type corr now attempt epoch fresh = \<lparr>rt_id = task_id, rt_type = task_type,
     rt_correlation = corr, rt_started_at = now, rt_progress = 0, rt_cancel = False, rt_last_reported = None,
     rt_attempt = attempt, rt_epoch = epoch, rt_token = fresh\<rparr>"

type_synonym start = "running_task \<times> pyval"

definition handle_assignment ::
  "agent \<Rightarrow> (pyval \<Rightarrow> string) \<Rightarrow> string \<Rightarrow> string \<Rightarrow> time \<Rightarrow> pydict \<Rightarrow> runner
     \<Rightarrow> (exn + outgoing list \<times> start option) \<times> runner" where
  "handle_assignment ag rp session_corr fresh now message r = (case payload_of message of
      Inl e \<Rightarrow> (Inl e, r)
    | Inr payload \<Rightarrow>
        let task_id = get_str rp payload ''task_id'' [];
            task_type = get_str rp payload ''task_type'' [];
            parameters = py_or (dict_get payload ''parameters'') (PDict []);
            corr = get_str rp message ''correlation_id'' session_corr
        in if task_type \<notin> set (ag_types ag) \<or> task_type \<notin> set (map fst EXECUTORS)
           then (Inr ([refuse_task task_id task_type corr REFUSE_UNSUPPORTED_TYPE], None), r)
           else if map_of (rn_running r) task_id \<noteq> None
           then (Inr ([ack_message corr task_id], None), r)
           else if rn_slots r \<le> 0
           then (Inr ([refuse_task task_id task_type corr REFUSE_AT_CAPACITY], None), r)
           else let taken = r\<lparr>rn_slots := rn_slots r - 1\<rparr>
                in case coerce_int (dict_get payload ''attempt'') of
                    Inl e \<Rightarrow> (Inl e, taken)
                  | Inr attempt \<Rightarrow>
                      let t = admitted task_id task_type corr now attempt (rn_epoch taken) fresh
                      in (Inr ([ack_message corr task_id, task_started_message corr task_id task_type],
                            Some (t, parameters)),
                          taken\<lparr>rn_running := AList.update task_id t (rn_running taken)\<rparr>))"

definition handle_cancel :: "(pyval \<Rightarrow> string) \<Rightarrow> pydict \<Rightarrow> runner \<Rightarrow> exn + runner" where
  "handle_cancel rp message r = bind_exn (payload_of message) (\<lambda>payload.
     let task_id = get_str rp payload ''task_id'' []
     in case map_of (rn_running r) task_id of
          None \<Rightarrow> Inr r
        | Some t \<Rightarrow> Inr (r\<lparr>rn_running := AList.update task_id (t\<lparr>rt_cancel := True\<rparr>) (rn_running r)\<rparr>))"

definition handle_result_ack :: "(pyval \<Rightarrow> string) \<Rightarrow> pydict \<Rightarrow> runner \<Rightarrow> exn + runner" where
  "handle_result_ack rp message r = bind_exn (payload_of message) (\<lambda>payload.
     Inr (snd (result_acknowledged (get_str rp payload ''task_id'' []) r)))"

subsection \<open>Execution\<close>

text \<open>The executor's call; parameters that are no object have no \<open>get\<close>.\<close>

definition run_task :: "machine \<Rightarrow> start \<Rightarrow> (nat \<Rightarrow> bool) \<Rightarrow> pyval run" where
  "run_task ma s cancel = (case s of
      (t, PDict d) \<Rightarrow> execute ma (rt_type t) (Some d) cancel
    | (t, _) \<Rightarrow> Some (Inl (Escaped AttributeError), []))"

definition capacity_message :: "running_task \<Rightarrow> outgoing" where
  "capacity_message t = \<lparr>og_type = ''capacity'', og_correlation = rt_correlation t,
     og_payload = [(''task_id'', PStr (rt_id t)), (''freed'', PInt 1)]\<rparr>"

definition task_failed_message :: "running_task \<Rightarrow> string \<Rightarrow> outgoing" where
  "task_failed_message t error_type = \<lparr>og_type = ''task_failed'', og_correlation = rt_correlation t,
     og_payload = [(''task_id'', PStr (rt_id t)), (''error_type'', PStr error_type)]\<rparr>"

text \<open>
  From the return of the executor to the last send; \<open>names\<close> is \<open>type(exc).__name__\<close>. An
  exception on the way out of the \<open>else\<close> branch is logged by \<open>_execution_finished\<close>; the
  \<open>finally\<close> runs in any case.
\<close>

definition execution_ends ::
  "(rat \<Rightarrow> string) \<Rightarrow> (exec_exn \<Rightarrow> string) \<Rightarrow> agent \<Rightarrow> running_task \<Rightarrow> exec_exn + pyval \<Rightarrow> time \<Rightarrow> runner
     \<Rightarrow> (exn + outgoing list) \<times> runner" where
  "execution_ends fr names ag t verdict now r = (case verdict of
      Inl e \<Rightarrow> (Inr (report_message (if e = ExecutionCancelled then capacity_message t
                  else task_failed_message t (names e)) r), r)
    | Inr result \<Rightarrow>
        (case bind_exn (build_result_envelope fr ag t result (now - rt_started_at t)) (\<lambda>envelope.
               record_result ag (rt_id t) (AList.update ''correlation_id'' (PStr (rt_correlation t)) envelope) r) of
           Inl e \<Rightarrow> (Inl e, r)
         | Inr r' \<Rightarrow> (Inr (submit_result (rt_id t) r'), r')))"

definition execution_retired :: "running_task \<Rightarrow> runner \<Rightarrow> runner" where
  "execution_retired t r = r\<lparr>rn_running := AList.delete (rt_id t) (rn_running r), rn_slots := rn_slots r + 1\<rparr>"

subsection \<open>Progress and heartbeats\<close>

definition round4 :: "rat \<Rightarrow> rat" where
  "round4 x = of_int (round_half_even (x * 10000)) / 10000"

definition progress_message :: "time \<Rightarrow> running_task \<Rightarrow> outgoing" where
  "progress_message now t = \<lparr>og_type = ''task_progress'', og_correlation = rt_correlation t,
     og_payload = [(''task_id'', PStr (rt_id t)), (''task_type'', PStr (rt_type t)),
       (''progress'', PFloat (Fin (round4 (rt_progress t)))),
       (''elapsed_seconds'', PFloat (Fin (of_int (round_half_even ((now - rt_started_at t) * 10)) / 10)))]\<rparr>"

definition progress_due :: "running_task \<Rightarrow> bool" where
  "progress_due t \<longleftrightarrow> rt_last_reported t \<noteq> Some (round4 (rt_progress t))"

definition progress_pass :: "time \<Rightarrow> runner \<Rightarrow> outgoing list \<times> runner" where
  "progress_pass now r =
     (concat (map (\<lambda>(i, t). if progress_due t then report_message (progress_message now t) r else []) (rn_running r)),
      r\<lparr>rn_running := map (\<lambda>(i, t). (i, t\<lparr>rt_last_reported := Some (round4 (rt_progress t))\<rparr>)) (rn_running r)\<rparr>)"

definition heartbeat_message :: "agent \<Rightarrow> string \<Rightarrow> int \<Rightarrow> rat \<Rightarrow> pyval \<Rightarrow> pyval \<Rightarrow> outgoing" where
  "heartbeat_message ag corr sequence uptime cpu memory = \<lparr>og_type = ''heartbeat'', og_correlation = corr,
     og_payload = [(''sequence'', PInt sequence),
       (''uptime_seconds'', PFloat (Fin (of_int (round_half_even (uptime * 10)) / 10))),
       (''agent_version'', PStr (ag_version ag)), (''status'', PStr ''ONLINE''), (''cpu_percent'', cpu),
       (''memory_percent'', memory)]\<rparr>"

subsection \<open>The session\<close>

definition hello_message :: "agent \<Rightarrow> string \<Rightarrow> runner \<Rightarrow> outgoing" where
  "hello_message ag corr r = \<lparr>og_type = ''hello'', og_correlation = corr,
     og_payload = [(''agent_version'', PStr (ag_version ag)), (''max_concurrent'', PInt (ag_max_concurrent ag)),
       (''supported_task_types'', PList (map PStr (ag_types ag))),
       (''tasks_in_flight'', PInt (tasks_in_flight r))]\<rparr>"

text \<open>The answer to the hello: whether a session is established, and whether to go on reading.\<close>

definition on_hello_ack :: "pydict \<Rightarrow> runner \<Rightarrow> bool \<times> (exn + bool) \<times> runner" where
  "on_hello_ack ack r =
     (if dict_get ack ''message_type'' = PStr ''error'' then (False, Inr False, r)
      else if dict_get ack ''message_type'' \<noteq> PStr ''hello_ack'' then (False, Inr False, r)
      else case coerce_int (dict_get ack ''session_epoch'') of
          Inl e \<Rightarrow> (True, Inl e, r)
        | Inr epoch \<Rightarrow> (True, Inr True, attach epoch r))"

datatype reaction = Continue | Leave | Crash exn

definition reacted :: "(exn + runner) \<Rightarrow> runner \<Rightarrow> outgoing list \<times> reaction \<times> start option \<times> runner" where
  "reacted out r = (case out of Inl e \<Rightarrow> ([], Crash e, None, r) | Inr r' \<Rightarrow> ([], Continue, None, r'))"

definition on_message ::
  "agent \<Rightarrow> (pyval \<Rightarrow> string) \<Rightarrow> string \<Rightarrow> string \<Rightarrow> time \<Rightarrow> pydict \<Rightarrow> runner
     \<Rightarrow> outgoing list \<times> reaction \<times> start option \<times> runner" where
  "on_message ag rp session_corr fresh now message r =
     (let message_type = dict_get message ''message_type''
      in if message_type = PStr ''ping''
         then ([\<lparr>og_type = ''pong'', og_correlation = session_corr, og_payload = []\<rparr>], Continue, None, r)
         else if message_type = PStr ''shutdown'' then ([], Leave, None, r)
         else if message_type = PStr ''task_assign''
         then (case handle_assignment ag rp session_corr fresh now message r of
               (Inl e, r') \<Rightarrow> ([], Crash e, None, r')
             | (Inr (ms, start), r') \<Rightarrow> (ms, Continue, start, r'))
         else if message_type = PStr ''task_result_ack'' then reacted (handle_result_ack rp message r) r
         else if message_type = PStr ''task_cancel'' then reacted (handle_cancel rp message r) r
         else if message_type = PStr ''session_evicted'' then ([], Leave, None, r)
         else ([], Continue, None, r))"

subsection \<open>Backoff\<close>

text \<open>
  \<open>random.uniform(0, cap)\<close> is a draw \<open>u\<close> of the unit interval times the cap. A power of
  floats that rounds to infinity raises.
\<close>

definition full_jitter :: "rat \<Rightarrow> nat \<Rightarrow> rat \<Rightarrow> rat \<Rightarrow> rat \<Rightarrow> exn + rat" where
  "full_jitter u failures base factor maximum = (case as_double (factor ^ failures) of
      Fin _ \<Rightarrow> Inr (u * min maximum (base * factor ^ failures))
    | _ \<Rightarrow> Inl OverflowError)"

definition backoff_delay_seconds :: "agent \<Rightarrow> rat \<Rightarrow> nat \<Rightarrow> exn + rat" where
  "backoff_delay_seconds ag u failures = full_jitter u failures (ag_ws_base ag) (ag_ws_factor ag) (ag_ws_max ag)"

text \<open>
  The reconnect loop: each attempt ended somehow, having established a session or not; the
  delay is drawn outside the \<open>try\<close>. The result is the count and the delays slept, or the
  exception that ends the loop.
\<close>

fun run_ws_forever :: "agent \<Rightarrow> nat \<Rightarrow> (bool \<times> rat) list \<Rightarrow> exn + nat \<times> rat list" where
  "run_ws_forever ag failures [] = Inr (failures, [])"
| "run_ws_forever ag failures ((established, u) # attempts) =
     (let failures = (if established then 0 else failures + 1)
      in bind_exn (backoff_delay_seconds ag u failures) (\<lambda>delay.
           bind_exn (run_ws_forever ag failures attempts) (\<lambda>(n, ds). Inr (n, delay # ds))))"

text \<open>
  One pass over the pending results: \<open>ok\<close> says which sends succeed, \<open>meanwhile\<close> what the
  other coroutines do while one is awaited, \<open>clock\<close> and \<open>done_at\<close> are the time before and after.
  It counts what it delivered and what still waits for an acknowledgement.
\<close>

fun submission_pass ::
  "agent \<Rightarrow> (string \<Rightarrow> bool) \<Rightarrow> (string \<Rightarrow> runner \<Rightarrow> runner) \<Rightarrow> (string \<Rightarrow> time) \<Rightarrow> (string \<Rightarrow> time) \<Rightarrow> string list \<Rightarrow> runner
     \<Rightarrow> nat \<times> nat \<times> outgoing list \<times> runner" where
  "submission_pass ag ok meanwhile clock done_at [] r = (0, 0, [], r)"
| "submission_pass ag ok meanwhile clock done_at (i # todo) r =
     (if awaiting_ack ag (clock i) i r
      then (case submission_pass ag ok meanwhile clock done_at todo r of (d, w, ms, r') \<Rightarrow> (d, Suc w, ms, r'))
      else if map_of (rn_pending r) i = None then (0, 0, [], r)
      else let sent = (rn_attached r \<and> ok i); ms = submit_result i r; r1 = mark_sent sent i (done_at i) (meanwhile i r)
           in if sent
              then (case submission_pass ag ok meanwhile clock done_at todo r1 of (d, w, ms', r') \<Rightarrow> (Suc d, w, ms @ ms', r'))
              else (0, 0, ms, r1))"

definition submission_round ::
  "agent \<Rightarrow> (string \<Rightarrow> bool) \<Rightarrow> (string \<Rightarrow> runner \<Rightarrow> runner) \<Rightarrow> (string \<Rightarrow> time) \<Rightarrow> (string \<Rightarrow> time) \<Rightarrow> rat \<Rightarrow> nat \<Rightarrow> runner
     \<Rightarrow> (exn + nat \<times> rat) \<times> outgoing list \<times> runner" where
  "submission_round ag ok meanwhile clock done_at u failures r =
     (let r = r\<lparr>rn_due := False\<rparr>
      in if rn_pending r = [] then (Inr (0, ag_retry_max ag), [], r)
         else case submission_pass ag ok meanwhile clock done_at (map fst (rn_pending r)) r of
             (delivered, waiting, ms, r') \<Rightarrow>
               let failures = (if 0 < delivered \<or> 0 < waiting then 0 else failures + 1)
               in (bind_exn (full_jitter u failures (ag_retry_base ag) (ag_retry_factor ag) (ag_retry_max ag)) (\<lambda>delay.
                     Inr (failures, if 0 < waiting \<and> delivered = 0 then max delay (ag_ack_grace ag) else delay)),
                   ms, r'))"

subsection \<open>Identity\<close>

text \<open>
  What a worker asks of the coordinator over HTTP and what it makes of the answer: an
  identity to go on with, or the end of the process.
\<close>

type_synonym identity = "string \<times> string"

datatype boot = Ready identity | Exits

definition registration_request :: "string \<Rightarrow> agent \<Rightarrow> identity option \<Rightarrow> pydict" where
  "registration_request secret ag identity = (case identity of
      None \<Rightarrow> [(''enrollment_secret'', PStr secret), (''agent_version'', PStr (ag_version ag))]
    | Some (w, credential) \<Rightarrow> [(''worker_id'', PStr w), (''worker_credential'', PStr credential),
        (''agent_version'', PStr (ag_version ag))])"

fun body_text :: "pydict \<Rightarrow> string \<Rightarrow> exn + string" where
  "body_text body k = (case map_of body k of Some (PStr s) \<Rightarrow> Inr s | Some _ \<Rightarrow> Inl TypeError | None \<Rightarrow> Inl KeyError)"

definition register_or_reaffirm :: "identity option \<Rightarrow> int \<Rightarrow> pydict \<Rightarrow> exn + boot" where
  "register_or_reaffirm identity status body = (case identity of
      None \<Rightarrow>
        if status \<noteq> 201 then Inr Exits
        else bind_exn (body_text body ''worker_id'') (\<lambda>w.
               bind_exn (body_text body ''worker_credential'') (\<lambda>credential. Inr (Ready (w, credential))))
    | Some known \<Rightarrow>
        if status = 409 then Inr Exits
        else if status = 429 then Inr Exits
        else if status \<noteq> 200 then Inr Exits
        else Inr (Ready known))"

definition refresh_access_token :: "int \<Rightarrow> pydict \<Rightarrow> exn + (string \<times> pyval) option" where
  "refresh_access_token status body =
     (if status \<noteq> 200 then Inr None
      else case map_of body ''expires_in'' of
          None \<Rightarrow> Inl KeyError
        | Some expires \<Rightarrow> bind_exn (body_text body ''access_token'') (\<lambda>token. Inr (Some (token, expires))))"

fun replace_first :: "string \<Rightarrow> string \<Rightarrow> string \<Rightarrow> string" where
  "replace_first old new [] = []"
| "replace_first old new (x # xs) =
     (if take (length old) (x # xs) = old then new @ drop (length old) (x # xs) else x # replace_first old new xs)"

definition ws_url :: "string \<Rightarrow> string" where
  "ws_url coordinator_url = replace_first ''https://'' ''wss://'' coordinator_url @ ''/ws/connect''"

text \<open>On SIGTERM the buffered results are abandoned and every execution is told to stop.\<close>

definition shut_down :: "runner \<Rightarrow> string list \<times> runner" where
  "shut_down r = (map fst (rn_pending r), cancel_all r)"

end
