(* ===== verification/WorkerProperties.thy ===== *)
theory WorkerProperties
  imports WorkerNode
begin

text \<open>
  What a worker promises: it never holds a task it is not executing and never more than it
  has slots, a finished result leaves its buffer only when it is answered, replaced or
  pushed out by the cap, and the envelopes it builds are the ones the coordinator accepts.
\<close>

subsection \<open>The event loop of a worker\<close>

text \<open>
  The coroutines that execute tasks, with a flag that the executor has returned and only the
  \<open>finally\<close> is left. Every handler is one stretch between two suspensions. A coordinator
  sends an attempt number that is an integer, so no message crashes with an overflow.
\<close>

record node =
  nd_runner :: runner
  nd_live :: "(running_task \<times> bool) list"

datatype event =
    Received pydict
  | Ended running_task "exec_exn + pyval"
  | Retired running_task
  | Other

definition started :: "start option \<Rightarrow> (running_task \<times> bool) list" where
  "started s = (case s of None \<Rightarrow> [] | Some (t, _) \<Rightarrow> [(t, False)])"

inductive node_step :: "agent \<Rightarrow> event \<Rightarrow> node \<Rightarrow> node \<Rightarrow> bool" for ag where
  received: "on_message ag rp corr fresh now message (nd_runner n) = (ms, rea, s, r) \<Longrightarrow>
    rea \<noteq> Crash OverflowError \<Longrightarrow>
    node_step ag (Received message) n (n\<lparr>nd_runner := r, nd_live := nd_live n @ started s\<rparr>)"
| ended: "nd_live n = xs @ (t, False) # ys \<Longrightarrow>
    execution_ends fr names ag t verdict now (nd_runner n) = (out, r) \<Longrightarrow>
    node_step ag (Ended t verdict) n (n\<lparr>nd_runner := r, nd_live := xs @ (t, True) # ys\<rparr>)"
| retired: "nd_live n = xs @ (t, True) # ys \<Longrightarrow>
    node_step ag (Retired t) n (n\<lparr>nd_runner := execution_retired t (nd_runner n), nd_live := xs @ ys\<rparr>)"
| greeted: "on_hello_ack ack (nd_runner n) = (b, out, r) \<Longrightarrow> node_step ag Other n (n\<lparr>nd_runner := r\<rparr>)"
| detached: "node_step ag Other n (n\<lparr>nd_runner := detach (nd_runner n)\<rparr>)"
| reported: "progress_pass now (nd_runner n) = (ms, r) \<Longrightarrow> node_step ag Other n (n\<lparr>nd_runner := r\<rparr>)"
| advanced: "map_of (rn_running (nd_runner n)) i = Some t \<Longrightarrow> node_step ag Other n
    (n\<lparr>nd_runner := (nd_runner n)\<lparr>rn_running := AList.update i (t\<lparr>rt_progress := x\<rparr>) (rn_running (nd_runner n))\<rparr>\<rparr>)"
| marked: "node_step ag Other n (n\<lparr>nd_runner := mark_sent b i now (nd_runner n)\<rparr>)"
| waited: "node_step ag Other n (n\<lparr>nd_runner := (nd_runner n)\<lparr>rn_due := False\<rparr>\<rparr>)"
| signalled: "node_step ag Other n (n\<lparr>nd_runner := cancel_all (nd_runner n)\<rparr>)"

inductive_cases node_stepE: "node_step ag ev n m"

definition node_start :: "agent \<Rightarrow> node" where
  "node_start ag = \<lparr>nd_runner = new_runner (ag_max_concurrent ag), nd_live = []\<rparr>"

definition node_reachable :: "agent \<Rightarrow> node \<Rightarrow> bool" where
  "node_reachable ag = (\<lambda>n m. \<exists>ev. node_step ag ev n m)\<^sup>*\<^sup>* (node_start ag)"

subsection \<open>Capacity\<close>

text \<open>The fields of a running task that nothing writes after its admission.\<close>

definition fixed :: "running_task \<Rightarrow> string \<times> int \<times> int \<times> string" where
  "fixed t = (rt_id t, rt_attempt t, rt_epoch t, rt_token t)"

definition capacity_ok :: "node \<Rightarrow> bool" where
  "capacity_ok n \<longleftrightarrow> distinct (map fst (rn_running (nd_runner n)))
     \<and> set (map (\<lambda>(i, t). (i, fixed t)) (rn_running (nd_runner n))) = set (map (\<lambda>(t, b). (rt_id t, fixed t)) (nd_live n))
     \<and> distinct (map (rt_id \<circ> fst) (nd_live n))
     \<and> rn_slots (nd_runner n) + int (length (nd_live n)) = rn_max (nd_runner n)
     \<and> 0 \<le> rn_slots (nd_runner n)"

lemma update_fresh: "k \<notin> fst ` set xs \<Longrightarrow> AList.update k v xs = xs @ [(k, v)]"
  by (induction xs) auto

lemma update_fixed:
  assumes "distinct (map fst xs)" "map_of xs i = Some t" "fixed u = fixed t"
  shows "map (\<lambda>(i, t). (i, fixed t)) (AList.update i u xs) = map (\<lambda>(i, t). (i, fixed t)) xs"
  using assms by (induction xs) (auto split: if_splits)

definition slots_match :: "runner \<Rightarrow> (running_task \<times> bool) list \<Rightarrow> bool" where
  "slots_match r live \<longleftrightarrow> distinct (map fst (rn_running r))
     \<and> set (map (\<lambda>(i, t). (i, fixed t)) (rn_running r)) = set (map (\<lambda>(t, b). (rt_id t, fixed t)) live)
     \<and> distinct (map (rt_id \<circ> fst) live)
     \<and> rn_slots r + int (length live) = rn_max r \<and> 0 \<le> rn_slots r"

lemma capacity_ok_iff: "capacity_ok n \<longleftrightarrow> slots_match (nd_runner n) (nd_live n)"
  by (simp add: capacity_ok_def slots_match_def)

text \<open>What the handlers leave alone.\<close>

definition same_slots :: "runner \<Rightarrow> runner \<Rightarrow> bool" where
  "same_slots r r' \<longleftrightarrow> map (\<lambda>(i, t). (i, fixed t)) (rn_running r') = map (\<lambda>(i, t). (i, fixed t)) (rn_running r)
     \<and> rn_slots r' = rn_slots r \<and> rn_max r' = rn_max r"

lemma same_slots_keys: "same_slots r r' \<Longrightarrow> map fst (rn_running r') = map fst (rn_running r)"
proof -
  assume "same_slots r r'"
  then have "map fst (map (\<lambda>(i, t). (i, fixed t)) (rn_running r'))
      = map fst (map (\<lambda>(i, t). (i, fixed t)) (rn_running r))" by (simp only: same_slots_def)
  then show ?thesis by (simp add: comp_def case_prod_unfold)
qed

lemma same_slots_match: "same_slots r r' \<Longrightarrow> slots_match r live \<Longrightarrow> slots_match r' live"
  using same_slots_keys [of r r'] unfolding slots_match_def same_slots_def by simp

lemma same_slots_refl [simp]: "same_slots r r"
  by (simp add: same_slots_def)

lemma same_slots_fields [intro]: "rn_running r' = rn_running r \<Longrightarrow> rn_slots r' = rn_slots r \<Longrightarrow> rn_max r' = rn_max r
    \<Longrightarrow> same_slots r r'"
  by (simp add: same_slots_def)

lemma make_room_same:
  "make_room ag r = Inr r' \<Longrightarrow> rn_running r' = rn_running r \<and> rn_slots r' = rn_slots r \<and> rn_max r' = rn_max r
     \<and> rn_attached r' = rn_attached r \<and> rn_epoch r' = rn_epoch r"
proof (induction ag r rule: make_room.induct)
  case (1 ag r)
  show ?case
  proof (cases "over_cap ag r \<and> rn_pending r \<noteq> []")
    case True
    then have "make_room ag (drop_oldest r) = Inr r'" using "1.prems" by (simp add: make_room.simps [of ag r])
    with "1.IH" True show ?thesis by (auto simp: drop_oldest_def split: list.splits)
  next
    case False
    with "1.prems" show ?thesis by (auto simp: make_room.simps [of ag r] split: if_splits)
  qed
qed

lemma record_same: "record_result ag i e r = Inr r' \<Longrightarrow> same_slots r r'"
  by (auto simp: record_result_def bind_exn_def dest!: make_room_same split: sum.splits)

lemma ends_same: "execution_ends fr names ag t verdict now r = (out, r') \<Longrightarrow> same_slots r r'"
  by (auto simp: execution_ends_def bind_exn_def split: sum.splits dest: record_same)

lemma ack_same: "handle_result_ack rp m r = Inr r' \<Longrightarrow> same_slots r r'"
  by (auto simp: handle_result_ack_def bind_exn_def result_acknowledged_def Let_def split: sum.splits)

lemma cancel_same:
  assumes "distinct (map fst (rn_running r))" "handle_cancel rp m r = Inr r'"
  shows "same_slots r r'"
proof -
  have "fixed (t\<lparr>rt_cancel := True\<rparr>) = fixed t" for t by (simp add: fixed_def)
  with assms show ?thesis
    by (auto simp: handle_cancel_def bind_exn_def same_slots_def Let_def update_fixed
        split: sum.splits option.splits)
qed

lemma progress_same: "progress_pass now r = (ms, r') \<Longrightarrow> same_slots r r'"
  by (auto simp: progress_pass_def same_slots_def fixed_def)

lemma cancel_all_same: "same_slots r (cancel_all r)"
  by (auto simp: cancel_all_def same_slots_def fixed_def)

lemma hello_same: "on_hello_ack ack r = (b, out, r') \<Longrightarrow> same_slots r r'"
  by (auto simp: on_hello_ack_def attach_def split: if_splits sum.splits)

text \<open>An assignment starts nothing, or takes a slot for a task that is not running.\<close>

lemma assignment_cases:
  assumes "handle_assignment ag rp corr fresh now message r = (out, r')"
  obtains (refused) ms where "out = Inr (ms, None)" "r' = r" "length ms = 1"
  | (crashed) e where "out = Inl e" "e = AttributeError" "r' = r"
  | (leaked) "out = Inl OverflowError"
  | (began) t p where "out = Inr ([ack_message (rt_correlation t) (rt_id t),
        task_started_message (rt_correlation t) (rt_id t) (rt_type t)], Some (t, p))"
      "0 < rn_slots r" "map_of (rn_running r) (rt_id t) = None" "rt_epoch t = rn_epoch r" "rt_token t = fresh"
      "rt_started_at t = now" "\<not> rt_cancel t"
      "r' = r\<lparr>rn_slots := rn_slots r - 1, rn_running := rn_running r @ [(rt_id t, t)]\<rparr>"
proof (cases "payload_of message")
  case (Inl e)
  with assms show ?thesis
    using crashed by (auto simp: handle_assignment_def payload_of_def split: pyval.splits)
next
  case (Inr payload)
  let ?i = "get_str rp payload ''task_id'' []" and ?ty = "get_str rp payload ''task_type'' []"
  consider "?ty \<notin> set (ag_types ag) \<or> ?ty \<notin> set (map fst EXECUTORS) \<or> map_of (rn_running r) ?i \<noteq> None \<or> rn_slots r \<le> 0"
    | "\<not> (?ty \<notin> set (ag_types ag) \<or> ?ty \<notin> set (map fst EXECUTORS))" "map_of (rn_running r) ?i = None" "0 < rn_slots r"
    by linarith
  then show ?thesis
  proof cases
    case 1
    with assms Inr show ?thesis
      using refused by (auto simp: handle_assignment_def Let_def split: if_splits)
  next
    case 2
    have err: "e = OverflowError" if "coerce_int v = Inl e" for v e
      using that by (cases v; cases "py_int v")
        (auto simp: coerce_int_def split: pyval.splits sum.splits if_splits option.splits elim!: py_int.elims)
    have "?i \<notin> fst ` set (rn_running r)"
      using 2(2) by (simp add: map_of_eq_None_iff)
    then have upd: "AList.update ?i t (rn_running r) = rn_running r @ [(?i, t)]" for t
      by (rule update_fresh)
    show ?thesis
    proof (cases "coerce_int (dict_get payload ''attempt'')")
      case (Inl e)
      then show ?thesis
        using leaked assms 2 \<open>payload_of message = Inr payload\<close> err by (auto simp: handle_assignment_def Let_def)
    next
      case (Inr a)
      then show ?thesis
        using assms 2 \<open>payload_of message = Inr payload\<close> upd
        by (intro began [of "admitted ?i ?ty (get_str rp message ''correlation_id'' corr) now a (rn_epoch r) fresh"
              "py_or (dict_get payload ''parameters'') (PDict [])"])
          (auto simp: handle_assignment_def Let_def admitted_def)
    qed
  qed
qed

lemma message_slots:
  assumes "on_message ag rp corr fresh now message r = (ms, rea, s, r')" "rea \<noteq> Crash OverflowError"
    and ok: "slots_match r live"
  shows "slots_match r' (live @ started s) \<and> rn_max r' = rn_max r"
proof -
  have d: "distinct (map fst (rn_running r))" using ok by (simp add: slots_match_def)
  consider (idle) "s = None" "same_slots r r'"
    | (assigned) out where "handle_assignment ag rp corr fresh now message r = (out, r')"
        "case out of Inl e \<Rightarrow> rea = Crash e \<and> s = None | Inr (ms', s') \<Rightarrow> s = s'"
    using assms(1) ack_same [of rp message r] cancel_same [OF d, of rp message]
    by (auto simp: on_message_def reacted_def Let_def split: if_splits sum.splits prod.splits)
  then show ?thesis
  proof cases
    case idle
    then show ?thesis using same_slots_match [OF idle(2) ok] by (simp add: started_def same_slots_def)
  next
    case assigned
    from assigned(1) show ?thesis
    proof (cases rule: assignment_cases)
      case (began t p)
      then have i: "rt_id t \<notin> fst ` set (rn_running r)" by (simp add: map_of_eq_None_iff)
      have "fst ` set (rn_running r) = fst ` set (map (\<lambda>(i, t). (i, fixed t)) (rn_running r))"
        by force
      also have "\<dots> = fst ` set (map (\<lambda>(t, b). (rt_id t, fixed t)) live)"
        using ok by (simp only: slots_match_def)
      also have "\<dots> = set (map (rt_id \<circ> fst) live)" by force
      finally have "rt_id t \<notin> set (map (rt_id \<circ> fst) live)" using i by simp
      moreover have "s = Some (t, p)" using assigned(2) began(1) by simp
      ultimately show ?thesis
        using ok i began(2,8) by (auto simp: slots_match_def started_def)
    next
      case leaked
      with assigned(2) assms(2) show ?thesis by simp
    next
      case (refused ms')
      with assigned(2) ok show ?thesis by (simp add: started_def)
    next
      case (crashed e)
      with assigned(2) ok show ?thesis by (simp add: started_def)
    qed
  qed
qed

lemma without_key:
  assumes "\<forall>y \<in> set xs \<union> set ys. k y \<noteq> l" and "k t = l" and "\<And>y. fst (f y) = k y"
  shows "{x \<in> set (map f (xs @ t # ys)). fst x \<noteq> l} = set (map f (xs @ ys))"
  using assms by auto

lemma retired_slots:
  assumes "slots_match r (xs @ (t, b) # ys)"
  shows "slots_match (execution_retired t r) (xs @ ys)"
proof -
  let ?f = "\<lambda>(t, b). (rt_id t, fixed t)" and ?g = "\<lambda>(i, t). (i, fixed t)"
  have d: "distinct (map (rt_id \<circ> fst) (xs @ (t, b) # ys))" and k: "distinct (map fst (rn_running r))"
    and e: "set (map ?g (rn_running r)) = set (map ?f (xs @ (t, b) # ys))"
    using assms by (simp_all only: slots_match_def)
  have "set (map ?g (AList.delete (rt_id t) (rn_running r))) = {x \<in> set (map ?g (rn_running r)). fst x \<noteq> rt_id t}"
    by (auto simp: AList.delete_eq)
  also have "\<dots> = set (map ?f (xs @ ys))"
  proof (unfold e, rule without_key)
    have "rt_id t \<notin> (rt_id \<circ> fst) ` (set xs \<union> set ys)" using d by (simp add: image_Un)
    then show "\<forall>y \<in> set xs \<union> set ys. rt_id (fst y) \<noteq> rt_id t" by (metis comp_apply imageI)
  qed (simp_all add: case_prod_unfold)
  finally have "set (map ?g (AList.delete (rt_id t) (rn_running r))) = set (map ?f (xs @ ys))" .
  then show ?thesis
    using assms d distinct_delete [OF k] unfolding slots_match_def execution_retired_def by simp
qed

lemma node_step_capacity:
  assumes "node_step ag ev n m" "capacity_ok n"
  shows "capacity_ok m"
  using assms(1)
proof cases
  case (received rp corr fresh now message ms rea s r)
  with assms(2) message_slots [OF received(3,4)] show ?thesis by (simp add: capacity_ok_iff)
next
  case (ended xs t ys fr names verdict now out r)
  have "slots_match (nd_runner n) (xs @ (t, True) # ys)"
    using assms(2) ended(3) by (simp add: capacity_ok_iff slots_match_def)
  with ends_same [OF ended(4)] show ?thesis
    using same_slots_match by (simp add: capacity_ok_iff ended(2))
next
  case (retired xs t ys)
  then show ?thesis using assms(2) retired_slots by (auto simp: capacity_ok_iff)
next
  case (greeted ack b out r)
  then show ?thesis
    using assms(2) same_slots_match [OF hello_same [OF greeted(3)]] by (simp add: capacity_ok_iff)
next
  case (reported now ms r)
  then show ?thesis
    using assms(2) same_slots_match [OF progress_same [OF reported(3)]] by (simp add: capacity_ok_iff)
next
  case (advanced i t x)
  have "same_slots (nd_runner n) ((nd_runner n)\<lparr>rn_running := AList.update i (t\<lparr>rt_progress := x\<rparr>) (rn_running (nd_runner n))\<rparr>)"
    using assms(2) advanced(3) update_fixed [of "rn_running (nd_runner n)" i t "t\<lparr>rt_progress := x\<rparr>"]
    by (simp add: same_slots_def capacity_ok_def fixed_def)
  then show ?thesis using assms(2) advanced(2) same_slots_match by (auto simp: capacity_ok_iff)
next
  case signalled
  then show ?thesis using assms(2) cancel_all_same same_slots_match by (auto simp: capacity_ok_iff)
qed (use assms(2) in \<open>simp_all add: capacity_ok_def detach_def mark_sent_def\<close>)

lemma max_kept:
  assumes "node_step ag ev n m" "capacity_ok n"
  shows "rn_max (nd_runner m) = rn_max (nd_runner n)"
  using assms(1)
proof cases
  case (received rp corr fresh now message ms rea s r)
  with assms(2) message_slots [OF received(3,4)] show ?thesis by (simp add: capacity_ok_iff)
next
  case (ended xs t ys fr names verdict now out r)
  with ends_same [OF ended(4)] show ?thesis by (simp add: same_slots_def)
next
  case (greeted ack b out r)
  with hello_same [OF greeted(3)] show ?thesis by (simp add: same_slots_def)
next
  case (reported now ms r)
  with progress_same [OF reported(3)] show ?thesis by (simp add: same_slots_def)
qed (simp_all add: execution_retired_def detach_def mark_sent_def cancel_all_def)

lemma node_reachable_capacity:
  assumes "0 \<le> ag_max_concurrent ag" "node_reachable ag n"
  shows "capacity_ok n \<and> rn_max (nd_runner n) = ag_max_concurrent ag"
  using assms(2) unfolding node_reachable_def
proof (induction rule: rtranclp_induct)
  case base
  then show ?case using assms(1) by (simp add: node_start_def capacity_ok_def new_runner_def)
next
  case (step n m)
  then show ?case using node_step_capacity max_kept by metis
qed

subsection \<open>The buffer of results\<close>

definition buffer_ok :: "agent \<Rightarrow> runner \<Rightarrow> bool" where
  "buffer_ok ag r \<longleftrightarrow> distinct (map fst (rn_pending r)) \<and> int (length (rn_pending r)) \<le> ag_max_pending ag"

lemma make_room_once:
  assumes "1 \<le> ag_max_pending ag" "buffer_ok ag r"
  shows "make_room ag r = Inr (if over_cap ag r then drop_oldest r else r)"
proof (cases "over_cap ag r")
  case True
  then obtain x xs where x: "rn_pending r = x # xs"
    using assms(1) by (cases "rn_pending r") (auto simp: over_cap_def)
  have "\<not> over_cap ag (drop_oldest r)"
    using assms(2) x by (cases x) (simp add: over_cap_def buffer_ok_def drop_oldest_def)
  with True x show ?thesis by (simp add: make_room.simps [of ag r] make_room.simps [of ag "drop_oldest r"])
next
  case False
  then show ?thesis by (simp add: make_room.simps [of ag r])
qed

text \<open>Nothing but an answer, a newer result of the task or the cap takes a result out.\<close>

definition answers :: "pydict \<Rightarrow> string \<Rightarrow> bool" where
  "answers message i \<longleftrightarrow> dict_get message ''message_type'' = PStr ''task_result_ack''
     \<and> (\<exists>rp payload. payload_of message = Inr payload \<and> get_str rp payload ''task_id'' [] = i)"

definition buffered :: "agent \<Rightarrow> string \<Rightarrow> runner \<Rightarrow> runner \<Rightarrow> bool" where
  "buffered ag k r r' \<longleftrightarrow> (\<forall>i env. map_of (rn_pending r) i = Some env \<longrightarrow> map_of (rn_pending r') i = Some env
      \<or> i = k \<or> (int (length (rn_pending r)) = ag_max_pending ag \<and> i = fst (hd (rn_pending r))))"

lemma update_length: "length (AList.update k v xs) \<le> Suc (length xs)"
  by (induction xs) auto

lemma record_buffer:
  assumes cap: "1 \<le> ag_max_pending ag" and ok: "buffer_ok ag r" and rec: "record_result ag k e r = Inr r'"
  shows "buffer_ok ag r' \<and> buffered ag k r r' \<and> map_of (rn_pending r') k = Some e"
proof -
  obtain q where q: "q = (if over_cap ag r then drop_oldest r else r)"
      "r' = q\<lparr>rn_pending := AList.update k e (rn_pending q), rn_due := True\<rparr>"
    using rec by (simp add: record_result_def make_room_once [OF cap ok])
  have len: "int (length (rn_pending q)) < ag_max_pending ag" and dq: "distinct (map fst (rn_pending q))"
    using ok cap unfolding q(1) by (auto simp: over_cap_def drop_oldest_def buffer_ok_def split: list.splits)
  have kept: "map_of (rn_pending q) i = Some env \<or> (int (length (rn_pending r)) = ag_max_pending ag \<and> i = fst (hd (rn_pending r)))"
    if "map_of (rn_pending r) i = Some env" for i env
    using that ok unfolding q(1)
    by (cases "rn_pending r") (auto simp: over_cap_def drop_oldest_def buffer_ok_def split: if_splits)
  have "int (length (AList.update k e (rn_pending q))) \<le> ag_max_pending ag"
    using update_length [of k e "rn_pending q"] len by linarith
  then show ?thesis
    using kept dq distinct_update [OF dq] by (auto simp: buffer_ok_def buffered_def q(2) update_conv')
qed

lemma same_buffer: "rn_pending r' = rn_pending r \<Longrightarrow> buffer_ok ag r \<Longrightarrow> buffer_ok ag r' \<and> buffered ag k r r'"
  by (simp add: buffer_ok_def buffered_def)

lemma ack_buffer:
  assumes "handle_result_ack rp message r = Inr r'" "buffer_ok ag r"
  shows "buffer_ok ag r' \<and> (\<exists>payload. payload_of message = Inr payload
      \<and> rn_pending r' = AList.delete (get_str rp payload ''task_id'' []) (rn_pending r))"
proof -
  obtain payload where p: "payload_of message = Inr payload"
      "r' = snd (result_acknowledged (get_str rp payload ''task_id'' []) r)"
    using assms(1) by (auto simp: handle_result_ack_def bind_exn_def split: sum.splits)
  let ?k = "get_str rp payload ''task_id'' []"
  have pend: "rn_pending r' = AList.delete ?k (rn_pending r)"
    by (simp add: p(2) result_acknowledged_def Let_def)
  have "length (AList.delete ?k (rn_pending r)) \<le> length (rn_pending r)"
    by (simp add: AList.delete_eq)
  then have "int (length (AList.delete ?k (rn_pending r))) \<le> ag_max_pending ag"
    using assms(2) by (simp add: buffer_ok_def)
  moreover have "distinct (map fst (AList.delete ?k (rn_pending r)))"
    using assms(2) by (intro distinct_delete) (simp add: buffer_ok_def)
  ultimately show ?thesis using p(1) pend by (simp add: buffer_ok_def)
qed

lemma message_buffer:
  assumes "on_message ag rp corr fresh now message r = (ms, rea, s, r')" "buffer_ok ag r"
  shows "buffer_ok ag r' \<and> (rn_pending r' = rn_pending r
     \<or> (\<exists>payload. dict_get message ''message_type'' = PStr ''task_result_ack'' \<and> payload_of message = Inr payload
         \<and> rn_pending r' = AList.delete (get_str rp payload ''task_id'' []) (rn_pending r)))"
proof (cases "dict_get message ''message_type'' = PStr ''task_result_ack''")
  case True
  then show ?thesis
    using assms ack_buffer [OF _ assms(2), of rp message]
    by (auto simp: on_message_def reacted_def split: sum.splits)
next
  case False
  have a: "rn_pending r2 = rn_pending r1" if "handle_assignment ag rp corr fresh now message r1 = (out, r2)" for out r1 r2
    using that by (auto simp: handle_assignment_def Let_def split: sum.splits if_splits)
  have c: "rn_pending r2 = rn_pending r1" if "handle_cancel rp message r1 = Inr r2" for r1 r2
    using that by (auto simp: handle_cancel_def Let_def bind_exn_def split: sum.splits option.splits)
  have "rn_pending r' = rn_pending r"
    using assms(1) False
    by (auto simp: on_message_def reacted_def Let_def dest: a c split: if_splits sum.splits prod.splits)
  then show ?thesis using same_buffer [OF _ assms(2)] by simp
qed

lemma node_step_buffer:
  assumes "node_step ag ev n m" and ok: "buffer_ok ag (nd_runner n)" and cap: "1 \<le> ag_max_pending ag"
  shows "buffer_ok ag (nd_runner m)
    \<and> (map_of (rn_pending (nd_runner n)) i = Some env \<longrightarrow> map_of (rn_pending (nd_runner m)) i = Some env
      \<or> (\<exists>message. ev = Received message \<and> answers message i)
      \<or> (\<exists>t v. ev = Ended t (Inr v) \<and> (rt_id t = i
           \<or> (int (length (rn_pending (nd_runner n))) = ag_max_pending ag \<and> i = fst (hd (rn_pending (nd_runner n)))))))"
  using assms(1)
proof cases
  case (received rp corr fresh now message ms rea s r)
  from message_buffer [OF received(3) ok] show ?thesis
  proof (elim conjE disjE exE)
    fix payload
    assume b: "buffer_ok ag r" "dict_get message ''message_type'' = PStr ''task_result_ack''"
      "payload_of message = Inr payload"
      and d: "rn_pending r = AList.delete (get_str rp payload ''task_id'' []) (rn_pending (nd_runner n))"
    have "map_of (rn_pending r) i = Some env \<or> answers message i"
      if "map_of (rn_pending (nd_runner n)) i = Some env"
      using b(2,3) d that by (auto simp: answers_def delete_conv' fun_upd_other)
    with b(1) received(1,2) show ?thesis by auto
  qed (use received in simp)
next
  case (ended xs t ys fr names verdict now out r)
  show ?thesis
  proof (cases "\<exists>v e. verdict = Inr v \<and> record_result ag (rt_id t) e (nd_runner n) = Inr r")
    case True
    then obtain v e where v: "verdict = Inr v" "record_result ag (rt_id t) e (nd_runner n) = Inr r" by blast
    from record_buffer [OF cap ok v(2)] ended(1,2) v(1) show ?thesis by (auto simp: buffered_def)
  next
    case False
    have "r = nd_runner n"
      using ended(4) False by (auto simp: execution_ends_def bind_exn_def split: sum.splits)
    with ended(2) ok show ?thesis by simp
  qed
next
  case (greeted ack b out r)
  have "rn_pending r = rn_pending (nd_runner n)"
    using greeted(3) by (auto simp: on_hello_ack_def attach_def split: if_splits sum.splits)
  with greeted(2) ok show ?thesis by (simp add: buffer_ok_def)
next
  case (reported now ms r)
  have "rn_pending r = rn_pending (nd_runner n)" using reported(3) by (auto simp: progress_pass_def)
  with reported(2) ok show ?thesis by (simp add: buffer_ok_def)
qed (use ok in \<open>simp_all add: execution_retired_def detach_def mark_sent_def cancel_all_def buffer_ok_def\<close>)

lemma node_reachable_buffer:
  assumes "1 \<le> ag_max_pending ag" "node_reachable ag n"
  shows "buffer_ok ag (nd_runner n)"
  using assms(2) unfolding node_reachable_def
proof (induction rule: rtranclp_induct)
  case base
  then show ?case using assms(1) by (simp add: node_start_def buffer_ok_def new_runner_def)
next
  case (step n m)
  then show ?case using node_step_buffer assms(1) by blast
qed

text \<open>
  C9: A worker never holds a task it is not executing and never holds more than it may: in
  every interleaving of messages, executions, session changes and reports the entries of
  running are exactly the executions in progress, each under one task id, their number is
  the number of taken slots and at most the concurrency the worker declared; and the buffer
  of finished results stays within its cap.
\<close>

theorem worker_capacity_kept:
  assumes "0 \<le> ag_max_concurrent ag" "1 \<le> ag_max_pending ag" "node_reachable ag n"
  shows "tasks_in_flight (nd_runner n) = int (length (nd_live n))
    \<and> tasks_in_flight (nd_runner n) = ag_max_concurrent ag - rn_slots (nd_runner n)
    \<and> tasks_in_flight (nd_runner n) \<le> ag_max_concurrent ag
    \<and> fst ` set (rn_running (nd_runner n)) = rt_id ` fst ` set (nd_live n)
    \<and> int (length (rn_pending (nd_runner n))) \<le> ag_max_pending ag"
proof -
  from node_reachable_capacity [OF assms(1,3)] have c: "capacity_ok n"
    and m: "rn_max (nd_runner n) = ag_max_concurrent ag" by auto
  have "fst ` set (rn_running (nd_runner n)) = fst ` set (map (\<lambda>(i, t). (i, fixed t)) (rn_running (nd_runner n)))"
    by force
  also have "\<dots> = fst ` set (map (\<lambda>(t, b). (rt_id t, fixed t)) (nd_live n))"
    using c by (simp only: capacity_ok_def)
  also have "\<dots> = rt_id ` fst ` set (nd_live n)" by force
  finally have keys: "fst ` set (rn_running (nd_runner n)) = rt_id ` fst ` set (nd_live n)" .
  have "length (rn_running (nd_runner n)) = card (fst ` set (rn_running (nd_runner n)))"
    using c distinct_card [of "map fst (rn_running (nd_runner n))"] by (simp add: capacity_ok_def)
  also have "\<dots> = length (nd_live n)"
    using c distinct_card [of "map (rt_id \<circ> fst) (nd_live n)"] by (simp add: capacity_ok_def keys image_comp)
  finally show ?thesis
    using c m keys node_reachable_buffer [OF assms(2,3)]
    by (simp add: tasks_in_flight_def capacity_ok_def buffer_ok_def)
qed

text \<open>
  C10: A finished result is not lost by accident: whatever the worker does next, a result in
  the buffer stays there unless the step answers for that task, is the end of another
  execution of the same task, or is the end of any execution while the buffer is full and
  this result is its oldest. Disconnecting, reconnecting, failed sends and cancellations
  never remove one.
\<close>

theorem finished_results_kept:
  assumes "1 \<le> ag_max_pending ag" "node_reachable ag n" "node_step ag ev n m"
    and "map_of (rn_pending (nd_runner n)) i = Some env"
  shows "map_of (rn_pending (nd_runner m)) i = Some env
    \<or> (\<exists>message. ev = Received message \<and> answers message i)
    \<or> (\<exists>t v. ev = Ended t (Inr v) \<and> (rt_id t = i
         \<or> (int (length (rn_pending (nd_runner n))) = ag_max_pending ag \<and> i = fst (hd (rn_pending (nd_runner n))))))"
  using node_step_buffer [OF assms(3) node_reachable_buffer [OF assms(1,2)] assms(1)] assms(4) by blast

subsection \<open>A concrete worker\<close>

text \<open>One task arrives, runs and ends with the result 1; then its coroutine is done.\<close>

definition ex_agent :: agent where "ex_agent = default_agent ''w''"

definition ex_assign :: pydict where
  "ex_assign = [(''message_type'', PStr ''task_assign''), (''correlation_id'', PStr ''c''),
     (''payload'', PDict [(''task_id'', PStr ''t''), (''task_type'', PStr ''sleep''), (''attempt'', PInt 0)])]"

definition ex_run :: running_task where
  "ex_run = admitted ''t'' ''sleep'' ''c'' 5 0 0 ''token''"

definition ex_busy :: node where
  "ex_busy = \<lparr>nd_runner = (new_runner 4)\<lparr>rn_slots := 3, rn_running := [(''t'', ex_run)]\<rparr>, nd_live = [(ex_run, False)]\<rparr>"

lemma ex_assigned: "on_message ex_agent (\<lambda>_. []) ''s'' ''token'' 5 ex_assign (new_runner 4) =
    ([ack_message ''c'' ''t'', task_started_message ''c'' ''t'' ''sleep''], Continue, Some (ex_run, PDict []),
     nd_runner ex_busy)"
proof -
  have "payload_of ex_assign = Inr [(''task_id'', PStr ''t''), (''task_type'', PStr ''sleep''), (''attempt'', PInt 0)]"
    by (simp add: payload_of_def ex_assign_def dict_get_def py_or_def)
  moreover have "get_str rp ex_assign ''correlation_id'' d = ''c''" for rp d
    by (simp add: ex_assign_def)
  moreover have "dict_get ex_assign ''message_type'' = PStr ''task_assign''"
    by (simp add: ex_assign_def dict_get_def)
  ultimately show ?thesis
    by (simp add: on_message_def handle_assignment_def ex_agent_def default_agent_def EXECUTORS_def new_runner_def
        dict_get_def coerce_int_def ex_run_def ex_busy_def py_or_def Let_def)
qed

lemma ex_busy_step: "node_step ex_agent (Received ex_assign) (node_start ex_agent) ex_busy"
proof -
  have start: "nd_runner (node_start ex_agent) = new_runner 4" "nd_live (node_start ex_agent) = []"
    by (simp_all add: node_start_def ex_agent_def default_agent_def)
  have "node_step ex_agent (Received ex_assign) (node_start ex_agent)
      ((node_start ex_agent)\<lparr>nd_runner := nd_runner ex_busy, nd_live := nd_live (node_start ex_agent) @ started (Some (ex_run, PDict []))\<rparr>)"
    by (rule received [OF ex_assigned [folded start(1)]]) simp
  then show ?thesis by (simp add: start started_def ex_busy_def node_start_def)
qed

lemma ex_busy_reachable: "node_reachable ex_agent ex_busy"
  unfolding node_reachable_def using ex_busy_step by blast

definition ex_envelope :: pydict where
  "ex_envelope = [(''task_id'', PStr ''t''), (''status'', PStr ''COMPLETED''), (''attempt_number'', PInt 0),
     (''session_epoch'', PInt 0), (''idempotency_token'', PStr ''token''), (''duration_seconds'', PFloat (Fin 2)),
     (''result'', PInt 1), (''truncated'', PBool False), (''correlation_id'', PStr ''c'')]"

definition ex_done :: node where
  "ex_done = ex_busy\<lparr>nd_runner := (nd_runner ex_busy)\<lparr>rn_pending := [(''t'', ex_envelope)], rn_due := True\<rparr>,
     nd_live := [(ex_run, True)]\<rparr>"

lemma ex_built: "build_result_envelope (\<lambda>_. ''2.0'') ex_agent ex_run (PInt 1) 2 = Inr (butlast ex_envelope)"
proof -
  have "round3 (Fin 2) = Fin 2" by (simp add: round_half_even_def)
  then show ?thesis
    by (simp add: build_result_envelope_def json_size_def ex_run_def admitted_def RESULT_STATUS_COMPLETED_def
        ex_envelope_def ex_agent_def default_agent_def json_string_def escape_char_def Let_def show_int_def
        show_nat.simps)
qed

lemma ex_done_step: "node_step ex_agent (Ended ex_run (Inr (PInt 1))) ex_busy ex_done"
proof -
  have runner: "nd_runner ex_busy = (new_runner 4)\<lparr>rn_slots := 3, rn_running := [(''t'', ex_run)]\<rparr>"
    by (simp add: ex_busy_def)
  have "execution_ends (\<lambda>_. ''2.0'') (\<lambda>_. []) ex_agent ex_run (Inr (PInt 1)) 7 (nd_runner ex_busy) =
      (Inr [], nd_runner ex_done)"
    using ex_built
    by (simp add: execution_ends_def record_result_def make_room.simps over_cap_def runner new_runner_def ex_run_def
        admitted_def ex_envelope_def ex_done_def submit_result_def report_message_def)
      (simp add: ex_agent_def default_agent_def)
  from ended [OF _ this, of "[]" "[]"] show ?thesis by (simp add: ex_busy_def ex_done_def)
qed

lemma ex_done_reachable: "node_reachable ex_agent ex_done"
  using ex_busy_reachable ex_done_step unfolding node_reachable_def by (metis (no_types, lifting) rtranclp.rtrancl_into_rtrancl)

theorem worker_capacity_kept_witness:
  "tasks_in_flight (nd_runner ex_busy) = 1 \<and> tasks_in_flight (nd_runner ex_busy) = 4 - rn_slots (nd_runner ex_busy)"
proof -
  have "tasks_in_flight (nd_runner ex_busy) = int (length (nd_live ex_busy))
      \<and> tasks_in_flight (nd_runner ex_busy) = ag_max_concurrent ex_agent - rn_slots (nd_runner ex_busy)"
    using worker_capacity_kept [OF _ _ ex_busy_reachable] by (simp add: ex_agent_def default_agent_def)
  then show ?thesis by (simp add: ex_busy_def ex_agent_def default_agent_def)
qed

theorem finished_results_kept_witness:
  "map_of (rn_pending (detach (nd_runner ex_done))) ''t'' = Some ex_envelope"
proof -
  have "1 \<le> ag_max_pending ex_agent" by (simp add: ex_agent_def default_agent_def)
  from finished_results_kept [OF this ex_done_reachable detached, of "''t''" ex_envelope]
  show ?thesis by (simp add: ex_done_def)
qed

end
