(* ===== verification/WorkerContract.thy ===== *)
theory WorkerContract
  imports WorkerProperties ExecutorProperties Examples
begin

text \<open>
  The worker against the coordinator: the envelopes it submits are the ones the coordinator
  reads, with nothing changed on the way; what a busy worker does with a second attempt of the
  task it is executing; what a reconnect delivers; and how long the reconnect loop lives.
\<close>

subsection \<open>What the worker submits\<close>

lemma round3_idem: "round3 (round3 (Fin x)) = round3 (Fin x)"
proof -
  have "round_half_even (of_int n) = n" for n :: int by (simp add: round_half_even_def)
  then show ?thesis by simp
qed

text \<open>The envelope a worker builds is the one the coordinator would rebuild from it.\<close>

definition worker_envelope :: "running_task \<Rightarrow> pyval \<Rightarrow> rat \<Rightarrow> bool \<Rightarrow> int \<Rightarrow> pydict" where
  "worker_envelope t result duration emptied nbytes = base_envelope (rt_id t) COMPLETED (rt_attempt t) (rt_epoch t)
     (rt_token t) (Fin duration) (if emptied then PNone else result) emptied (PInt nbytes)"

lemma built:
  assumes "build_result_envelope fr ag t result duration = Inr env"
  obtains nbytes where "json_size fr (worker_envelope t result duration False 0) = Inr nbytes"
    "env = worker_envelope t result duration (ag_max_result ag < nbytes) nbytes"
proof -
  obtain nbytes where s: "json_size fr (worker_envelope t result duration False 0) = Inr nbytes"
    using assms by (auto simp: build_result_envelope_def worker_envelope_def base_envelope_def bind_exn_def
        RESULT_STATUS_COMPLETED_def COMPLETED_def Let_def split: sum.splits)
  moreover have "0 \<le> nbytes" using s by (auto simp: json_size_def split: sum.splits)
  ultimately have "env = worker_envelope t result duration (ag_max_result ag < nbytes) nbytes"
    using assms by (auto simp: build_result_envelope_def worker_envelope_def base_envelope_def bind_exn_def
        RESULT_STATUS_COMPLETED_def COMPLETED_def Let_def)
  with s show thesis by (rule that)
qed

lemma worker_envelope_get [simp]:
  "dict_get (worker_envelope t r x b n) ''task_id'' = PStr (rt_id t)"
  "dict_get (worker_envelope t r x b n) ''status'' = PStr COMPLETED"
  "dict_get (worker_envelope t r x b n) ''attempt_number'' = PInt (rt_attempt t)"
  "dict_get (worker_envelope t r x b n) ''session_epoch'' = PInt (rt_epoch t)"
  "dict_get (worker_envelope t r x b n) ''idempotency_token'' = PStr (rt_token t)"
  "dict_get (worker_envelope t r x b n) ''duration_seconds'' = PFloat (round3 (Fin x))"
  "dict_get (worker_envelope t r x b n) ''result'' = (if b then PNone else r)"
  by (simp_all add: worker_envelope_def base_envelope_get)

text \<open>The payload of the message: the correlation id travels outside.\<close>

definition submitted_payload :: "running_task \<Rightarrow> pydict \<Rightarrow> pydict" where
  "submitted_payload t env = og_payload (result_message (rt_id t)
     (AList.update ''correlation_id'' (PStr (rt_correlation t)) env))"

lemma submitted_is_built:
  "build_result_envelope fr ag t result duration = Inr env \<Longrightarrow> submitted_payload t env = env"
  by (erule built) (auto simp: submitted_payload_def result_message_def worker_envelope_def base_envelope_def)

definition presentable :: "running_task \<Rightarrow> bool" where
  "presentable t \<longleftrightarrow> (\<exists>i. rt_id t = uuid_str i) \<and> 0 \<le> rt_attempt t \<and> 0 \<le> rt_epoch t
     \<and> rt_token t \<noteq> [] \<and> length (rt_token t) \<le> MAX_TOKEN_CHARS"

lemma validate_built:
  assumes "presentable t" "0 \<le> duration" "build_result_envelope fr ag t result duration = Inr env"
  shows "validate rp fr mb (Some env) = seal fr mb env"
proof -
  obtain i where i: "rt_id t = uuid_str i" using assms(1) by (auto simp: presentable_def)
  from assms(3) obtain nbytes where e: "env = worker_envelope t result duration (ag_max_result ag < nbytes) nbytes"
      "json_size fr (worker_envelope t result duration False 0) = Inr nbytes"
    by (rule built)
  have "0 \<le> nbytes" using e(2) by (auto simp: json_size_def split: sum.splits)
  have "- (1 / 2) \<le> rat_of_int (round_half_even (duration * 1000))"
    using round_half_even_near [of "duration * 1000"] assms(2) by simp
  then have dur: "0 \<le> round_half_even (duration * 1000)" by linarith
  have id: "require_task_id rp env = Inr (rt_id t)"
    using uuid_str_nonempty [of i] by (simp add: require_task_id_Inr get_str_def e(1) py_or_def i parse_uuid_str)
  have st: "require_status rp env = Inr COMPLETED"
    by (simp add: require_status_Inr get_str_def e(1) py_or_def COMPLETED_def)
  have tok: "require_token env = Inr (rt_token t)"
    using assms(1) by (simp add: require_token_Inr e(1) presentable_def)
  have rd: "require_duration env = Inr (PFloat (round3 (Fin duration)))"
    using dur by (simp add: require_duration_def e(1))
  have ints: "require_int env ''attempt_number'' code 0 = Inr (rt_attempt t)"
      "require_int env ''session_epoch'' code 0 = Inr (rt_epoch t)" for code
    using assms(1) by (simp_all add: require_int_Inr e(1) presentable_def)
  have "validate rp fr mb (Some env) = seal fr mb (base_envelope (rt_id t) COMPLETED (rt_attempt t) (rt_epoch t)
      (rt_token t) (round3 (Fin duration)) (dict_get env ''result'') (truthy (dict_get env ''truncated''))
      (dict_get env ''original_size_bytes''))"
    by (simp add: validate_def id st tok rd ints)
  also have "base_envelope (rt_id t) COMPLETED (rt_attempt t) (rt_epoch t) (rt_token t) (round3 (Fin duration))
      (dict_get env ''result'') (truthy (dict_get env ''truncated'')) (dict_get env ''original_size_bytes'') = env"
    using round3_idem [of duration] \<open>0 \<le> nbytes\<close>
    unfolding e(1) worker_envelope_def by (auto simp: base_envelope_def dict_get_def)
  finally show ?thesis .
qed

lemma submitted_read:
  assumes "presentable t" "0 \<le> duration" "build_result_envelope fr ag t result duration = Inr env"
    and "ag_max_result ag \<le> mb"
  shows "\<exists>stored. validate rp fr mb (Some (submitted_payload t env)) = Inr stored
    \<and> dict_get stored ''task_id'' = PStr (rt_id t) \<and> dict_get stored ''attempt_number'' = PInt (rt_attempt t)
    \<and> dict_get stored ''session_epoch'' = PInt (rt_epoch t) \<and> dict_get stored ''idempotency_token'' = PStr (rt_token t)
    \<and> dict_get stored ''result'' = dict_get env ''result''
    \<and> dict_get env ''result'' \<in> {result, PNone}"
proof -
  obtain nbytes where e: "env = worker_envelope t result duration (ag_max_result ag < nbytes) nbytes"
      "json_size fr (worker_envelope t result duration False 0) = Inr nbytes"
    using assms(3) by (rule built)
  have same: "worker_envelope t result duration False x = worker_envelope t result duration False y" for x y
    by (simp add: worker_envelope_def base_envelope_def)
  obtain m where m: "json_size fr env = Inr m" "ag_max_result ag < nbytes \<or> m \<le> mb"
  proof (cases "ag_max_result ag < nbytes")
    case False
    with e same [of nbytes 0] have "json_size fr env = Inr nbytes" by simp
    then show thesis using that False assms(4) by auto
  next
    case True
    have "\<forall>(k, v) \<in> set (worker_envelope t result duration True nbytes). encodable fr v"
      using e(2) True json_size_ok_iff [of fr "worker_envelope t result duration False 0"]
      by (auto simp: worker_envelope_def base_envelope_def)
    then have "\<exists>k. json_size fr env = Inr k"
      unfolding e(1) using True by (simp add: json_size_ok_iff)
    then obtain k where "json_size fr env = Inr k" ..
    then show thesis by (rule that) (rule disjI1 [OF True])
  qed
  obtain stored where st: "seal fr mb env = Inr stored"
  proof -
    obtain k where "json_size fr (if mb < m then stripped_envelope m env else env) = Inr k"
      using m(1) stripped_size [OF m(1), of m] by (cases "mb < m") auto
    then have "seal fr mb env = Inr (AList.update ''size_bytes'' (PInt k) (if mb < m then stripped_envelope m env else env))"
      by (simp add: seal_total m(1) Let_def)
    then show thesis by (rule that)
  qed
  have "validate rp fr mb (Some (submitted_payload t env)) = Inr stored"
    unfolding submitted_is_built [OF assms(3)] using validate_built [OF assms(1-3)] st by simp
  moreover have "dict_get stored ''result'' = dict_get env ''result''"
  proof (rule seal_Inr [OF st])
    fix n k
    assume n: "json_size fr env = Inr n"
      and s: "stored = AList.update ''size_bytes'' (PInt k) (if mb < n then stripped_envelope n env else env)"
    have "dict_get env ''result'' = PNone" if "mb < n"
      using m n that by (simp add: e(1))
    then show ?thesis by (auto simp: s dict_get_update stripped_envelope_def)
  qed
  moreover have "dict_get env ''result'' \<in> {result, PNone}"
    by (simp add: e(1))
  moreover have "dict_get stored j = dict_get env j"
    if "j \<in> {''task_id'', ''attempt_number'', ''session_epoch'', ''idempotency_token''}" for j
    using that by (intro seal_get [OF st]) auto
  ultimately show ?thesis by (intro exI [of _ stored]) (simp add: e(1))
qed

lemma submitted_result_read_fields:
  assumes "presentable t" "0 \<le> duration" "build_result_envelope fr ag t result duration = Inr env"
    and "ag_max_result ag \<le> mb" "validate rp fr mb (Some (submitted_payload t env)) = Inr stored"
  shows "dict_get stored ''task_id'' = PStr (rt_id t) \<and> dict_get stored ''attempt_number'' = PInt (rt_attempt t)"
  using submitted_read [OF assms(1-4), of rp] assms(5) by auto

text \<open>
  C8: What a worker submits is what the coordinator stores: for a task it was assigned under a
  canonical id, the envelope the worker builds passes the coordinator's validation and is
  stored with the same task, attempt, epoch and token and with the same result body (none,
  when the worker had to drop it), as long as the worker's size cap is no larger than the
  coordinator's.
\<close>

theorem submitted_result_is_read:
  assumes "presentable t" "0 \<le> duration" "build_result_envelope fr ag t result duration = Inr env"
    and "ag_max_result ag \<le> mb"
  shows "\<exists>stored. validate rp fr mb (Some (submitted_payload t env)) = Inr stored
    \<and> dict_get stored ''task_id'' = PStr (rt_id t) \<and> dict_get stored ''attempt_number'' = PInt (rt_attempt t)
    \<and> dict_get stored ''session_epoch'' = PInt (rt_epoch t) \<and> dict_get stored ''idempotency_token'' = PStr (rt_token t)
    \<and> dict_get stored ''result'' = dict_get env ''result''
    \<and> dict_get env ''result'' \<in> {result, PNone}"
  by (rule submitted_read [OF assms])

subsection \<open>A second attempt of a running task\<close>

text \<open>
  C13: A second attempt given to a worker that still executes the first is lost: the worker
  acknowledges the assignment as accepted and starts nothing, whatever attempt the message
  names, and the result it ends up submitting carries the old attempt, which no database in
  which the task has moved on accepts.
\<close>

theorem reassignment_to_busy_worker_lost:
  assumes "payload_of message = Inr payload" "get_str rp payload ''task_id'' [] = rt_id t"
    and "get_str rp payload ''task_type'' [] = ty" "ty \<in> set (ag_types ag)" "ty \<in> set (map fst EXECUTORS)"
    and running: "map_of (rn_running r) (rt_id t) = Some t" and "presentable t" "0 \<le> duration"
    and env: "build_result_envelope fr ag t result duration = Inr env" "ag_max_result ag \<le> mb"
    and validated: "validate rp fr mb (Some (submitted_payload t env)) = Inr stored"
    and db: "db_ok d" "rt_id t = uuid_str i" "find_task d i = Some row" "tk_attempt row \<noteq> rt_attempt t"
  shows "handle_assignment ag rp corr fresh now' message r =
      (Inr ([ack_message (get_str rp message ''correlation_id'' corr) (rt_id t)], None), r)
    \<and> complete_task rp stored w rid aid now d \<noteq> Inr (TRANSITIONED, e)"
proof
  show "handle_assignment ag rp corr fresh now' message r =
      (Inr ([ack_message (get_str rp message ''correlation_id'' corr) (rt_id t)], None), r)"
    using assms(1-6) by (simp add: handle_assignment_def Let_def)
  have id: "dict_get stored ''task_id'' = PStr (rt_id t)"
    and attempt: "dict_get stored ''attempt_number'' = PInt (rt_attempt t)"
    using submitted_result_read_fields [OF assms(7,8) env validated] by simp_all
  show "complete_task rp stored w rid aid now d \<noteq> Inr (TRANSITIONED, e)"
  proof
    assume "complete_task rp stored w rid aid now d = Inr (TRANSITIONED, e)"
    then show False
    proof (cases rule: complete_task_found)
    case (2 j u v)
    have "v = PStr (rt_id t)" using 2(1) id by (simp add: dict_get_def)
    with 2(2,3) db(2,3) have "u = row" by (simp add: parse_uuid_str)
    with 2(4) attempt db(4) show False
      by (cases rule: complete_locked_cases [OF db_ok_find [OF db(1) 2(3)]]) auto
    qed simp
  qed
qed

subsection \<open>The background loops\<close>

text \<open>What a pass sends when nothing else runs: the due results in order, up to the first send that fails.\<close>

lemma awaiting_mark: "i \<noteq> j \<Longrightarrow> awaiting_ack ag x i (mark_sent b j y r) = awaiting_ack ag x i r"
  by (simp add: awaiting_ack_def mark_sent_def update_conv' fun_upd_other)

lemma submit_mark: "submit_result i (mark_sent b j y r) = submit_result i r"
  by (simp add: submit_result_def mark_sent_def report_message_def split: option.splits)

lemma pass_exact:
  assumes "rn_attached r" "distinct ids" "set ids \<subseteq> fst ` set (rn_pending r)"
    and "submission_pass ag ok (\<lambda>_ r. r) clock done_at ids r = (d, w, ms, r')"
  shows "ms = concat (map (\<lambda>i. submit_result i r)
      (let due = filter (\<lambda>i. \<not> awaiting_ack ag (clock i) i r) ids in take (Suc (length (takeWhile ok due))) due))
    \<and> rn_pending r' = rn_pending r
    \<and> d = length (takeWhile ok (filter (\<lambda>i. \<not> awaiting_ack ag (clock i) i r) ids))"
  using assms
proof (induction ids arbitrary: r d w ms r')
  case Nil
  then show ?case by simp
next
  case (Cons i ids)
  let ?due = "filter (\<lambda>i. \<not> awaiting_ack ag (clock i) i r) ids"
  have known: "map_of (rn_pending r) i \<noteq> None" using Cons.prems(3) by (auto simp: map_of_eq_None_iff)
  consider (grace) "awaiting_ack ag (clock i) i r" | (fails) "\<not> awaiting_ack ag (clock i) i r" "\<not> ok i"
    | (sent) "\<not> awaiting_ack ag (clock i) i r" "ok i" by blast
  then show ?case
  proof cases
    case grace
    then obtain w' where "submission_pass ag ok (\<lambda>_ r. r) clock done_at ids r = (d, w', ms, r')"
      using Cons.prems(4) by (auto split: prod.splits)
    with Cons.IH [OF Cons.prems(1) _ _ this] Cons.prems(2,3) grace show ?thesis by simp
  next
    case fails
    then show ?thesis using Cons.prems(4) known by (auto simp: Let_def mark_sent_def)
  next
    case sent
    let ?r = "mark_sent True i (done_at i) r"
    from sent obtain d' ms' where rest: "submission_pass ag ok (\<lambda>_ r. r) clock done_at ids ?r = (d', w, ms', r')"
      and out: "d = Suc d'" "ms = submit_result i r @ ms'"
      using Cons.prems(1,4) known by (auto simp: Let_def split: prod.splits)
    have at: "rn_attached ?r" "rn_pending ?r = rn_pending r"
      using Cons.prems(1) by (simp_all add: mark_sent_def)
    have due: "filter (\<lambda>j. \<not> awaiting_ack ag (clock j) j ?r) ids = ?due"
    proof (intro filter_cong refl)
      fix j assume "j \<in> set ids"
      then have "j \<noteq> i" using Cons.prems(2) by auto
      then show "(\<not> awaiting_ack ag (clock j) j ?r) = (\<not> awaiting_ack ag (clock j) j r)" by (simp add: awaiting_mark)
    qed
    from Cons.IH [OF at(1) _ _ rest] Cons.prems(2,3) at(2) due sent out show ?thesis
      by (simp add: submit_mark Let_def)
  qed
qed

text \<open>
  A reconnect delivers everything that is owed: whatever was sent before on the dead
  socket, the first pass after a session is attached puts every buffered result on the wire,
  each once and oldest first, counts them as delivered and keeps all of them until they are
  answered; and the retry loop has been woken for it.
\<close>

theorem reconnect_resubmits_all:
  assumes "distinct (map fst (rn_pending r))" "rn_pending r \<noteq> []"
    and "submission_round ag (\<lambda>_. True) (\<lambda>_ r. r) clock done_at u failures (attach epoch r) = (Inr (n, delay), ms, r')"
  shows "rn_due (attach epoch r) \<and> ms = map (\<lambda>(i, env). result_message i env) (rn_pending r)
    \<and> rn_pending r' = rn_pending r \<and> n = 0"
proof -
  let ?r = "(attach epoch r)\<lparr>rn_due := False\<rparr>"
  have r: "rn_attached ?r" "rn_pending ?r = rn_pending r" "rn_sent_at ?r = []" by (simp_all add: attach_def)
  obtain d w ms' q where pass: "submission_pass ag (\<lambda>_. True) (\<lambda>_ r. r) clock done_at (map fst (rn_pending r)) ?r = (d, w, ms', q)"
    by (metis prod_cases4)
  have due: "filter (\<lambda>i. \<not> awaiting_ack ag (clock i) i ?r) (map fst (rn_pending r)) = map fst (rn_pending r)"
    by (simp add: awaiting_ack_def r(3))
  have "submit_result (fst x) ?r = [case x of (i, env) \<Rightarrow> result_message i env]" if "x \<in> set (rn_pending r)" for x
  proof -
    obtain i env where x: "x = (i, env)" by force
    with that have "map_of (rn_pending r) i = Some env" using assms(1) by simp
    then show ?thesis by (simp add: x submit_result_def report_message_def r)
  qed
  then have "concat (map (\<lambda>i. submit_result i ?r) (map fst (rn_pending r))) = map (\<lambda>(i, env). result_message i env) (rn_pending r)"
    by (induction "rn_pending r") (simp_all add: comp_def cong: map_cong)
  moreover have tw: "takeWhile (\<lambda>_. True) xs = xs" for xs :: "string list" by (induction xs) simp_all
  ultimately have "ms' = map (\<lambda>(i, env). result_message i env) (rn_pending r) \<and> rn_pending q = rn_pending r
      \<and> d = length (rn_pending r)"
    using pass_exact [OF r(1) assms(1) _ pass] r(2) due by (simp add: Let_def tw comp_def)
  with assms(2,3) r(2) pass show ?thesis
    by (auto simp: submission_round_def Let_def bind_exn_def attach_def split: sum.splits)
qed

text \<open>
  The reconnect loop under the default settings, after \<open>failures\<close> attempts in a row without
  a session.
\<close>

lemma double_of_power: "as_double (2 ^ n) = (if n \<le> 1023 then Fin (2 ^ n) else PosInf)"
proof (cases "n \<le> 1023")
  case True
  then have "(2 :: rat) ^ n \<le> 2 ^ 1023" by (intro power_increasing) simp_all
  moreover have "(2 :: rat) ^ 1023 < of_int float_limit" by (simp add: float_limit_def)
  moreover have "- of_int float_limit < (2 :: rat) ^ n"
    by (rule less_trans [of _ 0]) (simp_all add: float_limit_def)
  ultimately have "\<not> of_int float_limit \<le> (2 :: rat) ^ n" "\<not> (2 :: rat) ^ n \<le> - of_int float_limit" by linarith+
  then show ?thesis using True by (simp only: as_double_def if_False if_True)
next
  case False
  then have "(2 :: rat) ^ 1024 \<le> 2 ^ n" by (intro power_increasing) simp_all
  moreover have "of_int float_limit \<le> (2 :: rat) ^ 1024" by (simp add: float_limit_def)
  ultimately have "of_int float_limit \<le> (2 :: rat) ^ n" by linarith
  then show ?thesis using False by (simp only: as_double_def if_False if_True)
qed

text \<open>
  C12: The reconnect loop backs off inside its bounds and dies of a long outage: with the
  default settings the delay after the k-th failed attempt in a row is between 0 and the
  smaller of 30 and 2 to the k, but the 1024th failed attempt in a row raises an overflow
  outside the handler that is there to keep the loop alive, and the loop ends for good.
\<close>

theorem reconnect_loop_outage:
  assumes "ag_ws_base ag = 1" "ag_ws_factor ag = 2" "ag_ws_max ag = 30"
    and "\<forall>(established, u) \<in> set attempts. \<not> established \<and> 0 \<le> u \<and> u \<le> 1"
  shows "(failures + length attempts \<le> 1023 \<longrightarrow> (\<exists>ds. run_ws_forever ag failures attempts = Inr (failures + length attempts, ds)
      \<and> length ds = length attempts \<and> (\<forall>k < length ds. 0 \<le> ds ! k \<and> ds ! k \<le> min 30 (2 ^ (failures + k + 1)))))
    \<and> (1024 \<le> failures + length attempts \<and> failures \<le> 1023 \<longrightarrow> run_ws_forever ag failures attempts = Inl OverflowError)"
  using assms(4)
proof (induction attempts arbitrary: failures)
  case Nil
  then show ?case by simp
next
  case (Cons a attempts)
  obtain established u where a: "a = (established, u)" by force
  have u: "\<not> established" "0 \<le> u" "u \<le> 1" using Cons.prems by (auto simp: a)
  let ?d = "u * min 30 (2 ^ (failures + 1))"
  have "backoff_delay_seconds ag u n = (if n \<le> 1023 then Inr (u * min 30 (2 ^ n)) else Inl OverflowError)" for n
    by (simp add: backoff_delay_seconds_def full_jitter_def assms(1-3) double_of_power)
  then have delay: "backoff_delay_seconds ag u (failures + 1) = (if failures + 1 \<le> 1023 then Inr ?d else Inl OverflowError)" .
  have d: "0 \<le> ?d" "?d \<le> min 30 (2 ^ (failures + 1))"
    using u mult_right_mono [of u 1 "min 30 (2 ^ (failures + 1))"] by simp_all
  have IH: "(Suc failures + length attempts \<le> 1023 \<longrightarrow> (\<exists>ds. run_ws_forever ag (Suc failures) attempts = Inr (Suc failures + length attempts, ds)
      \<and> length ds = length attempts \<and> (\<forall>k < length ds. 0 \<le> ds ! k \<and> ds ! k \<le> min 30 (2 ^ (Suc failures + k + 1)))))
    \<and> (1024 \<le> Suc failures + length attempts \<and> Suc failures \<le> 1023 \<longrightarrow> run_ws_forever ag (Suc failures) attempts = Inl OverflowError)"
    by (rule Cons.IH) (use Cons.prems in simp)
  show ?case
  proof (intro conjI impI)
    assume le: "failures + length (a # attempts) \<le> 1023"
    with IH obtain ds where ds: "run_ws_forever ag (Suc failures) attempts = Inr (Suc failures + length attempts, ds)"
        "length ds = length attempts" "\<forall>k < length ds. 0 \<le> ds ! k \<and> ds ! k \<le> min 30 (2 ^ (Suc failures + k + 1))"
      by auto
    have "0 \<le> (?d # ds) ! k \<and> (?d # ds) ! k \<le> min 30 (2 ^ (failures + k + 1))" if "k < length (?d # ds)" for k
      using that d ds(3) by (cases k) auto
    then show "\<exists>ds. run_ws_forever ag failures (a # attempts) = Inr (failures + length (a # attempts), ds)
        \<and> length ds = length (a # attempts) \<and> (\<forall>k < length ds. 0 \<le> ds ! k \<and> ds ! k \<le> min 30 (2 ^ (failures + k + 1)))"
      using le ds(1,2) delay u(1) by (intro exI [of _ "?d # ds"]) (simp add: a)
  next
    assume "1024 \<le> failures + length (a # attempts) \<and> failures \<le> 1023"
    then show "run_ws_forever ag failures (a # attempts) = Inl OverflowError"
      using IH delay u(1) by (cases "failures + 1 \<le> 1023") (simp_all add: a)
  qed
qed

subsection \<open>Concrete instances\<close>

text \<open>Task 10 runs under attempt 0 while the table of \<open>ex_running\<close> has moved on to attempt 1.\<close>

definition ex_first :: running_task where
  "ex_first = admitted (uuid_str 10) ''sleep'' ''c'' 5 0 0 ''token''"

definition ex_second :: pydict where
  "ex_second = [(''message_type'', PStr ''task_assign''), (''correlation_id'', PStr ''c''),
     (''payload'', PDict [(''task_id'', PStr (uuid_str 10)), (''task_type'', PStr ''sleep''), (''attempt'', PInt 1)])]"

lemma ex_first_sel [simp]: "rt_id ex_first = uuid_str 10" "rt_attempt ex_first = 0"
  by (simp_all add: ex_first_def admitted_def)

lemma ex_first_presentable: "presentable ex_first"
  by (auto simp: presentable_def ex_first_def admitted_def MAX_TOKEN_CHARS_def)

lemma ex_first_built: "\<exists>env. build_result_envelope (\<lambda>_. ''2.0'') ex_agent ex_first (PInt 1) 2 = Inr env"
proof -
  have "\<exists>n. json_size (\<lambda>_. ''2.0'') (worker_envelope ex_first (PInt 1) 2 False 0) = Inr n"
    by (simp add: json_size_ok_iff worker_envelope_def base_envelope_def)
  then show ?thesis
    by (auto simp: build_result_envelope_def worker_envelope_def base_envelope_def RESULT_STATUS_COMPLETED_def
        COMPLETED_def Let_def)
qed

lemma ex_agent_sel [simp]: "ag_max_result ex_agent = 131072" "ag_types ex_agent =
    [''count_to_n'', ''hash_rounds'', ''sleep'', ''opaque_payload'']"
  by (simp_all add: ex_agent_def default_agent_def)

theorem submitted_result_is_read_witness:
  "\<exists>env stored. build_result_envelope (\<lambda>_. ''2.0'') ex_agent ex_first (PInt 1) 2 = Inr env
    \<and> validate (\<lambda>_. []) (\<lambda>_. ''2.0'') 131072 (Some (submitted_payload ex_first env)) = Inr stored
    \<and> dict_get stored ''result'' = dict_get env ''result''"
proof -
  obtain env where env: "build_result_envelope (\<lambda>_. ''2.0'') ex_agent ex_first (PInt 1) 2 = Inr env"
    using ex_first_built by blast
  from submitted_result_is_read [OF ex_first_presentable _ env, of 131072 "\<lambda>_. []"] env show ?thesis by auto
qed

theorem reassignment_to_busy_worker_lost_witness:
  "\<exists>stored. complete_task (\<lambda>_. []) stored 1 7 8 50 ex_running \<noteq> Inr (TRANSITIONED, ex_running)
    \<and> handle_assignment ex_agent (\<lambda>_. []) ''s'' ''new'' 9 ex_second ((new_runner 4)\<lparr>rn_running := [(uuid_str 10, ex_first)]\<rparr>)
      = (Inr ([ack_message ''c'' (uuid_str 10)], None), (new_runner 4)\<lparr>rn_running := [(uuid_str 10, ex_first)]\<rparr>)"
proof -
  let ?r = "(new_runner 4)\<lparr>rn_running := [(uuid_str 10, ex_first)]\<rparr>"
  let ?p = "[(''task_id'', PStr (uuid_str 10)), (''task_type'', PStr ''sleep''), (''attempt'', PInt 1)]"
  obtain env where env: "build_result_envelope (\<lambda>_. ''2.0'') ex_agent ex_first (PInt 1) 2 = Inr env"
    using ex_first_built by blast
  obtain stored where st: "validate (\<lambda>_. []) (\<lambda>_. ''2.0'') 131072 (Some (submitted_payload ex_first env)) = Inr stored"
    using submitted_read [OF ex_first_presentable _ env, of 131072 "\<lambda>_. []"] by auto
  have p: "payload_of ex_second = Inr ?p" by (simp add: payload_of_def ex_second_def dict_get_def py_or_def)
  have i: "get_str (\<lambda>_. []) ?p ''task_id'' [] = rt_id ex_first" using uuid_str_nonempty by simp
  have ty: "get_str (\<lambda>_. []) ?p ''task_type'' [] = ''sleep''" by simp
  have row: "find_task ex_running 10 = Some ex_running_task" by (simp add: find_task_def)
  have "handle_assignment ex_agent (\<lambda>_. []) ''s'' ''new'' 9 ex_second ?r
      = (Inr ([ack_message (get_str (\<lambda>_. []) ex_second ''correlation_id'' ''s'') (rt_id ex_first)], None), ?r)
    \<and> complete_task (\<lambda>_. []) stored 1 7 8 50 ex_running \<noteq> Inr (TRANSITIONED, ex_running)"
    by (rule reassignment_to_busy_worker_lost [OF p i ty _ _ _ ex_first_presentable _ env _ st ex_running_ok _ row])
      (simp_all add: EXECUTORS_def)
  then show ?thesis by (intro exI [of _ stored]) (simp add: ex_second_def)
qed

lemma ex_resubmitted:
  "submission_round ex_agent (\<lambda>_. True) (\<lambda>_ r. r) (\<lambda>_. 20) (\<lambda>_. 20) 0 3 (attach 2 (nd_runner ex_done)) =
    (Inr (0, 0), [result_message ''t'' ex_envelope], mark_sent True ''t'' 20 (attach 2 (nd_runner ex_done))\<lparr>rn_due := False\<rparr>)"
proof -
  have d: "nd_runner ex_done = \<lparr>rn_max = 4, rn_running = [(''t'', ex_run)], rn_slots = 3, rn_attached = False,
      rn_epoch = 0, rn_pending = [(''t'', ex_envelope)], rn_sent_at = [], rn_due = True\<rparr>"
    by (simp add: ex_done_def ex_busy_def new_runner_def)
  show ?thesis
    using double_of_power [of 0]
    by (simp add: d submission_round_def attach_def awaiting_ack_def submit_result_def report_message_def mark_sent_def
        full_jitter_def Let_def ex_agent_def default_agent_def)
qed

theorem reconnect_resubmits_all_witness:
  "fst (snd (submission_round ex_agent (\<lambda>_. True) (\<lambda>_ r. r) (\<lambda>_. 20) (\<lambda>_. 20) 0 3 (attach 2 (nd_runner ex_done)))) =
    [result_message ''t'' ex_envelope]"
proof -
  have "rn_pending (nd_runner ex_done) = [(''t'', ex_envelope)]" by (simp add: ex_done_def)
  with reconnect_resubmits_all [OF _ _ ex_resubmitted] show ?thesis by (simp add: ex_resubmitted)
qed

theorem reconnect_loop_outage_witness:
  "run_ws_forever (default_agent ''w'') 0 (replicate 1024 (False, 0)) = Inl OverflowError"
proof -
  have "\<forall>(established, u) \<in> set (replicate 1024 (False, 0 :: rat)). \<not> established \<and> 0 \<le> u \<and> u \<le> 1"
    by (simp add: set_replicate_conv_if)
  from reconnect_loop_outage [OF _ _ _ this, of "default_agent ''w''" 0] show ?thesis
    by (simp add: default_agent_def del: replicate.simps)
qed

text \<open>
  An acknowledgement names the task and no attempt: one that answers an earlier submission
  takes out whatever result of the task is in the buffer now.
\<close>

lemma late_answer_drops_newer_result:
  assumes "handle_result_ack rp message r = Inr r'" "payload_of message = Inr payload"
    and "get_str rp payload ''task_id'' [] = i"
  shows "map_of (rn_pending r') i = None"
  using assms
  by (auto simp: handle_result_ack_def result_acknowledged_def Let_def bind_exn_def delete_conv' split: sum.splits)

text \<open>An infinite attempt number ends the session after the slot is taken, and nothing gives it back.\<close>

lemma infinite_attempt_leaks_slot:
  assumes "payload_of message = Inr payload" "get_str rp payload ''task_type'' [] \<in> set (ag_types ag) \<inter> set (map fst EXECUTORS)"
    and "map_of (rn_running r) (get_str rp payload ''task_id'' []) = None" "0 < rn_slots r"
    and "dict_get payload ''attempt'' = PFloat PosInf"
  shows "handle_assignment ag rp corr fresh now message r = (Inl OverflowError, r\<lparr>rn_slots := rn_slots r - 1\<rparr>)"
  using assms by (simp add: handle_assignment_def Let_def coerce_int_def)

end
