(* ===== verification/Loadtest.thy ===== *)
theory Loadtest
  imports OperatorApi WorkerNode
begin

text \<open>
  \<open>scripts/loadtest.py\<close>, what the harness measures and how it decides: the retrying HTTP
  call, the statistics, the paged read-back, the samples, the throughput figure and the
  checks. A float is an exact rational (the percentile asks for \<open>0.5\<close>, \<open>0.95\<close> and
  \<open>0.99\<close> of a list length, whose binary64 products round to the exact values). \<open>fromiso\<close>
  stands for \<open>datetime.fromisoformat(s).timestamp()\<close>, None when it raises \<open>ValueError\<close>.
\<close>

definition READ_PAGE :: int where "READ_PAGE = 200"

subsection \<open>The HTTP call\<close>

text \<open>
  What one attempt meets: no server at all, or an answer with its status, its body when
  that is a JSON object, and its text.
\<close>

datatype attempt_answer = NoServer | Answer int "pydict option" string

datatype fault = URLError | NotJson | RuntimeError string int | Raised exn

type_synonym reply = "fault + int \<times> pydict"

fun request_loop :: "(nat \<Rightarrow> attempt_answer) \<Rightarrow> nat \<Rightarrow> nat \<Rightarrow> rat \<Rightarrow> reply \<times> rat list" where
  "request_loop server i 0 delay = (Inr (429, [(''detail'', PStr ''rate limited after retries'')]), [])"
| "request_loop server i (Suc n) delay = (case server i of
      NoServer \<Rightarrow> (Inl URLError, [])
    | Answer status body raw \<Rightarrow>
        if 200 \<le> status \<and> status < 300
        then ((case body of None \<Rightarrow> Inl NotJson | Some b \<Rightarrow> Inr (status, b)), [])
        else if status = 429 \<and> 0 < n
        then (let (r, slept) = request_loop server (Suc i) n (min (delay * 2) 30) in (r, delay # slept))
        else (Inr (status, case body of Some b \<Rightarrow> b | None \<Rightarrow> [(''detail'', PStr raw)]), []))"

definition http_request :: "nat \<Rightarrow> (nat \<Rightarrow> attempt_answer) \<Rightarrow> reply \<times> rat list" where
  "http_request retries server = request_loop server 0 retries 1"

subsection \<open>Statistics\<close>

definition percentile_rank :: "nat \<Rightarrow> rat \<Rightarrow> int" where
  "percentile_rank n fraction = max 1 (min (int n) \<lceil>fraction * of_nat n\<rceil>)"

definition percentile :: "rat list \<Rightarrow> rat \<Rightarrow> rat option" where
  "percentile values fraction = (if values = [] then None
     else Some (round4 (sort values ! nat (percentile_rank (length values) fraction - 1))))"

record summary =
  su_count :: nat
  su_min :: rat
  su_p50 :: "rat option"
  su_p95 :: "rat option"
  su_p99 :: "rat option"
  su_max :: rat
  su_mean :: rat

definition summarise :: "rat list \<Rightarrow> summary option" where
  "summarise values = (if values = [] then None
     else Some \<lparr>su_count = length values, su_min = round4 (Min (set values)), su_p50 = percentile values (1 / 2),
       su_p95 = percentile values (95 / 100), su_p99 = percentile values (99 / 100),
       su_max = round4 (Max (set values)), su_mean = round4 (sum_list values / of_nat (length values))\<rparr>)"

definition parse_ts :: "(string \<Rightarrow> rat option) \<Rightarrow> pyval \<Rightarrow> rat option" where
  "parse_ts fromiso v = (case v of PStr s \<Rightarrow> if s = [] then None else fromiso s | _ \<Rightarrow> None)"

subsection \<open>Asking the coordinator\<close>

definition accepted_count :: "reply \<Rightarrow> fault + int" where
  "accepted_count r = (case r of
      Inl e \<Rightarrow> Inl e
    | Inr (status, body) \<Rightarrow>
        if status \<noteq> 201 then Inl (RuntimeError ''enqueue failed'' status)
        else (case py_int (py_or (dict_get body ''count'') (PInt 0)) of
            Inl e \<Rightarrow> Inl (Raised e) | Inr n \<Rightarrow> Inr n))"

definition depth_probe :: "reply \<Rightarrow> fault + pydict" where
  "depth_probe r = (case r of
      Inl e \<Rightarrow> Inl e
    | Inr (status, body) \<Rightarrow> if status \<noteq> 200 then Inl (RuntimeError ''depth failed'' status) else Inr body)"

text \<open>The query of page \<open>k\<close>, and the rows an answer carries.\<close>

definition page_query :: "string \<Rightarrow> nat \<Rightarrow> pydict" where
  "page_query corr k = [(''correlation_id'', PStr corr), (''limit'', PInt READ_PAGE),
     (''offset'', PInt (int k * READ_PAGE))]"

fun row_dict :: "pyval \<Rightarrow> pydict option" where
  "row_dict (PDict d) = Some d"
| "row_dict _ = None"

definition page_rows :: "pydict \<Rightarrow> exn + pydict list" where
  "page_rows body = (case py_or (dict_get body ''tasks'') (PList []) of
      PList xs \<Rightarrow> (case those (map row_dict xs) of None \<Rightarrow> Inl AttributeError | Some rows \<Rightarrow> Inr rows)
    | PStr _ \<Rightarrow> Inl AttributeError
    | PDict _ \<Rightarrow> Inl AttributeError
    | _ \<Rightarrow> Inl TypeError)"

text \<open>
  The \<open>while True\<close> of the paged read: None is a loop that never ends. A row that is no
  object makes the counting below raise; it is reported at once.
\<close>

partial_function (option) read_pages :: "(nat \<Rightarrow> reply) \<Rightarrow> nat \<Rightarrow> pydict list \<Rightarrow> (fault + pydict list) option" where
  "read_pages pages k rows = (case pages k of
      Inl e \<Rightarrow> Some (Inl e)
    | Inr (status, body) \<Rightarrow>
        if status \<noteq> 200 then Some (Inl (RuntimeError ''listing failed'' status))
        else (case page_rows body of
            Inl e \<Rightarrow> Some (Inl (Raised e))
          | Inr got \<Rightarrow>
              if \<not> truthy (dict_get body ''has_more'') then Some (Inr (rows @ got))
              else read_pages pages (Suc k) (rows @ got)))"

text \<open>\<open>collections.Counter\<close>: the counts, in the order of the first occurrence.\<close>

definition counter :: "'a list \<Rightarrow> ('a \<times> nat) list" where
  "counter xs = map (\<lambda>x. (x, count_list xs x)) (rev (remdups (rev xs)))"

definition counter_get :: "('a \<times> nat) list \<Rightarrow> 'a \<Rightarrow> nat" where
  "counter_get c x = (case map_of c x of None \<Rightarrow> 0 | Some n \<Rightarrow> n)"

record tally =
  ta_rows :: nat
  ta_distinct :: nat
  ta_by_status :: "(pyval \<times> nat) list"
  ta_completed :: nat
  ta_with_result :: nat
  ta_end_to_end :: "summary option"
  ta_queue_wait :: "summary option"
  ta_completions :: "rat option list"

definition elapsed_between :: "(string \<Rightarrow> rat option) \<Rightarrow> string \<Rightarrow> string \<Rightarrow> pydict \<Rightarrow> rat list" where
  "elapsed_between fromiso a b row = (case (parse_ts fromiso (dict_get row a), parse_ts fromiso (dict_get row b)) of
      (Some x, Some y) \<Rightarrow> [y - x] | _ \<Rightarrow> [])"

definition tally_rows :: "(string \<Rightarrow> rat option) \<Rightarrow> pydict list \<Rightarrow> tally" where
  "tally_rows fromiso rows =
     (let statuses = counter (map (\<lambda>r. dict_get r ''status'') rows);
          ids = map (\<lambda>r. dict_get r ''task_id'') rows
      in \<lparr>ta_rows = length rows, ta_distinct = length (remdups ids), ta_by_status = statuses,
          ta_completed = counter_get statuses (PStr ''COMPLETED''),
          ta_with_result = length (filter (\<lambda>r. truthy (dict_get r ''has_result'')) rows),
          ta_end_to_end = summarise (concat (map (elapsed_between fromiso ''created_at'' ''completed_at'') rows)),
          ta_queue_wait = summarise (concat (map (elapsed_between fromiso ''created_at'' ''assigned_at'') rows)),
          ta_completions = map (\<lambda>r. parse_ts fromiso (dict_get r ''completed_at''))
            (filter (\<lambda>r. dict_get r ''status'' = PStr ''COMPLETED'' \<and> truthy (dict_get r ''completed_at'')) rows)\<rparr>)"

definition read_back :: "(string \<Rightarrow> rat option) \<Rightarrow> (nat \<Rightarrow> reply) \<Rightarrow> (fault + tally) option" where
  "read_back fromiso pages = map_option (\<lambda>r. case r of Inl e \<Rightarrow> Inl e | Inr rows \<Rightarrow> Inr (tally_rows fromiso rows))
     (read_pages pages 0 [])"

subsection \<open>Sampling\<close>

record sample =
  sm_t :: rat
  sm_depth :: "int option"
  sm_cpu :: "rat option"
  sm_rss :: "rat option"

record sampled =
  sd_depth_max :: "int option"
  sd_depth_final :: "int option"
  sd_series :: "(rat \<times> int option) list"
  sd_cpu_seconds :: "rat option"
  sd_cpu_percent :: "rat option"
  sd_rss_max :: "rat option"

definition round_to :: "nat \<Rightarrow> rat \<Rightarrow> rat" where
  "round_to k x = of_int (round_half_even (x * 10 ^ k)) / 10 ^ k"

definition known :: "('s \<Rightarrow> 'a option) \<Rightarrow> 's list \<Rightarrow> 'a list" where
  "known f xs = map the (filter (\<lambda>x. x \<noteq> None) (map f xs))"

definition max_known :: "'a::linorder list \<Rightarrow> 'a option" where
  "max_known xs = (if xs = [] then None else Some (Max (set xs)))"

definition sampler_report :: "sample list \<Rightarrow> sampled" where
  "sampler_report samples =
     (let depths = known sm_depth samples; cpu = known sm_cpu samples; rss = known sm_rss samples;
          burned = last cpu - hd cpu; window = sm_t (last samples) - sm_t (hd samples)
      in \<lparr>sd_depth_max = max_known depths, sd_depth_final = (if depths = [] then None else Some (last depths)),
          sd_series = map (\<lambda>s. (sm_t s, sm_depth s)) samples,
          sd_cpu_seconds = (if 2 \<le> length cpu then Some (round_to 3 burned) else None),
          sd_cpu_percent = (if 2 \<le> length cpu \<and> 0 < window then Some (round_to 2 (100 * burned / window)) else None),
          sd_rss_max = max_known rss\<rparr>)"

definition depths_until :: "rat \<Rightarrow> sample list \<Rightarrow> int list" where
  "depths_until mark samples = known sm_depth (filter (\<lambda>s. sm_t s \<le> mark) samples)"

definition kept_up :: "int list \<Rightarrow> int \<Rightarrow> bool" where
  "kept_up depths batch = (if length depths < 2 then True else last depths - hd depths \<le> max batch 1)"

subsection \<open>Waiting\<close>

text \<open>
  One turn of a waiting loop: the clock as the loop condition reads it, what the fleet has
  acknowledged, the clock as the stall test reads it, and what a depth probe would say.
\<close>

record turn =
  tu_clock :: rat
  tu_done :: nat
  tu_later :: rat
  tu_depth :: "fault + pydict"

definition queue_empty :: "fault + pydict \<Rightarrow> bool" where
  "queue_empty r = (case r of Inl _ \<Rightarrow> False | Inr body \<Rightarrow> dict_get body ''depth'' = PInt 0)"

partial_function (option) drain_loop ::
  "(nat \<Rightarrow> turn) \<Rightarrow> nat \<Rightarrow> rat \<Rightarrow> rat \<Rightarrow> rat \<Rightarrow> nat \<Rightarrow> int \<Rightarrow> rat \<Rightarrow> nat option" where
  "drain_loop turns expected started timeout stall k last_count last_change =
     (let u = turns k
      in if \<not> tu_clock u - started < timeout then Some k
         else if expected \<le> tu_done u then Some k
         else if int (tu_done u) \<noteq> last_count
         then drain_loop turns expected started timeout stall (Suc k) (int (tu_done u)) (tu_later u)
         else if stall \<le> tu_later u - last_change
         then (if queue_empty (tu_depth u) then Some k
               else drain_loop turns expected started timeout stall (Suc k) last_count (tu_later u))
         else drain_loop turns expected started timeout stall (Suc k) last_count last_change)"

definition await_drain :: "(nat \<Rightarrow> turn) \<Rightarrow> nat \<Rightarrow> rat \<Rightarrow> rat \<Rightarrow> rat \<Rightarrow> nat option" where
  "await_drain turns expected started timeout stall =
     drain_loop turns expected started timeout stall 0 (- 1) started"

text \<open>
  The wait ends as soon as some clock reading is past the timeout, whatever the probes of the
  depth say, and then the time is up, all is acknowledged, or the queue answered empty.
\<close>

lemma drain_loop_ends:
  assumes "\<not> tu_clock (turns n) - started < timeout" and "k \<le> n"
  shows "\<exists>j\<ge>k. drain_loop turns expected started timeout stall k last_count last_change = Some j
    \<and> j \<le> n \<and> (\<not> tu_clock (turns j) - started < timeout \<or> expected \<le> tu_done (turns j) \<or> queue_empty (tu_depth (turns j)))"
  using assms(2)
proof (induction "n - k" arbitrary: k last_count last_change)
  case 0
  with assms(1) show ?case by (subst drain_loop.simps) (auto simp: Let_def)
next
  case (Suc m)
  from Suc.hyps(2) Suc.prems have "m = n - Suc k" "Suc k \<le> n" by auto
  note next_turn = Suc.hyps(1) [OF this]
  show ?case
  proof (cases "\<not> tu_clock (turns k) - started < timeout \<or> expected \<le> tu_done (turns k)
      \<or> (int (tu_done (turns k)) = last_count \<and> stall \<le> tu_later (turns k) - last_change \<and> queue_empty (tu_depth (turns k)))")
    case True
    then show ?thesis using Suc.prems by (subst drain_loop.simps) (auto simp: Let_def)
  next
    case False
    then have "\<exists>c t. drain_loop turns expected started timeout stall k last_count last_change
        = drain_loop turns expected started timeout stall (Suc k) c t"
      by (subst drain_loop.simps) (auto simp: Let_def)
    then obtain c t where "drain_loop turns expected started timeout stall k last_count last_change
        = drain_loop turns expected started timeout stall (Suc k) c t" by blast
    then show ?thesis using next_turn [of c t] by (auto dest: Suc_leD)
  qed
qed

subsection \<open>Figures and checks\<close>

record rate =
  ra_tasks :: nat
  ra_window :: rat
  ra_per_second :: "rat option"
  ra_source :: string

definition throughput :: "rat option list \<Rightarrow> rat \<Rightarrow> nat \<Rightarrow> rate" where
  "throughput completions fallback_seconds n =
     (let stamps = sort (known id completions)
      in if 2 \<le> length stamps \<and> hd stamps < last stamps
         then \<lparr>ra_tasks = length stamps, ra_window = round_to 3 (last stamps - hd stamps),
               ra_per_second = Some (round_to 1 (of_nat (length stamps) / (last stamps - hd stamps))),
               ra_source = ''coordinator completed_at span''\<rparr>
         else \<lparr>ra_tasks = n, ra_window = round_to 3 fallback_seconds,
               ra_per_second = (if 0 < fallback_seconds then Some (round_to 1 (of_nat n / fallback_seconds)) else None),
               ra_source = ''harness wall clock''\<rparr>)"

type_synonym checks = "(string \<times> bool) list"

definition duplicate_deliveries :: "string list \<Rightarrow> string list" where
  "duplicate_deliveries delivered = map fst (filter (\<lambda>(t, n). 1 < n) (counter delivered))"

definition burst_checks :: "int \<Rightarrow> int \<Rightarrow> tally \<Rightarrow> string list \<Rightarrow> checks" where
  "burst_checks accepted requested rows duplicates =
     [(''every_task_accepted'', accepted = requested),
      (''every_task_read_back'', int (ta_rows rows) = accepted),
      (''no_duplicate_task_rows'', ta_distinct rows = ta_rows rows),
      (''every_task_completed'', int (ta_completed rows) = accepted),
      (''every_completion_has_a_result'', ta_with_result rows = ta_completed rows),
      (''no_duplicate_assignments'', duplicates = [])]"

definition sustained_checks :: "int \<Rightarrow> tally \<Rightarrow> checks" where
  "sustained_checks submitted rows =
     [(''every_submitted_task_read_back'', int (ta_rows rows) = submitted),
      (''every_task_completed'', int (ta_completed rows) = submitted),
      (''no_duplicate_task_rows'', ta_distinct rows = ta_rows rows)]"

definition mixed_checks :: "int \<Rightarrow> tally list \<Rightarrow> string list \<Rightarrow> checks" where
  "mixed_checks submitted rows duplicates =
     [(''every_task_read_back'', int (sum_list (map ta_rows rows)) = submitted),
      (''every_task_completed'', int (sum_list (map ta_completed rows)) = submitted),
      (''no_duplicate_assignments'', duplicates = [])]"

definition restart_checks :: "int \<Rightarrow> int \<Rightarrow> int \<Rightarrow> tally \<Rightarrow> nat \<Rightarrow> nat \<Rightarrow> nat \<Rightarrow> checks" where
  "restart_checks returncode flying accepted rows back linked registrations =
     [(''restart_command_succeeded'', returncode = 0),
      (''work_was_in_flight_at_restart'', 0 < flying),
      (''every_task_read_back'', int (ta_rows rows) = accepted),
      (''no_task_lost'', int (ta_completed rows) = accepted),
      (''no_duplicate_task_rows'', ta_distinct rows = ta_rows rows),
      (''every_completion_has_one_result'', ta_with_result rows = ta_completed rows),
      (''every_worker_reconnected'', back = linked),
      (''no_re_enrollment'', registrations = linked)]"

text \<open>The first step of a ramp at or above the CPU threshold.\<close>

definition saturation_point :: "rat \<Rightarrow> (nat \<times> rat option) list \<Rightarrow> nat option" where
  "saturation_point threshold steps = map_option fst
     (find (\<lambda>(_, cpu). threshold \<le> (case cpu of None \<Rightarrow> 0 | Some x \<Rightarrow> x)) steps)"

definition every_step_lost_nothing :: "checks list \<Rightarrow> checks" where
  "every_step_lost_nothing steps = [(''every_step_lost_nothing'', \<forall>cs \<in> set steps. \<forall>(_, ok) \<in> set cs. ok)]"

text \<open>
  What the process exits with. A run whose coordinator became unreachable reports one
  check of its own, so it fails.
\<close>

definition failed_checks :: "checks \<Rightarrow> string list" where
  "failed_checks cs = map fst (filter (\<lambda>(_, ok). \<not> ok) cs)"

definition aborted_checks :: checks where
  "aborted_checks = [(''coordinator_reachable_throughout'', False)]"

definition exit_code :: "checks \<Rightarrow> int" where
  "exit_code cs = (if failed_checks cs = [] then 0 else 1)"

definition loadtest_main :: "string \<Rightarrow> string \<Rightarrow> string \<Rightarrow> string \<Rightarrow> string \<Rightarrow> checks option \<Rightarrow> int" where
  "loadtest_main url enrollment admin scenario restart_command run =
     (if url = [] \<or> enrollment = [] \<or> admin = [] then 2
      else if scenario = ''restart'' \<and> restart_command = [] then 2
      else exit_code (case run of None \<Rightarrow> aborted_checks | Some cs \<Rightarrow> cs))"

end
