(* ===== verification/SimWorker.thy ===== *)
theory SimWorker
  imports Loadtest
begin

text \<open>
  \<open>SimWorker\<close> of \<open>scripts/loadtest.py\<close>: the worker the load and chaos harnesses run against
  a coordinator. Its operations, between two awaits each, and the steps they make. \<open>up\<close> says
  whether the socket accepts a write, \<open>rp\<close> is the \<open>repr\<close> behind \<open>str()\<close>.
\<close>

subsection \<open>State\<close>

datatype sim_phase = Unregistered | Connecting | InSession | Ended

text \<open>
  \<open>si_live\<close> are the coroutines of \<open>_executing\<close> that hold a slot, \<open>si_unwinding\<close> the cancelled ones
  whose \<open>finally\<close> has yet to run; \<open>si_linked\<close> is \<open>_ws is not None\<close>.
\<close>

record sim =
  si_phase :: sim_phase
  si_max :: int
  si_types :: "string list"
  si_identity :: "(pyval \<times> pyval) option"
  si_ready :: bool
  si_failed :: bool
  si_errored :: bool
  si_registrations :: nat
  si_reconnects :: nat
  si_sessions :: nat
  si_reconnect_seconds :: "rat list"
  si_disconnected_at :: "time option"
  si_received :: "string list"
  si_completed :: "string list"
  si_refused :: "string list"
  si_pending :: "(string \<times> pydict) list"
  si_sent_at :: "(string \<times> time) list"
  si_outcomes :: "(string \<times> string) list"
  si_submitted :: "(string \<times> pydict) list"
  si_assignments :: "(string \<times> int) list"
  si_frozen :: bool
  si_kills :: nat
  si_awaiting :: "string list"
  si_injections :: "(string \<times> string \<times> bool) list"
  si_slots :: int
  si_linked :: bool
  si_epoch :: int
  si_live :: "string list"
  si_unwinding :: "string list"
  si_running :: "string list"
  si_failures :: nat

definition new_sim :: "int \<Rightarrow> string list \<Rightarrow> sim" where
  "new_sim mx types = \<lparr>si_phase = Unregistered, si_max = mx, si_types = types, si_identity = None, si_ready = False,
     si_failed = False, si_errored = False, si_registrations = 0, si_reconnects = 0, si_sessions = 0,
     si_reconnect_seconds = [], si_disconnected_at = None, si_received = [], si_completed = [], si_refused = [],
     si_pending = [], si_sent_at = [], si_outcomes = [], si_submitted = [], si_assignments = [], si_frozen = False,
     si_kills = 0, si_awaiting = [], si_injections = [], si_slots = mx, si_linked = False, si_epoch = 0,
     si_live = [], si_unwinding = [], si_running = [], si_failures = 0\<rparr>"

definition set_add :: "'a \<Rightarrow> 'a list \<Rightarrow> 'a list" where
  "set_add x xs = List.insert x xs"

subsection \<open>Identity and sessions\<close>

definition sim_register :: "reply \<Rightarrow> sim \<Rightarrow> sim" where
  "sim_register r w = (case r of
      Inr (status, body) \<Rightarrow>
        (case (map_of body ''worker_id'', map_of body ''worker_credential'') of
            (Some i, Some credential) \<Rightarrow>
              if status = 201
              then w\<lparr>si_identity := Some (i, credential), si_registrations := si_registrations w + 1, si_phase := Connecting\<rparr>
              else w\<lparr>si_failed := True, si_ready := True, si_phase := Ended\<rparr>
          | _ \<Rightarrow> w\<lparr>si_failed := True, si_ready := True, si_phase := Ended\<rparr>)
    | Inl _ \<Rightarrow> w\<lparr>si_failed := True, si_ready := True, si_phase := Ended\<rparr>)"

definition sim_token :: "reply \<Rightarrow> fault + pyval" where
  "sim_token r = (case r of
      Inl e \<Rightarrow> Inl e
    | Inr (status, body) \<Rightarrow>
        if status \<noteq> 200 then Inl (RuntimeError ''token refresh failed'' status)
        else (case map_of body ''access_token'' of None \<Rightarrow> Inl (Raised KeyError) | Some t \<Rightarrow> Inr t))"

type_synonym frame = "string \<times> pydict"

definition sim_send :: "bool \<Rightarrow> string \<Rightarrow> pydict \<Rightarrow> sim \<Rightarrow> bool \<times> frame list" where
  "sim_send up kind payload w = (if si_linked w \<and> up then (True, [(kind, payload)]) else (False, []))"

definition sim_hello :: "sim \<Rightarrow> pydict" where
  "sim_hello w = [(''agent_version'', PStr ''loadtest''), (''max_concurrent'', PInt (si_max w)),
     (''supported_task_types'', PList (map PStr (si_types w))),
     (''tasks_in_flight'', PInt (int (length (si_running w)) + int (length (si_pending w))))]"

text \<open>The handshake; one that fails has raised, and leaves \<open>_ws\<close> set.\<close>

definition sim_handshake :: "pydict \<Rightarrow> time \<Rightarrow> sim \<Rightarrow> bool \<times> sim" where
  "sim_handshake ack now w =
     (let w = w\<lparr>si_linked := True\<rparr>
      in if dict_get ack ''message_type'' \<noteq> PStr ''hello_ack'' then (False, w)
         else (case py_int (py_or (dict_get ack ''session_epoch'') (PInt 0)) of
             Inl _ \<Rightarrow> (False, w)
           | Inr e \<Rightarrow> (True, w\<lparr>si_epoch := e, si_sessions := si_sessions w + 1,
               si_reconnect_seconds := si_reconnect_seconds w
                 @ (case si_disconnected_at w of None \<Rightarrow> [] | Some x \<Rightarrow> [now - x]),
               si_disconnected_at := None, si_ready := True, si_phase := InSession\<rparr>)))"

definition sim_disconnected :: "time \<Rightarrow> sim \<Rightarrow> sim" where
  "sim_disconnected now w = w\<lparr>si_disconnected_at := Some now, si_linked := False\<rparr>"

text \<open>
  The end of one turn of \<open>run\<close>: \<open>raised\<close> when \<open>_session\<close> did, \<open>stop\<close> when the flag is set. A
  worker whose first handshake failed gives up.
\<close>

definition sim_turn_over :: "bool \<Rightarrow> bool \<Rightarrow> sim \<Rightarrow> sim" where
  "sim_turn_over raised stop w =
     (if raised \<and> \<not> si_ready w then w\<lparr>si_failures := si_failures w + 1, si_failed := True, si_ready := True, si_phase := Ended\<rparr>
      else let w1 = (if raised then w\<lparr>si_failures := si_failures w + 1, si_errored := True\<rparr> else w\<lparr>si_failures := 0\<rparr>)
           in if stop then w1\<lparr>si_phase := Ended\<rparr>
              else w1\<lparr>si_reconnects := si_reconnects w + 1, si_phase := Connecting\<rparr>)"

definition reconnect_delay :: "rat \<Rightarrow> nat \<Rightarrow> exn + rat" where
  "reconnect_delay u failures = full_jitter u failures 1 2 30"

subsection \<open>Work\<close>

definition sim_refusal :: "string \<Rightarrow> string \<Rightarrow> string \<Rightarrow> pydict" where
  "sim_refusal i code ty = [(''task_id'', PStr i), (''accepted'', PBool False), (''reason_code'', PStr code),
     (''reason'', PStr (code @ '': '' @ ty))]"

text \<open>
  \<open>_handle_assignment\<close> up to its first long await. The slot is taken before the \<open>try\<close>, so
  an attempt number that is no number keeps it.
\<close>

definition sim_assign :: "(pyval \<Rightarrow> string) \<Rightarrow> bool \<Rightarrow> pydict \<Rightarrow> sim \<Rightarrow> frame list \<times> sim" where
  "sim_assign rp up payload w =
     (let i = get_str rp payload ''task_id'' ''''; ty = get_str rp payload ''task_type'' ''''
      in if ty \<notin> set (si_types w)
         then (snd (sim_send up ''task_ack'' (sim_refusal i ''unsupported_task_type'' ty) w), w\<lparr>si_refused := si_refused w @ [i]\<rparr>)
         else if si_slots w = 0
         then (snd (sim_send up ''task_ack'' (sim_refusal i ''at_capacity'' ty) w), w\<lparr>si_refused := si_refused w @ [i]\<rparr>)
         else let w1 = w\<lparr>si_slots := si_slots w - 1, si_received := si_received w @ [i]\<rparr>
              in case py_int (py_or (dict_get payload ''attempt'') (PInt 0)) of
                   Inl _ \<Rightarrow> ([], w1)
                 | Inr n \<Rightarrow>
                     (snd (sim_send up ''task_ack'' [(''task_id'', PStr i), (''accepted'', PBool True), (''reason'', PNone)] w1)
                      @ snd (sim_send up ''task_started'' [(''task_id'', PStr i), (''task_type'', PStr ty)] w1),
                      w1\<lparr>si_assignments := AList.update i n (si_assignments w), si_running := set_add i (si_running w),
                         si_live := si_live w @ [i]\<rparr>))"

definition sim_envelope :: "string \<Rightarrow> int \<Rightarrow> int \<Rightarrow> string \<Rightarrow> rat \<Rightarrow> pyval \<Rightarrow> pydict" where
  "sim_envelope i n epoch token duration result = [(''task_id'', PStr i), (''status'', PStr ''COMPLETED''),
     (''attempt_number'', PInt n), (''session_epoch'', PInt epoch), (''idempotency_token'', PStr token),
     (''duration_seconds'', PFloat (round3 (Fin duration))), (''result'', result), (''truncated'', PBool False)]"

text \<open>The \<open>finally\<close> of an execution.\<close>

definition sim_release :: "string \<Rightarrow> sim \<Rightarrow> sim" where
  "sim_release i w = w\<lparr>si_running := removeAll i (si_running w), si_slots := si_slots w + 1\<rparr>"

definition sim_finish ::
  "bool \<Rightarrow> string \<Rightarrow> int \<Rightarrow> string + pyval \<Rightarrow> rat \<Rightarrow> string \<Rightarrow> time \<Rightarrow> sim \<Rightarrow> frame list \<times> sim" where
  "sim_finish up i n outcome duration token now w =
     (let w0 = w\<lparr>si_live := remove1 i (si_live w)\<rparr>
      in case outcome of
           Inl error_type \<Rightarrow> (snd (sim_send up ''task_failed'' [(''task_id'', PStr i), (''error_type'', PStr error_type)] w),
             sim_release i w0)
         | Inr result \<Rightarrow>
             let env = sim_envelope i n (si_epoch w) token duration result
             in (snd (sim_send up ''task_result'' env w),
                 sim_release i (w0\<lparr>si_pending := AList.update i env (si_pending w), si_sent_at := AList.update i now (si_sent_at w),
                   si_submitted := AList.update i env (si_submitted w)\<rparr>)))"

definition sim_unwind :: "string \<Rightarrow> sim \<Rightarrow> sim" where
  "sim_unwind i w = sim_release i (w\<lparr>si_unwinding := remove1 i (si_unwinding w)\<rparr>)"

definition RESULT_RETRY_SECONDS :: rat where "RESULT_RETRY_SECONDS = 10"

definition retry_due :: "time \<Rightarrow> sim \<Rightarrow> string \<Rightarrow> bool" where
  "retry_due now w i \<longleftrightarrow> RESULT_RETRY_SECONDS \<le> now - (case map_of (si_sent_at w) i of None \<Rightarrow> now | Some x \<Rightarrow> x)"

definition sim_retry :: "bool \<Rightarrow> time \<Rightarrow> sim \<Rightarrow> frame list \<times> sim" where
  "sim_retry up now w =
     (if si_frozen w then ([], w)
      else let due = filter (\<lambda>(i, _). retry_due now w i) (si_pending w)
           in (concat (map (\<lambda>(_, env). snd (sim_send up ''task_result'' env w)) due),
               w\<lparr>si_sent_at := fold (\<lambda>(i, _). AList.update i now) due (si_sent_at w)\<rparr>))"

definition sim_heartbeat :: "bool \<Rightarrow> int \<Rightarrow> sim \<Rightarrow> frame list" where
  "sim_heartbeat up sequence w = (if si_frozen w then []
     else snd (sim_send up ''heartbeat'' [(''sequence'', PInt sequence),
       (''uptime_seconds'', PFloat (Fin (round_to 1 (of_int sequence * 5)))), (''agent_version'', PStr ''loadtest''),
       (''status'', PStr ''ONLINE''), (''cpu_percent'', PNone), (''memory_percent'', PNone)] w))"

subsection \<open>What the coordinator says\<close>

text \<open>
  An assignment runs in a coroutine of its own, which alone dies of a payload that is no
  object; an acknowledgement is read by the receive loop, which ends with the exception.
\<close>

definition sim_result_ack :: "(pyval \<Rightarrow> string) \<Rightarrow> pydict \<Rightarrow> sim \<Rightarrow> sim" where
  "sim_result_ack rp payload w =
     (let i = get_str rp payload ''task_id'' ''''; outcome = dict_get payload ''outcome''; accepted = truthy (dict_get payload ''accepted'');
          w1 = w\<lparr>si_pending := AList.delete i (si_pending w), si_sent_at := AList.delete i (si_sent_at w),
             si_outcomes := (if truthy outcome then AList.update i (py_str rp outcome) (si_outcomes w) else si_outcomes w)\<rparr>
      in if i \<in> set (si_awaiting w)
         then w1\<lparr>si_awaiting := removeAll i (si_awaiting w),
                si_injections := si_injections w @ [(i, py_str rp (py_or outcome (PStr ''none'')), accepted)]\<rparr>
         else if accepted then w1\<lparr>si_completed := set_add i (si_completed w)\<rparr> else w1)"

definition sim_receive :: "(pyval \<Rightarrow> string) \<Rightarrow> bool \<Rightarrow> pydict \<Rightarrow> sim \<Rightarrow> exn + frame list \<times> sim" where
  "sim_receive rp up message w =
     (if dict_get message ''message_type'' = PStr ''ping'' then Inr (snd (sim_send up ''pong'' [] w), w)
      else if dict_get message ''message_type'' = PStr ''task_assign''
      then Inr (case payload_of message of Inl _ \<Rightarrow> ([], w) | Inr payload \<Rightarrow> sim_assign rp up payload w)
      else if dict_get message ''message_type'' = PStr ''task_result_ack''
      then bind_exn (payload_of message) (\<lambda>payload. Inr ([], sim_result_ack rp payload w))
      else Inr ([], w))"

subsection \<open>Faults\<close>

definition kill_session :: "sim \<Rightarrow> bool \<times> sim" where
  "kill_session w =
     (if \<not> si_linked w then (False, w)
      else (True, w\<lparr>si_kills := si_kills w + 1, si_unwinding := si_unwinding w @ si_live w, si_live := [], si_running := [],
              si_pending := [], si_sent_at := []\<rparr>))"

definition resubmit :: "bool \<Rightarrow> string \<Rightarrow> pydict \<Rightarrow> sim \<Rightarrow> bool \<times> frame list \<times> sim" where
  "resubmit up i env w =
     (let (sent, frames) = sim_send up ''task_result'' env w
      in (sent, frames, if sent then w\<lparr>si_awaiting := set_add i (si_awaiting w)\<rparr>
                        else w\<lparr>si_awaiting := removeAll i (si_awaiting w)\<rparr>))"

subsection \<open>Steps\<close>

text \<open>
  The moves of one simulated worker. A frozen worker reads nothing; what arrives comes from
  the coordinator and is unconstrained, but an assignment or an acknowledgement is an object.
\<close>

inductive sim_step :: "sim \<Rightarrow> sim \<Rightarrow> bool" where
  registers: "si_phase w = Unregistered \<Longrightarrow> sim_step w (sim_register r w)"
| greets: "si_phase w = Connecting \<Longrightarrow> sim_handshake ack now w = (True, v) \<Longrightarrow> sim_step w v"
| not_greeted: "si_phase w = Connecting \<Longrightarrow> sim_handshake ack now w = (False, v) \<Longrightarrow> sim_step w (sim_turn_over True stopped v)"
| not_connected: "si_phase w = Connecting \<Longrightarrow> sim_step w (sim_turn_over True stopped w)"
| stops: "si_phase w = Connecting \<Longrightarrow> sim_step w (w\<lparr>si_phase := Ended\<rparr>)"
| session_ends: "si_phase w = InSession \<Longrightarrow> sim_step w (sim_turn_over raised stopped (sim_disconnected now w))"
| receives: "si_phase w = InSession \<Longrightarrow> \<not> si_frozen w \<Longrightarrow> sim_receive rp up message w = Inr (frames, v) \<Longrightarrow> sim_step w v"
| finishes: "i \<in> set (si_live w) \<Longrightarrow> sim_finish up i n out duration token now w = (frames, v) \<Longrightarrow> sim_step w v"
| cancelled: "i \<in> set (si_live w) \<Longrightarrow>
    sim_step w (w\<lparr>si_live := remove1 i (si_live w), si_unwinding := si_unwinding w @ [i]\<rparr>)"
| unwinds: "i \<in> set (si_unwinding w) \<Longrightarrow> sim_step w (sim_unwind i w)"
| retries: "si_phase w = InSession \<Longrightarrow> sim_retry up now w = (frames, v) \<Longrightarrow> sim_step w v"
| killed: "kill_session w = (b, v) \<Longrightarrow> sim_step w v"
| injected: "map_of (si_submitted w) i = Some env \<Longrightarrow> resubmit up i env' w = (b, frames, v) \<Longrightarrow> sim_step w v"
| freezes: "sim_step w (w\<lparr>si_frozen := f\<rparr>)"

inductive_cases sim_stepE: "sim_step w v"

definition sim_reachable :: "int \<Rightarrow> string list \<Rightarrow> sim \<Rightarrow> bool" where
  "sim_reachable mx types w \<longleftrightarrow> sim_step\<^sup>*\<^sup>* (new_sim mx types) w"

end
