(* ===== verification/Chaos.thy ===== *)
theory Chaos
  imports SimWorker
begin

text \<open>
  \<open>scripts/chaos.py\<close>: the faults the chaos harness injects into a fleet of simulated workers,
  the schedule that applies them, the wait for convergence and the verdict. A random choice
  is an index the caller supplies.
\<close>

definition FAULTS :: "string list" where
  "FAULTS = [''kill'', ''freeze'', ''duplicate'', ''stale'', ''command'']"

definition REFUSAL_OUTCOMES :: "string set" where
  "REFUSAL_OUTCOMES = {''duplicate'', ''superseded'', ''fenced'', ''not_owner'', ''not_found'', ''illegal'', ''rejected''}"

definition IN_FLIGHT_STATUSES :: "string list" where
  "IN_FLIGHT_STATUSES = [''QUEUED'', ''ASSIGNED'', ''RUNNING'']"

subsection \<open>The runner\<close>

record chaos_event =
  ev_t :: rat
  ev_fault :: string
  ev_worker :: "nat option"
  ev_detail :: pydict

record chaos_args =
  ca_faults :: "string list"
  ca_interval :: rat
  ca_freeze :: rat
  ca_commands :: "string list"
  ca_seed :: int

text \<open>A worker is its index in the fleet; \<open>ch_thaws\<close> are the thaws on their own clocks.\<close>

record chaos =
  ch_events :: "chaos_event list"
  ch_skipped :: "(string \<times> nat) list"
  ch_command_index :: nat
  ch_injected :: "string list"
  ch_at_session :: "(string \<times> nat) list"
  ch_thaws :: "nat list"

definition new_chaos :: chaos where
  "new_chaos = \<lparr>ch_events = [], ch_skipped = [], ch_command_index = 0, ch_injected = [], ch_at_session = [], ch_thaws = []\<rparr>"

definition fit :: "sim \<Rightarrow> bool" where
  "fit w \<longleftrightarrow> \<not> si_failed w \<and> si_linked w \<and> \<not> si_frozen w"

definition live_workers :: "sim list \<Rightarrow> nat list" where
  "live_workers ws = filter (\<lambda>k. fit (ws ! k)) [0..<length ws]"

definition pick_from :: "nat \<Rightarrow> 'a list \<Rightarrow> 'a option" where
  "pick_from n xs = (if xs = [] then None else Some (xs ! (n mod length xs)))"

definition record_event :: "rat \<Rightarrow> string \<Rightarrow> nat option \<Rightarrow> pydict \<Rightarrow> chaos \<Rightarrow> chaos" where
  "record_event t fault k detail ch = ch\<lparr>ch_events := ch_events ch @
     [\<lparr>ev_t = round_to 2 t, ev_fault = fault, ev_worker = k, ev_detail = detail\<rparr>]\<rparr>"

definition sim_in_flight :: "sim \<Rightarrow> int" where
  "sim_in_flight w = int (length (si_received w)) - int (length (si_completed w))"

subsection \<open>The faults\<close>

text \<open>Each answers whether it was applied, with what it put on the wire.\<close>

definition chaos_kill :: "nat \<Rightarrow> rat \<Rightarrow> sim list \<Rightarrow> chaos \<Rightarrow> bool \<times> sim list \<times> chaos" where
  "chaos_kill n t ws ch = (case pick_from n (live_workers ws) of
      None \<Rightarrow> (False, ws, ch)
    | Some k \<Rightarrow> (let (done, w) = kill_session (ws ! k)
        in (done, ws[k := w], if done then record_event t ''kill'' (Some k) [(''in_flight'', PInt (sim_in_flight w))] ch else ch)))"

definition chaos_freeze :: "chaos_args \<Rightarrow> nat \<Rightarrow> rat \<Rightarrow> sim list \<Rightarrow> chaos \<Rightarrow> bool \<times> sim list \<times> chaos" where
  "chaos_freeze a n t ws ch = (case pick_from n (live_workers ws) of
      None \<Rightarrow> (False, ws, ch)
    | Some k \<Rightarrow> (True, ws[k := (ws ! k)\<lparr>si_frozen := True\<rparr>],
        (record_event t ''freeze'' (Some k) [(''seconds'', PFloat (Fin (ca_freeze a))),
           (''in_flight'', PInt (sim_in_flight (ws ! k)))] ch)\<lparr>ch_thaws := ch_thaws ch @ [k]\<rparr>))"

definition chaos_thaw :: "nat \<Rightarrow> rat \<Rightarrow> sim list \<Rightarrow> chaos \<Rightarrow> sim list \<times> chaos" where
  "chaos_thaw k t ws ch = (ws[k := (ws ! k)\<lparr>si_frozen := False\<rparr>],
     (record_event t ''thaw'' (Some k) [] ch)\<lparr>ch_thaws := remove1 k (ch_thaws ch)\<rparr>)"

definition injectable :: "sim list \<Rightarrow> chaos \<Rightarrow> (nat \<times> string \<times> pydict) list" where
  "injectable ws ch = concat (map (\<lambda>k. map (\<lambda>(i, env). (k, i, env))
     (filter (\<lambda>(i, _). i \<notin> set (ch_injected ch)) (si_submitted (ws ! k)))) (live_workers ws))"

definition inject ::
  "string \<Rightarrow> (pydict \<Rightarrow> pydict) \<Rightarrow> bool \<Rightarrow> nat \<Rightarrow> rat \<Rightarrow> sim list \<Rightarrow> chaos \<Rightarrow> bool \<times> frame list \<times> sim list \<times> chaos" where
  "inject fault change up n t ws ch = (case pick_from n (injectable ws ch) of
      None \<Rightarrow> (False, [], ws, ch)
    | Some (k, i, env) \<Rightarrow>
        let ch1 = ch\<lparr>ch_injected := set_add i (ch_injected ch), ch_at_session := AList.update i (si_sessions (ws ! k)) (ch_at_session ch)\<rparr>;
            env1 = change env
        in case resubmit up i env1 (ws ! k) of (sent, frames, w) \<Rightarrow>
             (sent, frames, ws[k := w],
              if sent then record_event t fault (Some k) [(''task_id'', PStr i), (''attempt_number'', dict_get env1 ''attempt_number'')] ch1
              else ch1))"

definition chaos_duplicate :: "bool \<Rightarrow> nat \<Rightarrow> rat \<Rightarrow> sim list \<Rightarrow> chaos \<Rightarrow> bool \<times> frame list \<times> sim list \<times> chaos" where
  "chaos_duplicate up n t ws ch = inject ''duplicate'' id up n t ws ch"

text \<open>The attempt number of an envelope is an integer.\<close>

definition stale_envelope :: "string \<Rightarrow> pydict \<Rightarrow> pydict" where
  "stale_envelope token env = AList.update ''idempotency_token'' (PStr token)
     (AList.update ''attempt_number''
        (PInt (max 0 ((case dict_get env ''attempt_number'' of PInt n \<Rightarrow> n | _ \<Rightarrow> 0) - 1))) env)"

definition chaos_stale :: "string \<Rightarrow> bool \<Rightarrow> nat \<Rightarrow> rat \<Rightarrow> sim list \<Rightarrow> chaos \<Rightarrow> bool \<times> frame list \<times> sim list \<times> chaos" where
  "chaos_stale token up n t ws ch = inject ''stale'' (stale_envelope token) up n t ws ch"

definition chaos_command :: "chaos_args \<Rightarrow> (string \<Rightarrow> pydict) \<Rightarrow> rat \<Rightarrow> chaos \<Rightarrow> bool \<times> chaos" where
  "chaos_command a shell t ch =
     (if ca_commands a = [] then (False, ch)
      else let command = ca_commands a ! (ch_command_index ch mod length (ca_commands a))
           in (True, record_event t ''command'' None (shell command) (ch\<lparr>ch_command_index := ch_command_index ch + 1\<rparr>)))"

subsection \<open>The schedule\<close>

text \<open>
  One turn of the schedule: the fault drawn, the index its own draw uses, a fresh token,
  whether the socket takes a write, and the exception the handler raised, if any (a command
  has moved on to the next by then). \<open>parse_faults\<close> leaves no empty choice.
\<close>

record turn_input =
  ti_fault :: nat
  ti_pick :: nat
  ti_token :: string
  ti_up :: bool
  ti_raised :: "string option"
  ti_clock :: rat

definition bump :: "string \<Rightarrow> (string \<times> nat) list \<Rightarrow> (string \<times> nat) list" where
  "bump k c = AList.update k (counter_get c k + 1) c"

definition enabled_faults :: "chaos_args \<Rightarrow> string list" where
  "enabled_faults a = filter (\<lambda>f. f \<in> set FAULTS) (ca_faults a)"

definition apply_fault ::
  "chaos_args \<Rightarrow> (string \<Rightarrow> pydict) \<Rightarrow> turn_input \<Rightarrow> string \<Rightarrow> sim list \<Rightarrow> chaos \<Rightarrow> bool \<times> frame list \<times> sim list \<times> chaos" where
  "apply_fault a shell u fault ws ch =
     (if fault = ''kill'' then (case chaos_kill (ti_pick u) (ti_clock u) ws ch of (b, ws', ch') \<Rightarrow> (b, [], ws', ch'))
      else if fault = ''freeze'' then (case chaos_freeze a (ti_pick u) (ti_clock u) ws ch of (b, ws', ch') \<Rightarrow> (b, [], ws', ch'))
      else if fault = ''duplicate'' then chaos_duplicate (ti_up u) (ti_pick u) (ti_clock u) ws ch
      else if fault = ''stale'' then chaos_stale (ti_token u) (ti_up u) (ti_pick u) (ti_clock u) ws ch
      else (case chaos_command a shell (ti_clock u) ch of (b, ch') \<Rightarrow> (b, [], ws, ch')))"

definition chaos_turn ::
  "chaos_args \<Rightarrow> (string \<Rightarrow> pydict) \<Rightarrow> turn_input \<Rightarrow> sim list \<Rightarrow> chaos \<Rightarrow> frame list \<times> sim list \<times> chaos" where
  "chaos_turn a shell u ws ch = (case pick_from (ti_fault u) (enabled_faults a) of
      None \<Rightarrow> ([], ws, ch)
    | Some fault \<Rightarrow> (case ti_raised u of
          Some e \<Rightarrow> ([], ws, ch\<lparr>ch_skipped := bump (fault @ '':'' @ e) (ch_skipped ch),
            ch_command_index := ch_command_index ch + (if fault = ''command'' \<and> ca_commands a \<noteq> [] then 1 else 0)\<rparr>)
        | None \<Rightarrow> (case apply_fault a shell u fault ws ch of (applied, frames, ws', ch') \<Rightarrow>
            (frames, ws', if applied then ch' else ch'\<lparr>ch_skipped := bump fault (ch_skipped ch')\<rparr>))))"

definition end_of_chaos :: "sim list \<Rightarrow> sim list" where
  "end_of_chaos ws = map (\<lambda>w. w\<lparr>si_frozen := False\<rparr>) ws"

subsection \<open>The report\<close>

definition excused_injection :: "chaos \<Rightarrow> sim \<Rightarrow> string \<Rightarrow> bool" where
  "excused_injection ch w i \<longleftrightarrow> map_of (ch_at_session ch) i \<noteq> Some (si_sessions w)"

definition unanswered :: "sim list \<Rightarrow> chaos \<Rightarrow> nat \<times> nat" where
  "unanswered ws ch =
     (sum_list (map (\<lambda>w. length (filter (excused_injection ch w) (si_awaiting w))) ws),
      sum_list (map (\<lambda>w. length (filter (\<lambda>i. \<not> excused_injection ch w i) (si_awaiting w))) ws))"

definition by_fault :: "chaos \<Rightarrow> (string \<times> nat) list" where
  "by_fault ch = counter (map ev_fault (ch_events ch))"

definition applied_faults :: "chaos \<Rightarrow> nat" where
  "applied_faults ch = sum_list (map (counter_get (by_fault ch)) FAULTS)"

definition all_injections :: "sim list \<Rightarrow> (string \<times> string \<times> bool) list" where
  "all_injections ws = concat (map si_injections ws)"

subsection \<open>Convergence\<close>

definition in_flight_rows :: "tally option \<Rightarrow> nat" where
  "in_flight_rows rows = (case rows of None \<Rightarrow> 0
     | Some r \<Rightarrow> sum_list (map (\<lambda>s. counter_get (ta_by_status r) (PStr s)) IN_FLIGHT_STATUSES))"

text \<open>
  One poll: the clock of the loop condition, what the paged read returned, and the clock
  when it did. The loop gives up at its timeout with the last rows it has read.
\<close>

record poll =
  po_clock :: rat
  po_read :: "fault + tally"
  po_after :: rat

partial_function (option) converge_loop ::
  "(nat \<Rightarrow> poll) \<Rightarrow> int \<Rightarrow> rat \<Rightarrow> rat \<Rightarrow> nat \<Rightarrow> tally option \<Rightarrow> (fault + rat option \<times> tally option) option" where
  "converge_loop polls expected started timeout k rows =
     (if \<not> po_clock (polls k) - started < timeout then Some (Inr (None, rows))
      else case po_read (polls k) of
          Inl e \<Rightarrow> Some (Inl e)
        | Inr r \<Rightarrow>
            if in_flight_rows (Some r) = 0 \<and> expected \<le> int (ta_rows r)
            then Some (Inr (Some (round_to 3 (po_after (polls k) - started)), Some r))
            else converge_loop polls expected started timeout (Suc k) (Some r))"

definition wait_for_convergence :: "(nat \<Rightarrow> poll) \<Rightarrow> int \<Rightarrow> rat \<Rightarrow> rat \<Rightarrow> (fault + rat option \<times> tally option) option" where
  "wait_for_convergence polls expected started timeout = converge_loop polls expected started timeout 0 None"

text \<open>The loop ends as soon as some clock reading is past the timeout, and a convergence it reports is one it read.\<close>

lemma converge_loop_ends:
  assumes "\<not> po_clock (polls n) - started < timeout" and "k \<le> n"
  shows "\<exists>y. converge_loop polls expected started timeout k rows = Some y \<and> (\<forall>s r. y = Inr (Some s, r) \<longrightarrow>
    (\<exists>j\<ge>k. \<exists>t. r = Some t \<and> po_read (polls j) = Inr t \<and> in_flight_rows r = 0 \<and> expected \<le> int (ta_rows t)))"
  using assms(2)
proof (induction "n - k" arbitrary: k rows)
  case 0
  with assms(1) show ?case by (subst converge_loop.simps) simp
next
  case (Suc m)
  show ?case
  proof (cases "po_clock (polls k) - started < timeout \<and> (\<exists>r. po_read (polls k) = Inr r
      \<and> \<not> (in_flight_rows (Some r) = 0 \<and> expected \<le> int (ta_rows r)))")
    case True
    then obtain r where r: "po_read (polls k) = Inr r" "\<not> (in_flight_rows (Some r) = 0 \<and> expected \<le> int (ta_rows r))"
      by blast
    from Suc.hyps(2) Suc.prems have "m = n - Suc k" "Suc k \<le> n" by auto
    from Suc.hyps(1) [OF this, of "Some r"] obtain y where y: "converge_loop polls expected started timeout (Suc k) (Some r) = Some y"
      "\<forall>s r. y = Inr (Some s, r) \<longrightarrow> (\<exists>j\<ge>Suc k. \<exists>t. r = Some t \<and> po_read (polls j) = Inr t
        \<and> in_flight_rows r = 0 \<and> expected \<le> int (ta_rows t))" by blast
    have "converge_loop polls expected started timeout k rows = Some y"
      using True r y(1) by (subst converge_loop.simps) auto
    with y(2) show ?thesis by (meson Suc_leD)
  next
    case False
    then show ?thesis by (subst converge_loop.simps) (auto split: sum.splits)
  qed
qed

subsection \<open>The verdict\<close>

text \<open>\<open>rows\<close> is None when no read ever ran: then every lookup takes its default.\<close>

definition rows_get :: "(tally \<Rightarrow> nat) \<Rightarrow> int \<Rightarrow> tally option \<Rightarrow> int" where
  "rows_get f dflt rows = (case rows of None \<Rightarrow> dflt | Some r \<Rightarrow> int (f r))"

definition refused_injections :: "(string \<times> string \<times> bool) list \<Rightarrow> (string \<times> string \<times> bool) list" where
  "refused_injections injections = filter (\<lambda>(_, outcome, _). outcome \<in> REFUSAL_OUTCOMES) injections"

definition evaluate ::
  "int \<Rightarrow> int \<Rightarrow> tally option \<Rightarrow> (string \<times> string \<times> bool) list \<Rightarrow> nat \<Rightarrow> rat option \<Rightarrow> nat \<Rightarrow> checks" where
  "evaluate accepted requested rows injections applied converged_seconds on_live =
     [(''chaos_was_actually_applied'', 0 < applied),
      (''every_task_accepted'', accepted = requested),
      (''every_task_read_back'', rows_get ta_rows 0 rows = accepted),
      (''no_duplicate_task_rows'', rows_get ta_distinct (- 1) rows = rows_get ta_rows 0 rows),
      (''no_task_lost'', rows_get ta_completed 0 rows = accepted),
      (''every_completion_has_one_result'', rows_get ta_with_result (- 1) rows = rows_get ta_completed 0 rows),
      (''no_injected_submission_completed_a_task'', \<forall>(_, outcome, _) \<in> set injections. outcome \<noteq> ''transitioned''),
      (''every_acked_injection_was_refused'', length (refused_injections injections) = length injections),
      (''no_injection_unanswered_on_a_live_session'', on_live = 0),
      (''converged_no_tasks_in_flight'', in_flight_rows rows = 0),
      (''converged_within_timeout'', converged_seconds \<noteq> None)]"

definition chaos_checks :: "int \<Rightarrow> int \<Rightarrow> tally option \<Rightarrow> sim list \<Rightarrow> chaos \<Rightarrow> rat option \<Rightarrow> checks" where
  "chaos_checks accepted requested rows ws ch converged_seconds =
     evaluate accepted requested rows (all_injections ws) (applied_faults ch) converged_seconds (snd (unanswered ws ch))"

subsection \<open>The entry point\<close>

definition parse_faults :: "string \<Rightarrow> exn + string list" where
  "parse_faults v =
     (let faults = filter (\<lambda>f. f \<noteq> []) (map (strip_by is_space) (split_comma v))
      in if filter (\<lambda>f. f \<notin> set FAULTS) faults \<noteq> [] then Inl ValueError
         else if faults = [] then Inl ValueError
         else Inr faults)"

definition chaos_main :: "string \<Rightarrow> string \<Rightarrow> string \<Rightarrow> string \<Rightarrow> string list \<Rightarrow> checks option \<Rightarrow> int" where
  "chaos_main url enrollment admin faults commands run =
     (if url = [] \<or> enrollment = [] \<or> admin = [] then 2
      else case parse_faults faults of
          Inl _ \<Rightarrow> 2
        | Inr fs \<Rightarrow>
            if ''command'' \<in> set fs \<and> commands = [] then 2
            else exit_code (case run of None \<Rightarrow> aborted_checks | Some cs \<Rightarrow> cs))"

end
