(* ===== verification/ReadBack.thy ===== *)
theory ReadBack
  imports Chaos OperatorProperties QueueProperties
begin

text \<open>
  The paged read of the harness against the listing endpoint of the coordinator: the pages
  are read one after the other while the system moves on, and still every task of the batch
  is read exactly once.
\<close>

subsection \<open>The loop\<close>

definition pages_read :: "(nat \<Rightarrow> reply) \<Rightarrow> nat \<Rightarrow> nat \<Rightarrow> (nat \<Rightarrow> pydict) \<Rightarrow> (nat \<Rightarrow> pydict list) \<Rightarrow> bool" where
  "pages_read pages k n body got \<longleftrightarrow> k \<le> n \<and> (\<forall>j \<in> {k..n}. pages j = Inr (200, body j)
     \<and> page_rows (body j) = Inr (got j) \<and> (truthy (dict_get (body j) ''has_more'') \<longleftrightarrow> j < n))"

lemma read_pages_run:
  assumes "read_pages pages k rows = Some y"
  shows "\<forall>out. y = Inr out \<longrightarrow> (\<exists>n body got. pages_read pages k n body got \<and> out = rows @ concat (map got [k..<Suc n]))"
  using assms
proof (rule read_pages.raw_induct [rotated], intro allI impI)
  fix read_pages pages k rows y out
  assume IH: "\<And>pages k rows y. read_pages pages k rows = Some y \<Longrightarrow> \<forall>out. y = Inr out \<longrightarrow>
      (\<exists>n body got. pages_read pages k n body got \<and> out = rows @ concat (map got [k..<Suc n]))"
    and call: "(case pages k of
        Inl e \<Rightarrow> Some (Inl e)
      | Inr (status, body) \<Rightarrow>
          if status \<noteq> 200 then Some (Inl (RuntimeError ''listing failed'' status))
          else (case page_rows body of
              Inl e \<Rightarrow> Some (Inl (Raised e))
            | Inr got \<Rightarrow>
                if \<not> truthy (dict_get body ''has_more'') then Some (Inr (rows @ got))
                else read_pages pages (Suc k) (rows @ got))) = Some y" and y: "y = Inr out"
  then obtain body got where p: "pages k = Inr (200, body)" "page_rows body = Inr got"
    using y by (auto split: sum.splits if_splits)
  show "\<exists>n body got. pages_read pages k n body got \<and> out = rows @ concat (map got [k..<Suc n])"
  proof (cases "truthy (dict_get body ''has_more'')")
    case False
    with call y p have "out = rows @ got" by simp
    moreover have "pages_read pages k k (\<lambda>_. body) (\<lambda>_. got)" using p False by (simp add: pages_read_def)
    ultimately show ?thesis by (intro exI [of _ k] exI [of _ "\<lambda>_. body"] exI [of _ "\<lambda>_. got"]) simp
  next
    case True
    with call p have "read_pages pages (Suc k) (rows @ got) = Some y" by simp
    from IH [OF this] y obtain n bs gs where n: "pages_read pages (Suc k) n bs gs"
        "out = (rows @ got) @ concat (map gs [Suc k..<Suc n])" by blast
    have le: "Suc k \<le> n" and split: "j \<in> {k..n} \<longleftrightarrow> j = k \<or> j \<in> {Suc k..n}" for j
      using n(1) by (auto simp: pages_read_def)
    have "concat (map (gs(k := got)) [k..<Suc n]) = got @ concat (map gs [Suc k..<Suc n])"
    proof -
      have "[k..<Suc n] = k # [Suc k..<Suc n]" using le by (simp add: upt_conv_Cons)
      moreover have "map (gs(k := got)) [Suc k..<Suc n] = map gs [Suc k..<Suc n]" by (rule map_cong) auto
      ultimately show ?thesis by simp
    qed
    moreover have "pages_read pages k n (bs(k := body)) (gs(k := got))"
      using n(1) p True le by (auto simp: pages_read_def split)
    ultimately show ?thesis
      using n(2) by (intro exI [of _ n] exI [of _ "bs(k := body)"] exI [of _ "gs(k := got)"]) simp
  qed
qed

lemma read_pages_ends:
  assumes page: "\<And>k. \<exists>st body. pages k = Inr (st, body) \<and> (st = 200 \<longrightarrow>
      (\<exists>got. page_rows body = Inr got) \<and> (truthy (dict_get body ''has_more'') \<longleftrightarrow> Suc k * 200 < N))"
  shows "\<exists>y. read_pages pages k rows = Some y \<and> (\<forall>e. y = Inl e \<longrightarrow> (\<exists>j st body. (j = k \<or> j * 200 < N)
    \<and> pages j = Inr (st, body) \<and> st \<noteq> 200 \<and> e = RuntimeError ''listing failed'' st))"
proof (induction "N - k * 200" arbitrary: k rows rule: less_induct)
  case less
  obtain st body where p: "pages k = Inr (st, body)" and ok: "st = 200 \<Longrightarrow>
      (\<exists>got. page_rows body = Inr got) \<and> (truthy (dict_get body ''has_more'') \<longleftrightarrow> Suc k * 200 < N)"
    using page [of k] by blast
  show ?case
  proof (cases "st = 200")
    case False
    with p show ?thesis by (subst read_pages.simps) auto
  next
    case True
    then obtain got where got: "page_rows body = Inr got" "truthy (dict_get body ''has_more'') \<longleftrightarrow> Suc k * 200 < N"
      using ok by blast
    show ?thesis
    proof (cases "Suc k * 200 < N")
      case True
      then have "N - Suc k * 200 < N - k * 200" by simp
      from less [OF this, of "rows @ got"] True obtain y where
        "read_pages pages (Suc k) (rows @ got) = Some y" "\<forall>e. y = Inl e \<longrightarrow> (\<exists>j st body. (j = k \<or> j * 200 < N)
          \<and> pages j = Inr (st, body) \<and> st \<noteq> 200 \<and> e = RuntimeError ''listing failed'' st)"
        by blast
      moreover have "read_pages pages k rows = read_pages pages (Suc k) (rows @ got)"
        using p got True \<open>st = 200\<close> by (subst read_pages.simps) simp
      ultimately show ?thesis by simp
    next
      case False
      with p got \<open>st = 200\<close> show ?thesis by (subst read_pages.simps) simp
    qed
  qed
qed

subsection \<open>What a page holds\<close>

definition http_answer :: "exn + response \<Rightarrow> reply" where
  "http_answer r = (case r of Inl _ \<Rightarrow> Inr (500, []) | Inr p \<Rightarrow> Inr (re_status p, re_body p))"

lemma http_answer_Inr: "\<exists>st body. http_answer r = Inr (st, body)"
  by (cases r) (auto simp: http_answer_def)

definition batch_filter :: "string \<Rightarrow> task_filter" where
  "batch_filter corr = \<lparr>fl_statuses = [], fl_type = None, fl_worker = None, fl_correlation = Some corr\<rparr>"

definition page_answer ::
  "settings \<Rightarrow> secrets \<Rightarrow> (time \<Rightarrow> string) \<Rightarrow> (exn \<Rightarrow> string) \<Rightarrow> string \<Rightarrow> string \<Rightarrow> string \<Rightarrow> nat \<Rightarrow> time \<Rightarrow> gate \<Rightarrow> reply" where
  "page_answer c sc fmt msg header ip corr k now g = http_answer (fst
     (list_tasks_endpoint c sc fmt msg header ip None None None (Some corr) READ_PAGE (int k * READ_PAGE) now g))"

lemma list_tasks_batch:
  assumes "list_tasks (batch_filter corr) READ_PAGE (int k * READ_PAGE) mx d = Inr (rows, more_rows)"
  shows "rows = take 200 (drop (k * 200) (listing (batch_filter corr) d))"
    "more_rows \<longleftrightarrow> Suc k * 200 < length (listing (batch_filter corr) d)"
proof -
  have "READ_PAGE \<le> mx" using assms by (auto simp: list_tasks_def READ_PAGE_def split: if_splits)
  moreover have "1 \<le> READ_PAGE" "0 \<le> int k * READ_PAGE" by (simp_all add: READ_PAGE_def)
  moreover have "set (fl_statuses (batch_filter corr)) \<subseteq> TASK_STATES" "filter_type_known (batch_filter corr) = Inr ()"
    by (simp_all add: batch_filter_def filter_type_known_def)
  moreover have "nat (int k * READ_PAGE) = k * 200" "nat READ_PAGE = 200"
    by (simp_all add: READ_PAGE_def nat_mult_distrib)
  ultimately show "rows = take 200 (drop (k * 200) (listing (batch_filter corr) d))"
    "more_rows \<longleftrightarrow> Suc k * 200 < length (listing (batch_filter corr) d)"
    using assms list_tasks_Inr [of READ_PAGE mx "int k * READ_PAGE" "batch_filter corr" d] by auto
qed

lemma page_answer_200:
  assumes "page_answer c sc fmt msg header ip corr k now g = Inr (200, body)"
  shows "dict_get body ''tasks'' = PList (map (\<lambda>t. PDict (task_summary fmt now t))
      (take 200 (drop (k * 200) (listing (batch_filter corr) (gt_db g)))))
    \<and> dict_get body ''has_more'' = PBool (Suc k * 200 < length (listing (batch_filter corr) (gt_db g)))"
proof -
  obtain a h where e: "list_tasks_endpoint c sc fmt msg header ip None None None (Some corr) READ_PAGE
      (int k * READ_PAGE) now g = (Inr a, h)" "re_status a = 200" "re_body a = body"
    using assms by (cases "list_tasks_endpoint c sc fmt msg header ip None None None (Some corr) READ_PAGE (int k * READ_PAGE) now g")
      (auto simp: page_answer_def http_answer_def split: sum.splits)
  from e(1) show ?thesis
    unfolding list_tasks_endpoint_def
  proof (cases rule: guarded_cases)
    case away
    then show ?thesis using e(2) by (auto simp: turned_away_def)
  next
    case (passed g1)
    have "gt_db (g\<lparr>gt_rate := x\<rparr>) = gt_db g" for x by simp
    then have db: "gt_db g1 = gt_db g" using passed(2) unfolding same_but_rate_def by metis
    from passed(3) e(2) obtain rows more_rows where
      l: "list_tasks (batch_filter corr) READ_PAGE (int k * READ_PAGE) (cf_list_max c) (gt_db g) = Inr (rows, more_rows)"
      and b: "dict_get (re_body a) ''tasks'' = PList (map (\<lambda>t. PDict (task_summary fmt now t)) rows)"
        "dict_get (re_body a) ''has_more'' = PBool more_rows"
      by (auto simp: db bad_request_def refuse_def reply_def batch_filter_def ok_body_def dict_get_def split: sum.splits if_splits)
    show ?thesis using b list_tasks_batch [OF l] e(3) by simp
  qed simp
qed

lemma page_rows_of:
  "dict_get body ''tasks'' = PList (map (\<lambda>t. PDict (f t)) ts) \<Longrightarrow> page_rows body = Inr (map f ts)"
proof -
  have "those (map (Some \<circ> f) ts) = Some (map f ts)" by (induction ts) auto
  then show "dict_get body ''tasks'' = PList (map (\<lambda>t. PDict (f t)) ts) \<Longrightarrow> page_rows body = Inr (map f ts)"
    by (cases ts) (auto simp: page_rows_def py_or_def comp_def)
qed

subsection \<open>The batch while the system moves on\<close>

definition batch :: "string \<Rightarrow> db \<Rightarrow> task_row list" where
  "batch corr d = filter (\<lambda>t. tk_correlation t = corr) (db_tasks d)"

lemma listing_batch: "listing (batch_filter corr) d = rev (sort_key listing_key (batch corr d))"
proof -
  have "listed (batch_filter corr) = (\<lambda>t. tk_correlation t = corr)" by (simp add: listed_def batch_filter_def fun_eq_iff)
  then show ?thesis by (simp add: listing_def batch_def)
qed

lemma map_sort_key: "map k (sort_key k xs) = sort (map k xs)"
  by (rule properties_for_sort [symmetric]) simp_all

text \<open>Only the tasks of the first state carry the correlation id of the batch.\<close>

definition batch_closed :: "string \<Rightarrow> db \<Rightarrow> db \<Rightarrow> bool" where
  "batch_closed corr d e \<longleftrightarrow> tk_id ` set (batch corr e) \<subseteq> tk_id ` set (batch corr d)"

lemma batch_keys:
  assumes "db_ok d" "db_ok e" "evolves d e" "batch_closed corr d e"
  shows "map listing_key (listing (batch_filter corr) e) = map listing_key (listing (batch_filter corr) d)"
proof -
  have distinct: "distinct (map listing_key (batch corr x))" if "db_ok x" for x
  proof -
    have "distinct (map tk_id (batch corr x))"
      unfolding batch_def by (rule distinct_map_filter [OF db_ok_distinct [OF that]])
    then show ?thesis by (auto simp: distinct_map inj_on_def listing_key_def)
  qed
  have fwd: "listing_key t \<in> listing_key ` set (batch corr e)" if t: "t \<in> set (batch corr d)" for t
  proof -
    obtain u where "u \<in> set (db_tasks e)" "row_evolves t u"
      using assms(3) t by (auto simp: evolves_def batch_def)
    then show ?thesis
      using t by (intro image_eqI [of _ _ u]) (auto simp: row_evolves_def same_identity_def listing_key_def batch_def)
  qed
  have bwd: "listing_key t \<in> listing_key ` set (batch corr d)" if t: "t \<in> set (batch corr e)" for t
  proof -
    obtain s where s: "s \<in> set (batch corr d)" "tk_id s = tk_id t"
      using assms(4) t by (fastforce simp: batch_closed_def)
    obtain u where u: "u \<in> set (db_tasks e)" "row_evolves s u"
      using assms(3) s(1) by (auto simp: evolves_def batch_def)
    have "u = t"
      using u s t db_ok_distinct [OF assms(2)]
      by (auto simp: row_evolves_def same_identity_def distinct_map inj_on_def batch_def)
    with u s show ?thesis
      by (intro image_eqI [of _ _ s]) (auto simp: row_evolves_def same_identity_def listing_key_def)
  qed
  have "sort (map listing_key (batch corr e)) = sort (map listing_key (batch corr d))"
    by (rule sorted_distinct_set_unique) (use distinct assms(1,2) fwd bwd in auto)
  then show ?thesis by (simp add: listing_batch rev_map [symmetric] map_sort_key)
qed


text \<open>Pages of a fixed length: an index is found on the page its quotient names.\<close>

lemma pages_nth:
  assumes "0 < s" "\<And>j. j < m \<Longrightarrow> length (P j) = min s (N - j * s)" "N \<le> m * s"
  shows "length (concat (map P [0..<m])) = N \<and> (\<forall>i < N. concat (map P [0..<m]) ! i = P (i div s) ! (i mod s))"
  using assms(2,3)
proof (induction m arbitrary: N)
  case (Suc m)
  let ?M = "min N (m * s)"
  have "length (P j) = min s (?M - j * s)" if "j < m" for j
  proof -
    have "Suc j * s \<le> m * s" using that by (intro mult_le_mono1) simp
    then show ?thesis using Suc.prems(1) [of j] that by (auto simp: min_def)
  qed
  with Suc.IH [of ?M] have IH: "length (concat (map P [0..<m])) = ?M"
      "\<forall>i < ?M. concat (map P [0..<m]) ! i = P (i div s) ! (i mod s)" by auto
  have lm: "length (P m) = N - m * s" using Suc.prems(1) [of m] Suc.prems(2) by auto
  have "concat (map P [0..<Suc m]) ! i = P (i div s) ! (i mod s)" if i: "i < N" for i
  proof (cases "i < m * s")
    case True
    with IH i show ?thesis by (simp add: nth_append)
  next
    case False
    then have "i = m * s + (i - m * s)" "i - m * s < s" using i Suc.prems(2) by auto
    then have "i div s = m" "i mod s = i - m * s" using assms(1)
      by (metis add.commute div_mult_self4 div_less add_0 less_not_refl2 mod_mult_self4 mod_less mult.commute)+
    with False IH i show ?thesis by (simp add: nth_append)
  qed
  with IH(1) lm show ?case by auto
qed simp

lemma sequence_reaches: "(\<And>k. (step c)\<^sup>*\<^sup>* (D k) (D (Suc k))) \<Longrightarrow> (step c)\<^sup>*\<^sup>* (D 0) (D k)"
  by (induction k) (auto intro: rtranclp_trans)

lemma batch_read_ends:
  fixes sc fmt msg header ip corr now
  assumes "reachable c (gt_db (G 0))" and "\<And>k. (step c)\<^sup>*\<^sup>* (gt_db (G k)) (gt_db (G (Suc k)))"
    and "\<And>k. batch_closed corr (gt_db (G 0)) (gt_db (G k))"
  defines "pages \<equiv> \<lambda>k. page_answer c sc fmt msg header ip corr k (now k) (G k)"
  shows "\<exists>y. read_pages pages 0 [] = Some y \<and> (\<forall>e. y = Inl e \<longrightarrow> (\<exists>j st body.
    (j = 0 \<or> j * 200 < length (batch corr (gt_db (G 0)))) \<and> pages j = Inr (st, body) \<and> st \<noteq> 200
    \<and> e = RuntimeError ''listing failed'' st))"
proof (rule read_pages_ends)
  fix k
  let ?L = "\<lambda>k. listing (batch_filter corr) (gt_db (G k))"
  have ok: "db_ok (gt_db (G k))" and ev: "evolves (gt_db (G 0)) (gt_db (G k))" and ok0: "db_ok (gt_db (G 0))" for k
    using steps_ok [OF sequence_reaches [of c "\<lambda>k. gt_db (G k)", OF assms(2)] reachable_ok [OF assms(1)], of k]
      reachable_ok [OF assms(1)] by simp_all
  have "length (map listing_key (?L k)) = length (map listing_key (?L 0))"
    by (rule arg_cong [OF batch_keys [OF ok0 ok ev assms(3)]])
  then have len: "length (?L k) = length (batch corr (gt_db (G 0)))" by (simp add: listing_batch)
  obtain st body where p: "pages k = Inr (st, body)"
    using http_answer_Inr unfolding pages_def page_answer_def by blast
  then show "\<exists>st body. pages k = Inr (st, body) \<and> (st = 200 \<longrightarrow> (\<exists>got. page_rows body = Inr got)
      \<and> (truthy (dict_get body ''has_more'') \<longleftrightarrow> Suc k * 200 < length (batch corr (gt_db (G 0)))))"
  proof (intro exI conjI impI)
    assume "st = 200"
    with p have "page_answer c sc fmt msg header ip corr k (now k) (G k) = Inr (200, body)" by (simp add: pages_def)
    note page = page_answer_200 [OF this]
    show "page_rows body = Inr (map (task_summary fmt (now k)) (take 200 (drop (k * 200) (?L k))))"
      by (rule page_rows_of [OF page [THEN conjunct1]])
    show "truthy (dict_get body ''has_more'') \<longleftrightarrow> Suc k * 200 < length (batch corr (gt_db (G 0)))"
      using page [THEN conjunct2] len by simp
  qed
qed

lemma batch_read_once:
  assumes "reachable c (gt_db (G 0))" and "\<And>k. (step c)\<^sup>*\<^sup>* (gt_db (G k)) (gt_db (G (Suc k)))"
    and "\<And>k. batch_closed corr (gt_db (G 0)) (gt_db (G k))"
    and "read_pages (\<lambda>k. page_answer c sc fmt msg header ip corr k (now k) (G k)) 0 [] = Some (Inr rows)"
  shows "\<exists>ids. distinct ids \<and> set ids = tk_id ` set (batch corr (gt_db (G 0))) \<and> length rows = length ids
    \<and> (\<forall>j < length ids. \<exists>t. find_task (gt_db (G (j div 200))) (ids ! j) = Some t \<and> tk_correlation t = corr
         \<and> rows ! j = task_summary fmt (now (j div 200)) t)"
proof -
  let ?L = "\<lambda>k. listing (batch_filter corr) (gt_db (G k))"
  let ?ids = "map tk_id (?L 0)"
  let ?P = "\<lambda>k. map (task_summary fmt (now k)) (take 200 (drop (k * 200) (?L k)))"
  obtain n body got where n: "pages_read (\<lambda>k. page_answer c sc fmt msg header ip corr k (now k) (G k)) 0 n body got"
      "rows = concat (map got [0..<Suc n])"
    using read_pages_run [OF assms(4)] by auto
  have ok: "db_ok (gt_db (G k))" and ev: "evolves (gt_db (G 0)) (gt_db (G k))" for k
    using steps_ok [OF sequence_reaches [of c "\<lambda>k. gt_db (G k)", OF assms(2)] reachable_ok [OF assms(1)], of k] by simp_all
  have "map snd (map listing_key (?L k)) = map snd (map listing_key (?L 0))" for k
    using batch_keys [OF ok ok ev assms(3), of k] by (rule arg_cong)
  then have ids: "map tk_id (?L k) = ?ids" for k by (simp add: listing_key_def comp_def)
  then have len: "length (?L k) = length ?ids" for k by (metis length_map)
  have page: "page_answer c sc fmt msg header ip corr k (now k) (G k) = Inr (200, body k)" if "k \<le> n" for k
    using n(1) that by (auto simp: pages_read_def)
  have got: "got k = ?P k" if "k \<le> n" for k
    using n(1) that page_rows_of [OF page_answer_200 [OF page [OF that], THEN conjunct1]] by (auto simp: pages_read_def)
  have "\<not> Suc n * 200 < length ?ids"
    using n(1) page_answer_200 [OF page [OF le_refl]] len [of n] by (auto simp: pages_read_def)
  then have N: "length ?ids \<le> Suc n * 200" by simp
  have rows: "rows = concat (map ?P [0..<Suc n])"
    unfolding n(2) by (intro arg_cong [where f = concat] map_cong refl got) auto
  have pages: "length (?P j) = min 200 (length ?ids - j * 200)" for j using len [of j] by simp
  note nth = pages_nth [of 200 "Suc n" ?P "length ?ids", OF _ pages N, folded rows, simplified]
  have row: "\<exists>t. find_task (gt_db (G (j div 200))) (?ids ! j) = Some t \<and> tk_correlation t = corr
      \<and> rows ! j = task_summary fmt (now (j div 200)) t" if j: "j < length ?ids" for j
  proof (intro exI conjI)
    let ?t = "?L (j div 200) ! j"
    have jl: "j < length (?L (j div 200))" using j len [of "j div 200"] by simp
    then have "?t \<in> set (?L (j div 200))" by simp
    then have t: "?t \<in> set (db_tasks (gt_db (G (j div 200))))" "tk_correlation ?t = corr"
      by (auto simp: listing_batch batch_def)
    have "?ids ! j = tk_id ?t" using jl ids [of "j div 200"] by (metis nth_map)
    then show "find_task (gt_db (G (j div 200))) (?ids ! j) = Some ?t"
      using find_task_unique [OF db_ok_distinct [OF ok] t(1)] by simp
    show "tk_correlation ?t = corr" by (rule t(2))
    have "j div 200 * 200 + j mod 200 = j" by simp
    then show "rows ! j = task_summary fmt (now (j div 200)) ?t"
      using nth j jl by (simp add: less_diff_conv)
  qed
  have "distinct ?ids"
    using distinct_map_filter [OF db_ok_distinct [OF ok [of 0]]]
    by (simp add: listing_batch rev_map [symmetric] distinct_map batch_def)
  moreover have "set ?ids = tk_id ` set (batch corr (gt_db (G 0)))" by (simp add: listing_batch)
  moreover have "length rows = length ?ids" using nth by simp
  ultimately show ?thesis using row by blast
qed

end
