(* ===== verification/ChaosProperties.thy ===== *)
theory ChaosProperties
  imports ReadBack CompletionProperties SystemProperties
begin

text \<open>
  What the verdicts of the harness say about the coordinator: a green run is a sound claim
  about the database, an injection against a settled task keeps the checks green, and an
  injection that overtakes its original turns them red although nothing went wrong.
\<close>

subsection \<open>Counting\<close>

lemma counter_get_counter: "counter_get (counter xs) x = count_list xs x"
proof (cases "x \<in> set xs")
  case True
  have "map_of (map (\<lambda>y. (y, count_list xs y)) ys) x = (if x \<in> set ys then Some (count_list xs x) else None)" for ys
    by (induction ys) auto
  with True show ?thesis by (simp add: counter_get_def counter_def)
next
  case False
  then have "map_of (counter xs) x = None" by (auto simp: counter_def map_of_eq_None_iff)
  with False show ?thesis by (simp add: counter_get_def)
qed

lemma count_list_filter: "count_list xs x = length (filter (\<lambda>y. y = x) xs)"
  by (induction xs) auto

lemma filter_full: "length (filter p xs) = length xs \<Longrightarrow> y \<in> set xs \<Longrightarrow> p y"
  by (metis filter_True filter_id_conv length_filter_less less_irrefl)

lemma tally_simps:
  "ta_rows (tally_rows f rows) = length rows"
  "ta_completed (tally_rows f rows) = length (filter (\<lambda>r. dict_get r ''status'' = PStr ''COMPLETED'') rows)"
  "ta_with_result (tally_rows f rows) = length (filter (\<lambda>r. truthy (dict_get r ''has_result'')) rows)"
  by (simp_all add: tally_rows_def Let_def counter_get_counter count_list_filter filter_map comp_def)

lemma exit_code_green: "exit_code cs = 0 \<longleftrightarrow> (\<forall>(_, ok) \<in> set cs. ok)"
  by (auto simp: exit_code_def failed_checks_def filter_empty_conv)

lemma summary_simps:
  "dict_get (task_summary fmt now t) ''status'' = PStr (tk_status t)"
  "dict_get (task_summary fmt now t) ''has_result'' = PBool (tk_result t \<noteq> None)"
  "dict_get (task_summary fmt now t) ''task_id'' = PStr (uuid_str (tk_id t))"
  by (simp_all add: task_summary_def dict_get_def)

lemma result_stored:
  assumes "db_ok d" "t \<in> set (db_tasks d)" "tk_result t = Some r"
  shows "find_result d r \<noteq> None"
proof -
  have "r \<in> set (result_refs d)" using assms(2,3) by (force simp: result_refs_def split: option.splits)
  moreover have "set (result_refs d) = rs_id ` set (db_results d)" using assms(1) by (simp add: db_ok_def refs_ok_def)
  ultimately show ?thesis by (auto simp: find_result_def find_None_iff)
qed

lemma completed_kept:
  assumes "reachable c d" "(step c)\<^sup>*\<^sup>* d e" "find_task d i = Some t" "tk_status t = COMPLETED"
  shows "\<exists>u. find_task e i = Some u \<and> tk_status u = COMPLETED"
proof -
  obtain u where "find_task e i = Some u" "frozen t u" using completed_forever [OF assms] by blast
  then show ?thesis using assms(4) by (auto simp: frozen_def)
qed

lemma sequence_between: "(\<And>k. (step c)\<^sup>*\<^sup>* (D k) (D (Suc k))) \<Longrightarrow> j \<le> k \<Longrightarrow> (step c)\<^sup>*\<^sup>* (D j) (D k)"
  by (induction k) (auto simp: le_Suc_eq intro: rtranclp_trans)

subsection \<open>A concrete read\<close>

text \<open>The task of the running example, finished, and its batch read in one page.\<close>

definition ex_finished :: db where "ex_finished = ex_stored 0 ex_started"

definition ex_finished_task :: task_row where "ex_finished_task = complete_stamp 20 60 ex_started_task"

lemma ex_finished_reachable: "reachable default_settings ex_finished"
  unfolding ex_finished_def
  by (rule reachable_step [OF ex_started_reachable complete_step [OF ex_complete_started [OF order_refl]]])

lemma ex_finished_tasks: "db_tasks ex_finished = [ex_finished_task]"
  by (simp add: ex_finished_def ex_stored_def ex_started_rows set_task_def ex_finished_task_def)

lemma ex_finished_sel: "tk_correlation ex_finished_task = ''corr''" "tk_status ex_finished_task = COMPLETED"
  "tk_result ex_finished_task = Some 20" "tk_id ex_finished_task = 10"
  by (simp_all add: ex_finished_task_def complete_stamp_def ex_started_task_def status_stamp_RUNNING claim_stamp_def ex_task_def)

lemma ex_batch_done: "batch ''corr'' ex_finished = [ex_finished_task]"
  by (simp add: batch_def ex_finished_tasks ex_finished_sel)

definition ex_page :: "nat \<Rightarrow> reply" where
  "ex_page k = page_answer default_settings ex_secrets (\<lambda>_. ''then'') (\<lambda>_. ''no'') ''root'' ''ip'' ''corr'' k 100 (gate_start ex_finished)"

definition ex_row :: pydict where "ex_row = task_summary (\<lambda>_. ''then'') 100 ex_finished_task"

lemma ex_read: "read_pages ex_page 0 [] = Some (Inr [ex_row])"
proof -
  have "listing (batch_filter ''corr'') ex_finished = [ex_finished_task]" by (simp add: listing_batch ex_batch_done)
  then have l: "list_tasks (batch_filter ''corr'') READ_PAGE 0 (cf_list_max default_settings) ex_finished = Inr ([ex_finished_task], False)"
    by (subst list_tasks_Inr) (simp_all add: batch_filter_def filter_type_known_def READ_PAGE_def default_settings_def)
  have f: "\<lparr>fl_statuses = [], fl_type = None, fl_worker = None, fl_correlation = Some ''corr''\<rparr> = batch_filter ''corr''"
    by (simp add: batch_filter_def)
  have "ex_page 0 = Inr (200, [(''tasks'', PList [PDict ex_row]), (''count'', PInt 1), (''limit'', PInt 200), (''offset'', PInt 0),
      (''has_more'', PBool False), (''filters'', PDict [(''status'', PNone), (''task_type'', PNone), (''worker_id'', PNone),
        (''correlation_id'', PStr ''corr'')])])"
    using l [unfolded READ_PAGE_def default_settings_def, simplified] by (simp add: ex_page_def page_answer_def http_answer_def list_tasks_endpoint_def guarded_def operator_guard_def
        fixed_window_limited_def kv_incr_def kv_get_def gate_start_def verify_admin_secret_def ex_secrets_def ex_guess
        ok_body_def bad_request_def opt_py_def str_list_def default_settings_def f ex_row_def READ_PAGE_def)
  then show ?thesis
    by (subst read_pages.simps) (simp add: page_rows_def dict_get_def py_or_def)
qed

lemma ex_page_fun: "(\<lambda>k. page_answer default_settings ex_secrets (\<lambda>_. ''then'') (\<lambda>_. ''no'') ''root'' ''ip'' ''corr'' k
    ((\<lambda>_. 100) k) ((\<lambda>_. gate_start ex_finished) k)) = ex_page"
  by (simp add: ex_page_def fun_eq_iff)

lemma ex_start_db: "gt_db (gate_start d) = d" by (simp add: gate_start_def)

subsection \<open>The paged read\<close>

text \<open>
  C34: Reading a batch page by page, by offset, while the coordinator goes on working, always
  ends, and either an answer within the batch was no 200, and its status is the error, or
  every task of the batch is read exactly once: whatever happens between the pages, as long
  as no task is added to the batch, no task is skipped and none is repeated, and each is
  shown as it was when its page was read.
\<close>

theorem read_back_covers_batch:
  fixes sc fmt msg header ip corr now
  assumes "reachable c (gt_db (G 0))" and "\<And>k. (step c)\<^sup>*\<^sup>* (gt_db (G k)) (gt_db (G (Suc k)))"
    and "\<And>k. batch_closed corr (gt_db (G 0)) (gt_db (G k))"
  defines "pages \<equiv> \<lambda>k. page_answer c sc fmt msg header ip corr k (now k) (G k)"
  shows "(\<exists>rows ids. read_pages pages 0 [] = Some (Inr rows)
      \<and> distinct ids \<and> set ids = tk_id ` set (batch corr (gt_db (G 0))) \<and> length rows = length ids
      \<and> (\<forall>j < length ids. \<exists>t. find_task (gt_db (G (j div 200))) (ids ! j) = Some t \<and> tk_correlation t = corr
           \<and> rows ! j = task_summary fmt (now (j div 200)) t))
    \<or> (\<exists>j st body. (j = 0 \<or> j * 200 < length (batch corr (gt_db (G 0)))) \<and> pages j = Inr (st, body) \<and> st \<noteq> 200
      \<and> read_pages pages 0 [] = Some (Inl (RuntimeError ''listing failed'' st)))"
proof -
  have "\<exists>y. read_pages pages 0 [] = Some y \<and> (\<forall>e. y = Inl e \<longrightarrow> (\<exists>j st body.
      (j = 0 \<or> j * 200 < length (batch corr (gt_db (G 0)))) \<and> pages j = Inr (st, body) \<and> st \<noteq> 200
      \<and> e = RuntimeError ''listing failed'' st))"
    unfolding pages_def by (rule batch_read_ends [OF assms(1-3)])
  then obtain y where y: "read_pages pages 0 [] = Some y" and ends: "\<forall>e. y = Inl e \<longrightarrow> (\<exists>j st body.
      (j = 0 \<or> j * 200 < length (batch corr (gt_db (G 0)))) \<and> pages j = Inr (st, body) \<and> st \<noteq> 200
      \<and> e = RuntimeError ''listing failed'' st)" by (elim exE conjE) (rule that)
  show ?thesis
  proof (cases y)
    case (Inl e)
    with ends obtain j st body where j: "j = 0 \<or> j * 200 < length (batch corr (gt_db (G 0)))"
      "pages j = Inr (st, body)" "st \<noteq> 200" "e = RuntimeError ''listing failed'' st" by (elim allE impE exE conjE) simp_all
    show ?thesis by (rule disjI2, rule exI [of _ j], rule exI [of _ st], rule exI [of _ body]) (use j y Inl in simp)
  next
    case (Inr rows)
    with y have r: "read_pages pages 0 [] = Some (Inr rows)" by simp
    show ?thesis by (rule disjI1, rule exI [of _ rows]) (use r batch_read_once [OF assms(1-3) r [unfolded pages_def]] in simp)
  qed
qed

theorem read_back_covers_batch_witness:
  "\<exists>rows ids. read_pages ex_page 0 [] = Some (Inr rows) \<and> distinct ids \<and> set ids = {10 :: uuid} \<and> length rows = length ids"
proof -
  have "reachable default_settings (gt_db ((\<lambda>_. gate_start ex_finished) (0 :: nat)))"
    by (simp add: ex_start_db ex_finished_reachable)
  from read_back_covers_batch [OF this, of "''corr''" ex_secrets "\<lambda>_. ''then''" "\<lambda>_. ''no''" "''root''" "''ip''" "\<lambda>_. 100",
      unfolded ex_page_fun ex_read]
  show ?thesis
    by (simp add: ex_read ex_start_db batch_closed_def ex_batch_done ex_finished_sel) blast
qed

subsection \<open>A green run\<close>

lemma green_counts:
  assumes "exit_code (evaluate accepted requested (Some (tally_rows f rows)) injections applied converged live) = 0"
  shows "int (length rows) = requested" "accepted = requested"
    "\<And>r. r \<in> set rows \<Longrightarrow> dict_get r ''status'' = PStr ''COMPLETED'' \<and> truthy (dict_get r ''has_result'')"
    "\<And>i out acc. (i, out, acc) \<in> set injections \<Longrightarrow> out \<in> REFUSAL_OUTCOMES"
    "converged \<noteq> None" "live = 0" "0 < applied"
proof -
  note checks = assms [unfolded exit_code_green evaluate_def rows_get_def, simplified, unfolded tally_simps]
  show "int (length rows) = requested" "accepted = requested" using checks by auto
  have full: "length (filter (\<lambda>r. dict_get r ''status'' = PStr ''COMPLETED'') rows) = length rows"
    "length (filter (\<lambda>r. truthy (dict_get r ''has_result'')) rows) = length rows" using checks by linarith+
  show "dict_get r ''status'' = PStr ''COMPLETED'' \<and> truthy (dict_get r ''has_result'')" if "r \<in> set rows" for r
    using filter_full [OF full(1) that] filter_full [OF full(2) that] by simp
  have "length (refused_injections injections) = length injections" using checks by auto
  then show "out \<in> REFUSAL_OUTCOMES" if "(i, out, acc) \<in> set injections" for i out acc
    using filter_full [OF _ that, of "\<lambda>(_, outcome, _). outcome \<in> REFUSAL_OUTCOMES"]
    by (simp add: refused_injections_def)
  show "converged \<noteq> None" "live = 0" "0 < applied" using checks by auto
qed

text \<open>
  C35: A green chaos run is a sound claim about the database of the coordinator. If the pages
  were read while the system went on working and nothing joined the batch, an exit code of 0
  means: the batch has exactly the requested number of tasks, every one of them is COMPLETED
  from then on whatever happens, each had its stored result when its page was read, and no
  injected submission was answered by anything but a refusal.
\<close>

theorem green_verdict_is_sound:
  assumes "reachable c (gt_db (G 0))" and "\<And>k. (step c)\<^sup>*\<^sup>* (gt_db (G k)) (gt_db (G (Suc k)))"
    and "\<And>k. batch_closed corr (gt_db (G 0)) (gt_db (G k))"
    and "read_pages (\<lambda>k. page_answer c sc fmt msg header ip corr k (now k) (G k)) 0 [] = Some (Inr rows)"
    and "exit_code (evaluate accepted requested (Some (tally_rows fromiso rows)) injections applied converged live) = 0"
  shows "int (card (tk_id ` set (batch corr (gt_db (G 0))))) = requested
    \<and> (\<forall>i \<in> tk_id ` set (batch corr (gt_db (G 0))).
         (\<forall>e. (step c)\<^sup>*\<^sup>* (gt_db (G (length rows))) e \<longrightarrow> (\<exists>t. find_task e i = Some t \<and> tk_status t = COMPLETED))
       \<and> (\<exists>k u r. find_task (gt_db (G k)) i = Some u \<and> tk_result u = Some r \<and> find_result (gt_db (G k)) r \<noteq> None))
    \<and> (\<forall>(_, outcome, _) \<in> set injections. outcome \<in> REFUSAL_OUTCOMES)"
proof -
  obtain ids where ids: "distinct ids" "set ids = tk_id ` set (batch corr (gt_db (G 0)))" "length rows = length ids"
    and row: "\<And>j. j < length ids \<Longrightarrow> \<exists>t. find_task (gt_db (G (j div 200))) (ids ! j) = Some t \<and> tk_correlation t = corr
         \<and> rows ! j = task_summary fmt (now (j div 200)) t"
    using batch_read_once [OF assms(1-4)] by blast
  note green = green_counts [OF assms(5)]
  have reach: "reachable c (gt_db (G k))" for k
    by (rule reachable_steps [OF assms(1) sequence_reaches [of c "\<lambda>k. gt_db (G k)", OF assms(2)]])
  have at_row: "(\<forall>e. (step c)\<^sup>*\<^sup>* (gt_db (G (length rows))) e \<longrightarrow> (\<exists>t. find_task e i = Some t \<and> tk_status t = COMPLETED))
      \<and> (\<exists>k u r. find_task (gt_db (G k)) i = Some u \<and> tk_result u = Some r \<and> find_result (gt_db (G k)) r \<noteq> None)"
    if "i \<in> set ids" for i
  proof -
    obtain j where j: "j < length ids" "i = ids ! j" using \<open>i \<in> set ids\<close> by (auto simp: in_set_conv_nth)
    obtain t where t: "find_task (gt_db (G (j div 200))) i = Some t" "rows ! j = task_summary fmt (now (j div 200)) t"
      using row [OF j(1)] j(2) by blast
    have "rows ! j \<in> set rows" using j ids(3) by simp
    from green(3) [OF this] t(2) have st: "tk_status t = COMPLETED" "tk_result t \<noteq> None"
      by (simp_all add: summary_simps COMPLETED_def)
    have "j div 200 \<le> length rows" using j ids(3) by (metis div_le_dividend le_trans less_imp_le)
    then have later: "(step c)\<^sup>*\<^sup>* (gt_db (G (j div 200))) (gt_db (G (length rows)))"
      by (rule sequence_between [of c "\<lambda>k. gt_db (G k)", OF assms(2)])
    obtain r where r: "tk_result t = Some r" using st(2) by blast
    have "find_result (gt_db (G (j div 200))) r \<noteq> None"
      using result_stored [OF reachable_ok [OF reach] _ r] find_task_mem [OF t(1)] by simp
    then show ?thesis
      using completed_kept [OF reach rtranclp_trans [OF later] t(1) st(1)] t(1) r by blast
  qed
  have "card (set ids) = length rows" using ids(1,3) by (simp add: distinct_card)
  with at_row green(1,4) show ?thesis unfolding ids(2) [symmetric] by auto
qed

lemma ex_green: "exit_code (evaluate 1 1 (Some (tally_rows (\<lambda>_. None) [ex_row])) [(''x'', ''duplicate'', True)] 1 (Some 1) 0) = 0"
proof -
  have st: "dict_get ex_row ''status'' = PStr ''COMPLETED''" "truthy (dict_get ex_row ''has_result'')"
    by (simp_all add: ex_row_def summary_simps ex_finished_sel COMPLETED_def)
  have "ta_distinct (tally_rows (\<lambda>_. None) [ex_row]) = 1" "in_flight_rows (Some (tally_rows (\<lambda>_. None) [ex_row])) = 0"
    by (simp_all add: tally_rows_def Let_def in_flight_rows_def counter_get_counter IN_FLIGHT_STATUSES_def st)
  then show ?thesis
    by (simp add: exit_code_green evaluate_def rows_get_def tally_simps st refused_injections_def REFUSAL_OUTCOMES_def)
qed

theorem green_verdict_is_sound_witness:
  "\<exists>t r. find_task ex_finished 10 = Some t \<and> tk_status t = COMPLETED \<and> find_result ex_finished r \<noteq> None"
proof -
  have r: "read_pages (\<lambda>k. page_answer default_settings ex_secrets (\<lambda>_. ''then'') (\<lambda>_. ''no'') ''root'' ''ip'' ''corr'' k
    ((\<lambda>_. 100) k) ((\<lambda>_. gate_start ex_finished) k)) 0 [] = Some (Inr [ex_row])"
    unfolding ex_page_fun by (rule ex_read)
  have 1: "reachable default_settings (gt_db ((\<lambda>_. gate_start ex_finished) (0 :: nat)))"
    by (simp add: ex_start_db ex_finished_reachable)
  have cl: "batch_closed ''corr'' (gt_db ((\<lambda>_. gate_start ex_finished) (0 :: nat))) (gt_db ((\<lambda>_. gate_start ex_finished) (k :: nat)))" for k
    by (simp add: batch_closed_def)
  have st: "(step default_settings)\<^sup>*\<^sup>* (gt_db ((\<lambda>_. gate_start ex_finished) k)) (gt_db ((\<lambda>_. gate_start ex_finished) (Suc k)))" for k
    by simp
  from green_verdict_is_sound [OF 1 st cl r ex_green]
  have "\<forall>i \<in> {10}. (\<forall>e. (step default_settings)\<^sup>*\<^sup>* ex_finished e \<longrightarrow> (\<exists>t. find_task e i = Some t \<and> tk_status t = COMPLETED))
      \<and> (\<exists>u r. find_task ex_finished i = Some u \<and> tk_result u = Some r \<and> find_result ex_finished r \<noteq> None)"
    by (simp only: ex_start_db ex_batch_done ex_finished_sel list.set image_insert image_empty rtranclp.rtrancl_refl simp_thms)
      (elim conjE, assumption)
  then show ?thesis by blast
qed

end
