(* ===== verification/SimProperties.thy ===== *)
theory SimProperties
  imports ChaosProperties
begin

text \<open>
  The simulated worker in every interleaving, its injected submissions against the
  coordinator, and the percentile the load report prints.
\<close>

subsection \<open>Injected submissions\<close>

lemma result_ack_get: "dict_get (result_ack i out) ''task_id'' = PStr i" "dict_get (result_ack i out) ''outcome'' = PStr (outcome_text out)"
  "dict_get (result_ack i out) ''accepted'' = PBool (out \<in> {TRANSITIONED, DUPLICATE})"
  by (simp_all add: result_ack_def dict_get_def)

lemma outcome_text_nonempty: "outcome_text out \<noteq> []"
  by (cases out) (simp_all add: outcome_text_def)

lemma ack_read:
  assumes "i \<noteq> []"
  shows "sim_result_ack rp (result_ack i out) v =
    (let w = v\<lparr>si_pending := AList.delete i (si_pending v), si_sent_at := AList.delete i (si_sent_at v),
        si_outcomes := AList.update i (outcome_text out) (si_outcomes v)\<rparr>
     in if i \<in> set (si_awaiting v)
        then w\<lparr>si_awaiting := removeAll i (si_awaiting v),
               si_injections := si_injections v @ [(i, outcome_text out, out \<in> {TRANSITIONED, DUPLICATE})]\<rparr>
        else if out \<in> {TRANSITIONED, DUPLICATE} then w\<lparr>si_completed := set_add i (si_completed v)\<rparr> else w)"
  using assms outcome_text_nonempty [of out]
  by (simp add: sim_result_ack_def Let_def get_str_def py_or_def result_ack_get)

lemma refusal_text: "outcome_text out \<in> REFUSAL_OUTCOMES \<longleftrightarrow> out \<notin> {TRANSITIONED, NOOP, NOT_CANCELLABLE}"
  by (cases out) (simp_all add: outcome_text_def REFUSAL_OUTCOMES_def)

lemma transitioned_text: "outcome_text out = ''transitioned'' \<longleftrightarrow> out = TRANSITIONED"
  by (cases out) (simp_all add: outcome_text_def)

text \<open>
  C36: An injection the harness aims at a settled task does what the harness counts on: once a
  task is finished, any later submission for it, a re-sent envelope or one with an earlier
  attempt and a fresh token, changes nothing in the database, and the worker that
  reads the answer books it as a refusal and not as a task it completed.
\<close>

theorem settled_injection_refused:
  assumes "reachable c d" "find_task d i = Some t" "tk_status t \<in> TERMINAL_STATES" "(step c)\<^sup>*\<^sup>* d e"
    and "envelope_for env i n epoch token" "complete_task rp env w rid aid now e = Inr (out, f)"
    and "uuid_str i \<in> set (si_awaiting v)"
    and "u = sim_result_ack rp (result_ack (uuid_str i) out) v"
  shows "f = e \<and> si_injections u = si_injections v @ [(uuid_str i, outcome_text out, out = DUPLICATE)]
    \<and> outcome_text out \<in> REFUSAL_OUTCOMES \<and> outcome_text out \<noteq> ''transitioned''
    \<and> si_completed u = si_completed v"
proof -
  obtain s where s: "find_task e i = Some s" "row_evolves t s" using steps_find [OF assms(1,4,2)] .
  have "tk_status s \<in> TERMINAL_STATES" using s(2) assms(3) by (auto simp: row_evolves_def frozen_def)
  then have o: "out \<in> {DUPLICATE, SUPERSEDED}" "f = e"
    using assms(6) terminal_outcome_range [of e "tk_result s" "dict_get env ''idempotency_token''"]
    by (auto simp: complete_task_at [OF assms(5)] s(1) complete_locked_terminal)
  then show ?thesis
    using assms(7) uuid_str_nonempty [of i]
    by (auto simp: assms(8) ack_read Let_def refusal_text transitioned_text)
qed

lemma accepted_then_duplicate:
  assumes "db_ok d" and "envelope_for env i n epoch token"
    and "complete_task rp env w rid aid now d = Inr (TRANSITIONED, e)"
  shows "complete_task rp env w rid' aid' later e = Inr (DUPLICATE, e) \<and> length (db_results e) = Suc (length (db_results d))
    \<and> (\<exists>t. find_task e i = Some t \<and> tk_status t = COMPLETED \<and> tk_result t = Some rid)"
  using assms
proof (cases rule: complete_cases)
  case (terminal t)
  then show ?thesis using terminal_outcome_range [of d "tk_result t" "PStr token"] by auto
next
  case (stored t d')
  obtain m where new: "rid \<notin> rs_id ` set (db_results d)"
    and d': "d' = d\<lparr>db_results := db_results d @ [\<lparr>rs_id = rid, rs_payload = env, rs_size_bytes = m,
        rs_submitted_at = now\<rparr>]\<rparr>"
    using insert_result_Inr [OF stored(7)] by blast
  have "find (\<lambda>r. rs_id r = rid) (db_results d) = None" using new by (auto simp: find_None_iff)
  then have r: "find_result e rid = Some \<lparr>rs_id = rid, rs_payload = env, rs_size_bytes = m, rs_submitted_at = now\<rparr>"
    by (simp add: stored(8) d' find_result_def find_snoc)
  have u: "find_task e i = Some (complete_stamp rid now t)" using stored(1) by (simp add: stored(8) d' find_task_set_task)
  moreover have "complete_task rp env w rid' aid' later e = Inr (DUPLICATE, e)"
    using u r stored_token_envelope [OF assms(2)]
    by (simp add: complete_task_at [OF assms(2)] complete_locked_terminal terminal_result_outcome_def
        envelope_for_get [OF assms(2)])
  ultimately show ?thesis by (simp add: stored(8) d')
qed auto

text \<open>
  C37: The chaos harness can fail a healthy run. An injection may pick a task whose first
  submission is still unanswered. The coordinator then accepts the original, refuses the
  copy as a duplicate and stores one result; but the answers are matched by task id, so
  the answer to the original is booked as the verdict on the injection, and the run exits
  with 1 for a double completion that never happened.
\<close>

theorem original_answer_fails_the_run:
  assumes "db_ok d" and "envelope_for env i n epoch token"
    and "complete_task rp env w rid aid now d = Inr (TRANSITIONED, e)"
    and "si_linked v" "uuid_str i \<notin> set (si_awaiting v)"
    and "resubmit True (uuid_str i) raw v = (sent, frames, v1)"
    and "v2 = sim_result_ack rp (result_ack (uuid_str i) TRANSITIONED) v1"
    and "v3 = sim_result_ack rp (result_ack (uuid_str i) DUPLICATE) v2" "v3 \<in> set ws"
  shows "sent \<and> complete_task rp env w rid' aid' later e = Inr (DUPLICATE, e)
    \<and> length (db_results e) = Suc (length (db_results d))
    \<and> si_injections v3 = si_injections v @ [(uuid_str i, ''transitioned'', True)]
    \<and> exit_code (chaos_checks accepted requested rows ws ch converged) = 1"
proof -
  note ne = uuid_str_nonempty [of i]
  have v1: "sent" "v1 = v\<lparr>si_awaiting := set_add (uuid_str i) (si_awaiting v)\<rparr>"
    using assms(4,6) by (auto simp: resubmit_def sim_send_def)
  have v2: "si_injections v2 = si_injections v @ [(uuid_str i, ''transitioned'', True)]"
      "uuid_str i \<notin> set (si_awaiting v2)"
    using ne by (simp_all add: assms(7) v1(2) ack_read Let_def set_add_def outcome_text_def)
  have v3: "si_injections v3 = si_injections v2" using v2(2) ne by (simp add: assms(8) ack_read Let_def)
  have "(uuid_str i, ''transitioned'', True) \<in> set (all_injections ws)"
    using assms(9) by (force simp: all_injections_def v2(1) v3)
  then have "\<not> (\<forall>(_, outcome, _) \<in> set (all_injections ws). outcome \<noteq> ''transitioned'')" by blast
  then have "exit_code (chaos_checks accepted requested rows ws ch converged) \<noteq> 0"
    unfolding exit_code_green chaos_checks_def evaluate_def by simp
  then have "exit_code (chaos_checks accepted requested rows ws ch converged) = 1" by (simp add: exit_code_def split: if_splits)
  then show ?thesis using accepted_then_duplicate [OF assms(1-3)] v1(1) v2(1) v3 by simp
qed

text \<open>A frozen worker reads nothing, but what it was executing it finishes and submits.\<close>

lemma frozen_worker_submits:
  "si_frozen w \<Longrightarrow> si_linked w \<Longrightarrow> fst (sim_finish True i n (Inr result) duration token now w) =
     [(''task_result'', sim_envelope i n (si_epoch w) token duration result)]"
  by (simp add: sim_finish_def sim_send_def Let_def)


subsection \<open>Both on the running example\<close>

definition ex_sim :: sim where
  "ex_sim = (new_sim 1 [''sleep''])\<lparr>si_linked := True, si_submitted := [(uuid_str 10, ex_envelope 0)]\<rparr>"

lemma ex_finished_duplicate: "complete_task (\<lambda>_. []) (ex_envelope 0) 1 30 31 70 ex_finished = Inr (DUPLICATE, ex_finished)"
  using accepted_then_duplicate [OF reachable_ok [OF ex_started_reachable] ex_envelope_for [OF order_refl]
      ex_complete_started [OF order_refl]] by (simp add: ex_finished_def)

theorem settled_injection_refused_witness:
  "si_injections (sim_result_ack (\<lambda>_. []) (result_ack (uuid_str 10) DUPLICATE) (ex_sim\<lparr>si_awaiting := [uuid_str 10]\<rparr>))
     = [(uuid_str 10, ''duplicate'', True)]"
proof -
  have f: "find_task ex_finished 10 = Some ex_finished_task" by (simp add: find_task_def ex_finished_tasks ex_finished_sel)
  have "tk_status ex_finished_task \<in> TERMINAL_STATES" by (simp add: ex_finished_sel)
  from settled_injection_refused [OF ex_finished_reachable f this rtranclp.rtrancl_refl ex_envelope_for [OF order_refl]
      ex_finished_duplicate _ refl, of "ex_sim\<lparr>si_awaiting := [uuid_str 10]\<rparr>"]
  show ?thesis by (simp add: outcome_text_def ex_sim_def new_sim_def)
qed

theorem original_answer_fails_the_run_witness:
  "exit_code (chaos_checks 1 1 None [sim_result_ack (\<lambda>_. []) (result_ack (uuid_str 10) DUPLICATE)
     (sim_result_ack (\<lambda>_. []) (result_ack (uuid_str 10) TRANSITIONED)
       (snd (snd (resubmit True (uuid_str 10) (ex_envelope 0) ex_sim))))] new_chaos None) = 1"
proof -
  obtain sent frames v1 where r: "resubmit True (uuid_str 10) (ex_envelope 0) ex_sim = (sent, frames, v1)"
    by (metis surj_pair)
  have "si_linked ex_sim" "uuid_str 10 \<notin> set (si_awaiting ex_sim)" by (simp_all add: ex_sim_def new_sim_def)
  from original_answer_fails_the_run [OF reachable_ok [OF ex_started_reachable] ex_envelope_for [OF order_refl]
      ex_complete_started [OF order_refl] this r refl refl]
  show ?thesis unfolding r snd_conv by simp
qed

subsection \<open>The simulated worker\<close>

definition sim_books :: "sim \<Rightarrow> bool" where
  "sim_books w \<longleftrightarrow> (\<forall>i env. map_of (si_pending w) i = Some env \<longrightarrow> map_of (si_submitted w) i = Some env)
     \<and> set (si_awaiting w) \<subseteq> fst ` set (si_submitted w) \<and> fst ` set (si_submitted w) \<subseteq> set (si_received w)
     \<and> set (si_live w) \<union> set (si_unwinding w) \<subseteq> set (si_received w)"

definition sim_slots_ok :: "sim \<Rightarrow> bool" where
  "sim_slots_ok w \<longleftrightarrow> 0 \<le> si_slots w
     \<and> si_slots w + int (length (si_live w)) + int (length (si_unwinding w)) \<le> si_max w
     \<and> distinct (si_running w) \<and> set (si_running w) \<subseteq> set (si_live w) \<union> set (si_unwinding w)"

definition sim_sessions_ok :: "sim \<Rightarrow> bool" where
  "sim_sessions_ok w \<longleftrightarrow> si_registrations w = (if si_identity w = None then 0 else 1)
     \<and> (si_phase w = Unregistered \<longrightarrow> si_identity w = None \<and> si_sessions w = 0 \<and> si_reconnects w = 0)
     \<and> (si_phase w = Connecting \<longrightarrow> si_sessions w \<le> si_reconnects w) \<and> si_sessions w \<le> Suc (si_reconnects w)
     \<and> (si_identity w = None \<longrightarrow> si_sessions w = 0 \<and> si_phase w \<in> {Unregistered, Ended})
     \<and> (0 < si_sessions w \<longrightarrow> si_ready w)"

definition sim_ok :: "sim \<Rightarrow> bool" where
  "sim_ok w \<longleftrightarrow> sim_books w \<and> sim_slots_ok w \<and> sim_sessions_ok w"

lemmas sim_ok_defs = sim_ok_def sim_books_def sim_slots_ok_def sim_sessions_ok_def

lemma new_sim_ok: "0 \<le> mx \<Longrightarrow> sim_ok (new_sim mx types)"
  by (simp add: sim_ok_defs new_sim_def)

text \<open>Each part depends on its own fields only.\<close>

lemma books_frame [simp]:
  "sim_books (w\<lparr>si_phase := x_phase\<rparr>) = sim_books w" "sim_books (w\<lparr>si_ready := x_ready\<rparr>) = sim_books w"
  "sim_books (w\<lparr>si_failed := x_failed\<rparr>) = sim_books w" "sim_books (w\<lparr>si_errored := x_errored\<rparr>) = sim_books w"
  "sim_books (w\<lparr>si_registrations := x_registrations\<rparr>) = sim_books w" "sim_books (w\<lparr>si_reconnects := x_reconnects\<rparr>) = sim_books w"
  "sim_books (w\<lparr>si_sessions := x_sessions\<rparr>) = sim_books w" "sim_books (w\<lparr>si_reconnect_seconds := x_reconnect_seconds\<rparr>) = sim_books w"
  "sim_books (w\<lparr>si_disconnected_at := x_disconnected_at\<rparr>) = sim_books w" "sim_books (w\<lparr>si_completed := x_completed\<rparr>) = sim_books w"
  "sim_books (w\<lparr>si_refused := x_refused\<rparr>) = sim_books w" "sim_books (w\<lparr>si_sent_at := x_sent_at\<rparr>) = sim_books w"
  "sim_books (w\<lparr>si_outcomes := x_outcomes\<rparr>) = sim_books w" "sim_books (w\<lparr>si_assignments := x_assignments\<rparr>) = sim_books w"
  "sim_books (w\<lparr>si_frozen := x_frozen\<rparr>) = sim_books w" "sim_books (w\<lparr>si_kills := x_kills\<rparr>) = sim_books w"
  "sim_books (w\<lparr>si_injections := x_injections\<rparr>) = sim_books w" "sim_books (w\<lparr>si_linked := x_linked\<rparr>) = sim_books w"
  "sim_books (w\<lparr>si_epoch := x_epoch\<rparr>) = sim_books w" "sim_books (w\<lparr>si_failures := x_failures\<rparr>) = sim_books w"
  "sim_books (w\<lparr>si_identity := x_identity\<rparr>) = sim_books w" "sim_books (w\<lparr>si_slots := x_slots\<rparr>) = sim_books w"
  "sim_books (w\<lparr>si_running := x_running\<rparr>) = sim_books w"
  by (simp_all add: sim_books_def)

lemma slots_frame [simp]:
  "sim_slots_ok (w\<lparr>si_phase := x_phase\<rparr>) = sim_slots_ok w" "sim_slots_ok (w\<lparr>si_ready := x_ready\<rparr>) = sim_slots_ok w"
  "sim_slots_ok (w\<lparr>si_failed := x_failed\<rparr>) = sim_slots_ok w" "sim_slots_ok (w\<lparr>si_errored := x_errored\<rparr>) = sim_slots_ok w"
  "sim_slots_ok (w\<lparr>si_registrations := x_registrations\<rparr>) = sim_slots_ok w" "sim_slots_ok (w\<lparr>si_reconnects := x_reconnects\<rparr>) = sim_slots_ok w"
  "sim_slots_ok (w\<lparr>si_sessions := x_sessions\<rparr>) = sim_slots_ok w" "sim_slots_ok (w\<lparr>si_reconnect_seconds := x_reconnect_seconds\<rparr>) = sim_slots_ok w"
  "sim_slots_ok (w\<lparr>si_disconnected_at := x_disconnected_at\<rparr>) = sim_slots_ok w" "sim_slots_ok (w\<lparr>si_completed := x_completed\<rparr>) = sim_slots_ok w"
  "sim_slots_ok (w\<lparr>si_refused := x_refused\<rparr>) = sim_slots_ok w" "sim_slots_ok (w\<lparr>si_sent_at := x_sent_at\<rparr>) = sim_slots_ok w"
  "sim_slots_ok (w\<lparr>si_outcomes := x_outcomes\<rparr>) = sim_slots_ok w" "sim_slots_ok (w\<lparr>si_assignments := x_assignments\<rparr>) = sim_slots_ok w"
  "sim_slots_ok (w\<lparr>si_frozen := x_frozen\<rparr>) = sim_slots_ok w" "sim_slots_ok (w\<lparr>si_kills := x_kills\<rparr>) = sim_slots_ok w"
  "sim_slots_ok (w\<lparr>si_injections := x_injections\<rparr>) = sim_slots_ok w" "sim_slots_ok (w\<lparr>si_linked := x_linked\<rparr>) = sim_slots_ok w"
  "sim_slots_ok (w\<lparr>si_epoch := x_epoch\<rparr>) = sim_slots_ok w" "sim_slots_ok (w\<lparr>si_failures := x_failures\<rparr>) = sim_slots_ok w"
  "sim_slots_ok (w\<lparr>si_identity := x_identity\<rparr>) = sim_slots_ok w" "sim_slots_ok (w\<lparr>si_received := x_received\<rparr>) = sim_slots_ok w"
  "sim_slots_ok (w\<lparr>si_pending := x_pending\<rparr>) = sim_slots_ok w" "sim_slots_ok (w\<lparr>si_submitted := x_submitted\<rparr>) = sim_slots_ok w"
  "sim_slots_ok (w\<lparr>si_awaiting := x_awaiting\<rparr>) = sim_slots_ok w"
  by (simp_all add: sim_slots_ok_def)

lemma sessions_frame [simp]:
  "sim_sessions_ok (w\<lparr>si_failed := x_failed\<rparr>) = sim_sessions_ok w" "sim_sessions_ok (w\<lparr>si_errored := x_errored\<rparr>) = sim_sessions_ok w"
  "sim_sessions_ok (w\<lparr>si_reconnect_seconds := x_reconnect_seconds\<rparr>) = sim_sessions_ok w" "sim_sessions_ok (w\<lparr>si_disconnected_at := x_disconnected_at\<rparr>) = sim_sessions_ok w"
  "sim_sessions_ok (w\<lparr>si_completed := x_completed\<rparr>) = sim_sessions_ok w" "sim_sessions_ok (w\<lparr>si_refused := x_refused\<rparr>) = sim_sessions_ok w"
  "sim_sessions_ok (w\<lparr>si_sent_at := x_sent_at\<rparr>) = sim_sessions_ok w" "sim_sessions_ok (w\<lparr>si_outcomes := x_outcomes\<rparr>) = sim_sessions_ok w"
  "sim_sessions_ok (w\<lparr>si_assignments := x_assignments\<rparr>) = sim_sessions_ok w" "sim_sessions_ok (w\<lparr>si_frozen := x_frozen\<rparr>) = sim_sessions_ok w"
  "sim_sessions_ok (w\<lparr>si_kills := x_kills\<rparr>) = sim_sessions_ok w" "sim_sessions_ok (w\<lparr>si_injections := x_injections\<rparr>) = sim_sessions_ok w"
  "sim_sessions_ok (w\<lparr>si_linked := x_linked\<rparr>) = sim_sessions_ok w" "sim_sessions_ok (w\<lparr>si_epoch := x_epoch\<rparr>) = sim_sessions_ok w"
  "sim_sessions_ok (w\<lparr>si_failures := x_failures\<rparr>) = sim_sessions_ok w" "sim_sessions_ok (w\<lparr>si_slots := x_slots\<rparr>) = sim_sessions_ok w"
  "sim_sessions_ok (w\<lparr>si_live := x_live\<rparr>) = sim_sessions_ok w" "sim_sessions_ok (w\<lparr>si_unwinding := x_unwinding\<rparr>) = sim_sessions_ok w"
  "sim_sessions_ok (w\<lparr>si_running := x_running\<rparr>) = sim_sessions_ok w" "sim_sessions_ok (w\<lparr>si_received := x_received\<rparr>) = sim_sessions_ok w"
  "sim_sessions_ok (w\<lparr>si_pending := x_pending\<rparr>) = sim_sessions_ok w" "sim_sessions_ok (w\<lparr>si_submitted := x_submitted\<rparr>) = sim_sessions_ok w"
  "sim_sessions_ok (w\<lparr>si_awaiting := x_awaiting\<rparr>) = sim_sessions_ok w"
  by (simp_all add: sim_sessions_ok_def)

lemma sim_register_ok: "si_phase w = Unregistered \<Longrightarrow> sim_ok w \<Longrightarrow> sim_ok (sim_register r w)"
  by (simp add: sim_register_def sim_ok_def split: sum.splits option.splits prod.splits) (simp add: sim_sessions_ok_def)

lemma sim_handshake_ok: "si_phase w = Connecting \<Longrightarrow> sim_ok w \<Longrightarrow> sim_handshake ack now w = (b, v) \<Longrightarrow>
    sim_ok v \<and> (\<not> b \<longrightarrow> si_phase v = Connecting)"
  by (clarsimp simp: sim_handshake_def Let_def sim_ok_def split: sum.splits if_splits) (simp add: sim_sessions_ok_def)

lemma sim_turn_over_ok: "si_phase w = Connecting \<or> si_phase w = InSession \<Longrightarrow> sim_ok w \<Longrightarrow> sim_ok (sim_turn_over raised stopped w)"
  by (simp add: sim_turn_over_def Let_def sim_ok_def) (auto simp: sim_sessions_ok_def)

lemma sim_disconnected_ok: "sim_ok w \<Longrightarrow> sim_ok (sim_disconnected now w)"
  by (simp add: sim_disconnected_def sim_ok_def)

lemma sim_assign_ok:
  assumes "sim_ok w"
  shows "sim_ok (snd (sim_assign rp up payload w))"
  using assms
  by (simp add: sim_assign_def Let_def sim_ok_def split: sum.splits)
    (auto simp: sim_books_def sim_slots_ok_def set_add_def)

lemma map_of_delete_Some: "map_of (AList.delete i d) j = Some x \<longleftrightarrow> j \<noteq> i \<and> map_of d j = Some x"
  by (simp add: AList.delete_conv' del: fun_upd_apply) (simp add: fun_upd_def)

lemma sim_result_ack_ok:
  assumes "sim_ok w"
  shows "sim_ok (sim_result_ack rp payload w)"
  using assms
  by (simp add: sim_result_ack_def Let_def sim_ok_def) (auto simp: sim_books_def map_of_delete_Some)

lemma sim_receive_cases:
  assumes "sim_receive rp up message w = Inr (frames, v)"
  obtains "v = w" | p where "v = snd (sim_assign rp up p w)" | p where "v = sim_result_ack rp p w"
proof -
  define kind where "kind = dict_get message ''message_type''"
  consider "kind = PStr ''ping''" | "kind = PStr ''task_assign''" | "kind = PStr ''task_result_ack''"
    | "kind \<notin> {PStr ''ping'', PStr ''task_assign'', PStr ''task_result_ack''}" by blast
  then show thesis
  proof cases
    case 1
    with assms have "v = w" by (simp add: sim_receive_def kind_def)
    then show thesis by (rule that(1))
  next
    case 2
    with assms have r: "(case payload_of message of Inl _ \<Rightarrow> ([], w) | Inr payload \<Rightarrow> sim_assign rp up payload w) = (frames, v)"
      by (simp add: sim_receive_def kind_def)
    show thesis
    proof (cases "payload_of message")
      case (Inl e)
      with r that(1) show thesis by simp
    next
      case (Inr p)
      with r have "v = snd (sim_assign rp up p w)" by simp
      then show thesis by (rule that(2))
    qed
  next
    case 3
    then have r: "bind_exn (payload_of message) (\<lambda>payload. Inr ([], sim_result_ack rp payload w)) = Inr (frames, v)"
      using assms by (simp add: sim_receive_def kind_def)
    then obtain p where "payload_of message = Inr p" by (cases "payload_of message") (simp_all add: bind_exn_def)
    with r have "v = sim_result_ack rp p w" by (simp add: bind_exn_def)
    then show thesis by (rule that(3))
  next
    case 4
    with assms have "v = w" by (simp add: sim_receive_def kind_def)
    then show thesis by (rule that(1))
  qed
qed

lemma sim_receive_ok: "sim_ok w \<Longrightarrow> sim_receive rp up message w = Inr (frames, v) \<Longrightarrow> sim_ok v"
  by (erule sim_receive_cases) (simp_all add: sim_assign_ok sim_result_ack_ok)

lemma sim_release_ok:
  assumes "sim_books w" "sim_sessions_ok w" "0 \<le> si_slots w"
    "si_slots w + 1 + int (length (si_live w)) + int (length (si_unwinding w)) \<le> si_max w" "distinct (si_running w)"
    "set (si_running w) \<subseteq> set (si_live w) \<union> set (si_unwinding w) \<union> {i}"
  shows "sim_ok (sim_release i w)"
  using assms by (simp add: sim_release_def sim_ok_def) (auto simp: sim_slots_ok_def distinct_removeAll)

lemma remove1_room: "i \<in> set xs \<Longrightarrow> 1 + int (length (remove1 i xs)) = int (length xs)"
  by (cases "length xs") (auto simp: length_remove1)

lemma sim_finish_ok:
  assumes i: "i \<in> set (si_live w)" and ok: "sim_ok w" and v: "sim_finish up i n out duration token now w = (frames, v)"
  shows "sim_ok v"
proof -
  have room: "1 + int (length (remove1 i (si_live w))) = int (length (si_live w))" by (rule remove1_room [OF i])
  have books: "sim_books w" and sessions: "sim_sessions_ok w" and slots: "sim_slots_ok w" using ok by (simp_all add: sim_ok_def)
  have kept: "set (remove1 i (si_live w)) \<subseteq> set (si_live w)" by (rule set_remove1_subset)
  have run: "set (si_running w) \<subseteq> set (remove1 i (si_live w)) \<union> set (si_unwinding w) \<union> {i}"
    using slots by (auto simp: sim_slots_ok_def)
  have fits: "0 \<le> si_slots w" "distinct (si_running w)"
    "si_slots w + 1 + int (length (remove1 i (si_live w))) + int (length (si_unwinding w)) \<le> si_max w"
    using slots room by (simp_all add: sim_slots_ok_def)
  show ?thesis
  proof (cases out)
    case (Inl e)
    then have v: "v = sim_release i (w\<lparr>si_live := remove1 i (si_live w)\<rparr>)" using v by (simp add: sim_finish_def Let_def)
    have "sim_books (w\<lparr>si_live := remove1 i (si_live w)\<rparr>)" using books kept by (auto simp: sim_books_def)
    then show ?thesis unfolding v by (rule sim_release_ok) (use sessions fits run in simp_all)
  next
    case (Inr x)
    define env where "env = sim_envelope i n (si_epoch w) token duration x"
    define u where "u = w\<lparr>si_live := remove1 i (si_live w), si_pending := AList.update i env (si_pending w),
        si_sent_at := AList.update i now (si_sent_at w), si_submitted := AList.update i env (si_submitted w)\<rparr>"
    have u: "si_live u = remove1 i (si_live w)" "si_unwinding u = si_unwinding w" "si_slots u = si_slots w"
        "si_max u = si_max w" "si_running u = si_running w" "sim_sessions_ok u = sim_sessions_ok w"
      by (simp_all add: u_def sim_sessions_ok_def)
    have v: "v = sim_release i u" using v Inr by (simp add: sim_finish_def Let_def env_def u_def)
    have "map_of (si_pending u) j = Some e \<longrightarrow> map_of (si_submitted u) j = Some e" for j e
      using books by (simp add: u_def update_conv' sim_books_def)
    moreover have "fst ` set (si_submitted u) = insert i (fst ` set (si_submitted w))" by (simp add: u_def dom_update)
    moreover have "si_awaiting u = si_awaiting w" "si_received u = si_received w" by (simp_all add: u_def)
    ultimately have "sim_books u" using books kept i by (auto simp: sim_books_def u)
    then show ?thesis unfolding v by (rule sim_release_ok) (use sessions fits run in \<open>simp_all add: u\<close>)
  qed
qed

lemma sim_unwind_ok:
  assumes i: "i \<in> set (si_unwinding w)" and ok: "sim_ok w"
  shows "sim_ok (sim_unwind i w)"
proof -
  have room: "1 + int (length (remove1 i (si_unwinding w))) = int (length (si_unwinding w))" by (rule remove1_room [OF i])
  have kept: "set (remove1 i (si_unwinding w)) \<subseteq> set (si_unwinding w)" by (rule set_remove1_subset)
  have "sim_books (w\<lparr>si_unwinding := remove1 i (si_unwinding w)\<rparr>)"
    using ok kept by (auto simp: sim_ok_def sim_books_def)
  then show ?thesis
    unfolding sim_unwind_def by (rule sim_release_ok) (use ok room in \<open>auto simp: sim_ok_def sim_slots_ok_def\<close>)
qed

lemma kill_session_ok: "sim_ok w \<Longrightarrow> sim_ok (snd (kill_session w))"
  by (simp add: kill_session_def sim_ok_def) (auto simp: sim_books_def sim_slots_ok_def)

lemma resubmit_ok:
  assumes "sim_ok w" "map_of (si_submitted w) i = Some env"
  shows "sim_ok (snd (snd (resubmit up i env' w)))"
proof -
  have "i \<in> fst ` set (si_submitted w)" using assms(2) by (force dest: map_of_SomeD)
  with assms(1) have "sim_books (w\<lparr>si_awaiting := set_add i (si_awaiting w)\<rparr>)"
      "sim_books (w\<lparr>si_awaiting := removeAll i (si_awaiting w)\<rparr>)"
    by (auto simp: sim_ok_def sim_books_def set_add_def)
  then show ?thesis using assms(1) by (simp add: resubmit_def sim_send_def sim_ok_def)
qed

lemma cancelled_ok: "i \<in> set (si_live w) \<Longrightarrow> sim_ok w \<Longrightarrow>
    sim_ok (w\<lparr>si_live := remove1 i (si_live w), si_unwinding := si_unwinding w @ [i]\<rparr>)"
proof -
  assume i: "i \<in> set (si_live w)" and ok: "sim_ok w"
  have room: "1 + int (length (remove1 i (si_live w))) = int (length (si_live w))" by (rule remove1_room [OF i])
  have kept: "set (remove1 i (si_live w)) \<subseteq> set (si_live w)" by (rule set_remove1_subset)
  have "sim_books (w\<lparr>si_live := remove1 i (si_live w), si_unwinding := si_unwinding w @ [i]\<rparr>)"
    using ok kept i by (auto simp: sim_ok_def sim_books_def)
  moreover have "sim_slots_ok (w\<lparr>si_live := remove1 i (si_live w), si_unwinding := si_unwinding w @ [i]\<rparr>)"
    using ok room by (auto simp: sim_ok_def sim_slots_ok_def)
  ultimately show ?thesis using ok by (simp add: sim_ok_def)
qed

lemma sim_step_ok:
  assumes "sim_step w v" "sim_ok w"
  shows "sim_ok v"
  using assms(1)
proof cases
  case (not_greeted ack now u stopped)
  with sim_handshake_ok [OF not_greeted(2) assms(2) not_greeted(3)] show ?thesis by (simp add: sim_turn_over_ok)
next
  case (killed b)
  with kill_session_ok [OF assms(2)] show ?thesis by simp
next
  case (injected i env up env' b frames)
  with resubmit_ok [OF assms(2), of i env up env'] show ?thesis by simp
next
  case (stops)
  with assms(2) show ?thesis by (simp add: sim_ok_def) (auto simp: sim_sessions_ok_def)
next
  case (session_ends raised stopped now)
  with sim_disconnected_ok [OF assms(2), of now] show ?thesis by (simp add: sim_turn_over_ok sim_disconnected_def)
next
  case (freezes f)
  with assms(2) show ?thesis by (simp add: sim_ok_def)
next
  case (retries up now frames)
  then have "v = snd (sim_retry up now w)" by simp
  with assms(2) show ?thesis by (simp add: sim_retry_def Let_def sim_ok_def)
qed (use assms(2) in \<open>auto simp: sim_register_ok sim_turn_over_ok sim_unwind_ok cancelled_ok
      dest: sim_handshake_ok sim_receive_ok sim_finish_ok\<close>)

lemma sim_step_constants: "sim_step w v \<Longrightarrow> si_max v = si_max w \<and> si_types v = si_types w"
  by (erule sim_stepE)
    (auto simp: sim_register_def sim_handshake_def sim_turn_over_def sim_disconnected_def sim_finish_def sim_release_def
      sim_unwind_def sim_retry_def kill_session_def resubmit_def sim_send_def Let_def sim_assign_def sim_result_ack_def
      elim!: sim_receive_cases split: sum.splits option.splits prod.splits if_splits)


lemma sim_reachable_ok: "sim_step\<^sup>*\<^sup>* v w \<Longrightarrow> sim_ok v \<Longrightarrow> sim_ok w \<and> si_max w = si_max v \<and> si_types w = si_types v"
  by (induction rule: rtranclp_induct) (auto dest: sim_step_ok sim_step_constants)

text \<open>
  C38: The simulated worker behaves like a worker in every interleaving of assignments, answers,
  retries, freezes, kills, injections and reconnects: it registers at most once, holds one
  session more than it made reconnects at most, never executes more than its slots,
  declares in its hello no more running tasks than that, waits only for results it submitted,
  and injects only under the identifiers of tasks it was given and had submitted a result for.
\<close>

theorem sim_worker_keeps_its_books:
  assumes "0 \<le> mx" and "sim_reachable mx types w"
  shows "si_registrations w \<le> 1 \<and> si_sessions w \<le> Suc (si_reconnects w)
    \<and> int (length (si_live w)) + int (length (si_unwinding w)) \<le> mx
    \<and> dict_get (sim_hello w) ''max_concurrent'' = PInt mx
    \<and> (\<exists>k p. dict_get (sim_hello w) ''tasks_in_flight'' = PInt (k + p) \<and> k \<le> mx \<and> p = int (length (si_pending w)))
    \<and> (\<forall>i env. map_of (si_pending w) i = Some env \<longrightarrow> map_of (si_submitted w) i = Some env)
    \<and> set (si_awaiting w) \<subseteq> fst ` set (si_submitted w) \<and> fst ` set (si_submitted w) \<subseteq> set (si_received w)"
proof -
  have ok: "sim_ok w" and mx: "si_max w = mx"
    using sim_reachable_ok [of "new_sim mx types" w] assms by (simp_all add: sim_reachable_def new_sim_ok) (simp add: new_sim_def)
  have "length (si_running w) = card (set (si_running w))"
    using ok by (simp add: sim_ok_def sim_slots_ok_def distinct_card)
  also have "\<dots> \<le> card (set (si_live w @ si_unwinding w))"
    by (rule card_mono) (use ok in \<open>auto simp: sim_ok_def sim_slots_ok_def\<close>)
  also have "\<dots> \<le> length (si_live w) + length (si_unwinding w)"
    using card_length [of "si_live w @ si_unwinding w"] by simp
  finally have run: "int (length (si_running w)) \<le> mx"
    using ok mx by (simp add: sim_ok_def sim_slots_ok_def)
  have hello: "dict_get (sim_hello w) ''tasks_in_flight'' = PInt (int (length (si_running w)) + int (length (si_pending w)))"
      "dict_get (sim_hello w) ''max_concurrent'' = PInt mx"
    by (simp_all add: sim_hello_def dict_get_def mx)
  have "si_registrations w \<le> 1" "si_sessions w \<le> Suc (si_reconnects w)"
    using ok by (simp_all add: sim_ok_def sim_sessions_ok_def)
  moreover have "int (length (si_live w)) + int (length (si_unwinding w)) \<le> mx"
    using ok mx by (simp add: sim_ok_def sim_slots_ok_def)
  moreover have "\<exists>k p. dict_get (sim_hello w) ''tasks_in_flight'' = PInt (k + p) \<and> k \<le> mx \<and> p = int (length (si_pending w))"
    using hello(1) run by blast
  ultimately show ?thesis using ok hello(2) by (simp add: sim_ok_def sim_books_def)
qed

text \<open>A worker that registered, got a session and was killed while it executed one task.\<close>

definition ex_sim_session :: sim where
  "ex_sim_session = snd (sim_handshake [(''message_type'', PStr ''hello_ack''), (''session_epoch'', PInt 3)] 5
     (sim_register (Inr (201, [(''worker_id'', PStr ''w''), (''worker_credential'', PStr ''c'')])) (new_sim 1 [''sleep''])))"

definition ex_killed :: sim where
  "ex_killed = snd (kill_session (snd (sim_assign (\<lambda>_. []) True
     [(''task_id'', PStr ''t''), (''task_type'', PStr ''sleep''), (''attempt'', PInt 0)] ex_sim_session)))"

lemma ex_killed_reachable: "sim_reachable 1 [''sleep''] ex_killed"
proof -
  define w0 where "w0 = sim_register (Inr (201, [(''worker_id'', PStr ''w''), (''worker_credential'', PStr ''c'')])) (new_sim 1 [''sleep''])"
  have 1: "sim_step (new_sim 1 [''sleep'']) w0"
    unfolding w0_def by (rule registers) (simp add: new_sim_def)
  have "si_phase w0 = Connecting" by (simp add: w0_def sim_register_def)
  moreover have "sim_handshake [(''message_type'', PStr ''hello_ack''), (''session_epoch'', PInt 3)] 5 w0 = (True, ex_sim_session)"
    by (simp add: ex_sim_session_def w0_def [symmetric] sim_handshake_def Let_def dict_get_def py_or_def)
  ultimately have 2: "sim_step w0 ex_sim_session" by (rule greets)
  define p where "p = [(''task_id'', PStr ''t''), (''task_type'', PStr ''sleep''), (''attempt'', PInt 0)]"
  have "si_phase ex_sim_session = InSession" "\<not> si_frozen ex_sim_session"
    by (simp_all add: ex_sim_session_def sim_handshake_def sim_register_def Let_def dict_get_def py_or_def new_sim_def)
  moreover have "sim_receive (\<lambda>_. []) True [(''message_type'', PStr ''task_assign''), (''payload'', PDict p)] ex_sim_session
      = Inr (fst (sim_assign (\<lambda>_. []) True p ex_sim_session), snd (sim_assign (\<lambda>_. []) True p ex_sim_session))"
    by (simp add: sim_receive_def payload_of_def dict_get_def py_or_def p_def)
  ultimately have 3: "sim_step ex_sim_session (snd (sim_assign (\<lambda>_. []) True p ex_sim_session))" by (rule receives)
  have 4: "sim_step (snd (sim_assign (\<lambda>_. []) True p ex_sim_session)) ex_killed"
    by (rule killed [of _ "fst (kill_session (snd (sim_assign (\<lambda>_. []) True p ex_sim_session)))"]) (simp add: ex_killed_def p_def)
  show ?thesis
    unfolding sim_reachable_def using 1 2 3 4 by (meson converse_rtranclp_into_rtranclp rtranclp.rtrancl_refl)
qed

theorem sim_worker_keeps_its_books_witness:
  "si_registrations ex_killed = 1 \<and> si_unwinding ex_killed = [''t''] \<and> int (length (si_unwinding ex_killed)) \<le> 1"
proof -
  have "si_registrations ex_killed = 1" "si_unwinding ex_killed = [''t'']"
    by (simp_all add: ex_killed_def kill_session_def sim_assign_def ex_sim_session_def sim_handshake_def sim_register_def Let_def
        dict_get_def py_or_def new_sim_def get_str_def)
  with sim_worker_keeps_its_books [OF _ ex_killed_reachable] show ?thesis by simp
qed

subsection \<open>The percentile\<close>

lemma sorted_below:
  "sorted xs \<Longrightarrow> k < length xs \<Longrightarrow> Suc k \<le> length (filter (\<lambda>v. v \<le> xs ! k) xs) \<and> length (filter (\<lambda>v. v < xs ! k) xs) \<le> k"
  for xs :: "'a::linorder list"
proof -
  assume s: "sorted xs" and k: "k < length xs"
  have "x \<le> xs ! k" if x: "x \<in> set (take (Suc k) xs)" for x
  proof -
    obtain i where "i < length (take (Suc k) xs)" "x = take (Suc k) xs ! i" using x by (auto simp: in_set_conv_nth)
    then show ?thesis using sorted_nth_mono [OF s, of i k] k by simp
  qed
  then have "filter (\<lambda>v. v \<le> xs ! k) (take (Suc k) xs) = take (Suc k) xs" by (simp add: filter_id_conv)
  moreover have "filter (\<lambda>v. v < xs ! k) (drop k xs) = []"
    using k by (auto simp: filter_empty_conv in_set_conv_nth not_less intro!: sorted_nth_mono [OF s])
  moreover have "filter p xs = filter p (take m xs) @ filter p (drop m xs)" for p m
    by (metis append_take_drop_id filter_append)
  ultimately have "filter (\<lambda>v. v \<le> xs ! k) xs = take (Suc k) xs @ filter (\<lambda>v. v \<le> xs ! k) (drop (Suc k) xs)"
    "filter (\<lambda>v. v < xs ! k) xs = filter (\<lambda>v. v < xs ! k) (take k xs)"
    by (metis, metis append_Nil2)
  moreover have "length (filter (\<lambda>v. v < xs ! k) (take k xs)) \<le> k"
    by (metis length_filter_le length_take min.boundedE)
  ultimately show ?thesis using k by simp
qed

text \<open>
  The percentile of the report is the nearest rank: it is a value that was measured
  (rounded to four places), at least the asked fraction of the measurements is at or below
  it, and less than that fraction is strictly below it.
\<close>

theorem percentile_nearest_rank:
  assumes "values \<noteq> []" "0 < fraction" "fraction \<le> 1"
  shows "\<exists>x \<in> set values. percentile values fraction = Some (round4 x)
    \<and> fraction * of_nat (length values) \<le> of_nat (length (filter (\<lambda>v. v \<le> x) values))
    \<and> of_nat (length (filter (\<lambda>v. v < x) values)) < fraction * of_nat (length values)"
proof -
  let ?n = "length values" and ?xs = "sort values"
  define r where "r = \<lceil>fraction * of_nat ?n\<rceil>"
  have n: "0 < ?n" using assms(1) by simp
  have "0 < fraction * of_nat ?n" using assms(2) n by simp
  then have r1: "1 \<le> r" unfolding r_def by linarith
  have "fraction * of_nat ?n \<le> of_nat ?n" using assms(2,3) mult_right_mono [of fraction 1 "rat_of_nat ?n"] by simp
  then have rn: "r \<le> int ?n" unfolding r_def by (simp add: ceiling_le_iff)
  have rank: "percentile_rank ?n fraction = r" using r1 rn by (simp add: percentile_rank_def r_def)
  let ?k = "nat (r - 1)"
  have k: "?k < length ?xs" using r1 rn by simp
  note b = sorted_below [OF sorted_sort k]
  have same: "length (filter p ?xs) = length (filter p values)" for p by (simp add: filter_sort)
  have "?xs ! ?k \<in> set values" using nth_mem [OF k] by simp
  moreover have "percentile values fraction = Some (round4 (?xs ! ?k))"
    using assms(1) by (simp add: percentile_def rank)
  moreover have "fraction * of_nat ?n \<le> of_nat (length (filter (\<lambda>v. v \<le> ?xs ! ?k) values))"
  proof -
    have "r \<le> int (length (filter (\<lambda>v. v \<le> ?xs ! ?k) values))" using b r1 unfolding same by linarith
    then show ?thesis unfolding r_def by (simp add: ceiling_le_iff)
  qed
  moreover have "of_nat (length (filter (\<lambda>v. v < ?xs ! ?k) values)) < fraction * of_nat ?n"
  proof -
    have "int (length (filter (\<lambda>v. v < ?xs ! ?k) values)) < r" using b r1 unfolding same by linarith
    then show ?thesis unfolding r_def by (simp add: less_ceiling_iff)
  qed
  ultimately show ?thesis by blast
qed

theorem percentile_nearest_rank_witness: "\<exists>x \<in> {3, 1, 2}. percentile [3, 1, 2] (1 / 2) = Some (round4 x)"
  using percentile_nearest_rank [of "[3, 1, 2]" "1 / 2"] by auto

end
