(* ===== verification/Metrics.thy ===== *)
theory Metrics
  imports OperatorApi
begin

text \<open>
  \<open>coordinator/app/metrics.py\<close>: the scrape that recomputes the fleet gauges from the database
  and the registry, and the rule of the latency middleware. The counters the other modules
  increment, and the text format, belong to the Prometheus client.
\<close>

definition ALL_STATUSES :: "string list" where
  "ALL_STATUSES = [''CONNECTING'', ''ONLINE'', ''SUSPECT'', ''OFFLINE'', ''QUARANTINED'']"

record gauges =
  ga_workers :: "(string \<times> nat) list"
  ga_connected :: nat
  ga_database_up :: bool
  ga_redis_up :: bool
  ga_queued :: nat
  ga_overdue :: nat
  ga_waiting :: nat
  ga_separate :: bool

text \<open>
  What a scrape meets: the tables as each of its four statements sees them, the statement
  that raises (4 is the end of the session), if any, and the registry keys the scan yields,
  None when the scan raises.
\<close>

record scrape =
  sp_snap :: "nat \<Rightarrow> db"
  sp_now :: time
  sp_fails :: "nat option"
  sp_keys :: "string list option"

definition ran :: "scrape \<Rightarrow> nat \<Rightarrow> bool" where
  "ran sp k = (case sp_fails sp of None \<Rightarrow> True | Some j \<Rightarrow> k < j)"

definition set_all :: "('k \<times> 'v) list \<Rightarrow> ('k \<times> 'v) list \<Rightarrow> ('k \<times> 'v) list" where
  "set_all kvs m = fold (\<lambda>(k, v). AList.update k v) kvs m"

definition no_workers :: "(string \<times> nat) list" where
  "no_workers = map (\<lambda>s. (s, 0)) ALL_STATUSES"

definition worker_groups :: "db \<Rightarrow> (string \<times> nat) list" where
  "worker_groups d = map (\<lambda>s. (s, length (filter (\<lambda>w. wk_status w = s) (db_workers d))))
     (remdups (map wk_status (db_workers d)))"

definition status_counts :: "scrape \<Rightarrow> (string \<times> nat) list" where
  "status_counts sp = (if ran sp 0 then set_all (worker_groups (sp_snap sp 0)) no_workers else no_workers)"

definition refresh_fleet_gauges :: "scrape \<Rightarrow> gauges \<Rightarrow> gauges" where
  "refresh_fleet_gauges sp g =
     (let g1 = g\<lparr>ga_queued := (if ran sp 1 then queue_depth (sp_snap sp 1) else ga_queued g),
            ga_overdue := (if ran sp 2 then expired_lease_count (sp_now sp) (sp_snap sp 2) else ga_overdue g),
            ga_waiting := (if ran sp 3 then awaiting_retry_count (sp_now sp) (sp_snap sp 3) else ga_waiting g),
            ga_database_up := ran sp 4, ga_workers := set_all (status_counts sp) (ga_workers g)\<rparr>
      in case sp_keys sp of
           Some ks \<Rightarrow> g1\<lparr>ga_connected := length ks, ga_redis_up := True\<rparr>
         | None \<Rightarrow> g1\<lparr>ga_redis_up := False\<rparr>)"

definition metrics_endpoint :: "environ \<Rightarrow> scrape \<Rightarrow> gauges \<Rightarrow> exn + gauges" where
  "metrics_endpoint env sp g = bind_exn (admin_secret_is_separate env)
     (\<lambda>b. Inr (refresh_fleet_gauges sp (g\<lparr>ga_separate := b\<rparr>)))"

text \<open>The latency series of a response: none for an unmatched path or the scrape itself.\<close>

definition latency_labels :: "string \<Rightarrow> string option \<Rightarrow> int \<Rightarrow> (string \<times> string \<times> int) option" where
  "latency_labels verb template status = (case template of
      None \<Rightarrow> None | Some path \<Rightarrow> if path = ''/metrics'' then None else Some (verb, path, status))"

subsection \<open>What a scrape shows\<close>

lemma map_of_set_all:
  "distinct (map fst kvs) \<Longrightarrow> map_of (set_all kvs m) k = (case map_of kvs k of None \<Rightarrow> map_of m k | Some v \<Rightarrow> Some v)"
  unfolding set_all_def
proof (induction kvs arbitrary: m)
  case (Cons p kvs)
  obtain a b where p: "p = (a, b)" by (cases p)
  have "map_of kvs a = None" using Cons.prems by (simp add: p map_of_eq_None_iff)
  with Cons p show ?case by (auto simp: update_conv' split: option.splits)
qed simp

lemma map_of_groups: "map_of (worker_groups d) s = (if s \<in> wk_status ` set (db_workers d)
    then Some (length (filter (\<lambda>w. wk_status w = s) (db_workers d))) else None)"
proof -
  have "map_of (map (\<lambda>x. (x, f x)) xs) s = (if s \<in> set xs then Some (f s) else None)" for f :: "string \<Rightarrow> nat" and xs
    by (induction xs) auto
  then show ?thesis by (simp add: worker_groups_def)
qed

lemma no_workers_of: "s \<in> set ALL_STATUSES \<Longrightarrow> map_of no_workers s = Some 0"
  by (auto simp: no_workers_def ALL_STATUSES_def)

lemma map_of_counts:
  assumes "s \<in> set ALL_STATUSES"
  shows "map_of (status_counts sp) s = Some (if ran sp 0
    then length (filter (\<lambda>w. wk_status w = s) (db_workers (sp_snap sp 0))) else 0)"
proof -
  have "distinct (map fst (worker_groups d))" for d by (simp add: worker_groups_def comp_def)
  moreover have "length (filter (\<lambda>w. wk_status w = s) (db_workers d)) = 0" if "s \<notin> wk_status ` set (db_workers d)" for d
    using that by (auto simp: filter_empty_conv)
  ultimately show ?thesis
    using no_workers_of [OF assms] by (auto simp: status_counts_def map_of_set_all map_of_groups split: option.splits)
qed

lemma distinct_counts: "distinct (map fst (status_counts sp))"
proof -
  have "distinct (map fst (set_all kvs m))" if "distinct (map fst m)" for kvs m :: "(string \<times> nat) list"
    unfolding set_all_def using that by (induction kvs arbitrary: m) (auto simp: distinct_update)
  moreover have "distinct (map fst no_workers)" by (simp add: no_workers_def ALL_STATUSES_def)
  ultimately show ?thesis by (simp add: status_counts_def)
qed

text \<open>
  A scrape that meets no failure shows the tables as they are: every worker status
  with its number of workers, the queue depth, the overdue leases and the tasks that wait
  for their retry. A scrape that cannot reach the database shows every status with no worker
  at all, while the three queue gauges keep the values of an earlier scrape; only
  the dependency gauge tells the two apart.
\<close>

theorem scrape_reports_tables:
  assumes "s \<in> set ALL_STATUSES" and "h = refresh_fleet_gauges sp g"
  shows "(sp_fails sp = None \<longrightarrow> ga_database_up h
      \<and> map_of (ga_workers h) s = Some (length (filter (\<lambda>w. wk_status w = s) (db_workers (sp_snap sp 0))))
      \<and> ga_queued h = queue_depth (sp_snap sp 1) \<and> ga_overdue h = expired_lease_count (sp_now sp) (sp_snap sp 2)
      \<and> ga_waiting h = awaiting_retry_count (sp_now sp) (sp_snap sp 3))
    \<and> (sp_fails sp = Some 0 \<longrightarrow> \<not> ga_database_up h \<and> map_of (ga_workers h) s = Some 0
      \<and> ga_queued h = ga_queued g \<and> ga_overdue h = ga_overdue g \<and> ga_waiting h = ga_waiting g)
    \<and> (sp_keys sp = None \<longrightarrow> \<not> ga_redis_up h \<and> ga_connected h = ga_connected g)"
proof -
  have "map_of (ga_workers h) s = map_of (status_counts sp) s"
    using map_of_counts [OF assms(1), of sp] distinct_counts [of sp]
    by (simp add: assms(2) refresh_fleet_gauges_def Let_def map_of_set_all split: option.splits)
  then show ?thesis
    using map_of_counts [OF assms(1), of sp]
    by (auto simp: assms(2) refresh_fleet_gauges_def Let_def ran_def split: option.splits)
qed

definition ex_gauges :: gauges where
  "ex_gauges = \<lparr>ga_workers = [], ga_connected = 0, ga_database_up = True, ga_redis_up = True, ga_queued = 7, ga_overdue = 0,
     ga_waiting = 0, ga_separate = True\<rparr>"

theorem scrape_reports_tables_witness:
  "ga_queued (refresh_fleet_gauges \<lparr>sp_snap = (\<lambda>_. empty_db), sp_now = 0, sp_fails = Some 0, sp_keys = None\<rparr> ex_gauges) = 7"
  using scrape_reports_tables [OF _ refl, of "''ONLINE''" "\<lparr>sp_snap = (\<lambda>_. empty_db), sp_now = 0, sp_fails = Some 0, sp_keys = None\<rparr>" ex_gauges]
  by (simp add: ALL_STATUSES_def ex_gauges_def)

end
