(* ===== verification/QueueHarness.thy ===== *)
theory QueueHarness
  imports Loadtest
begin

text \<open>
  \<open>scripts/queue_harness.py\<close>: concurrent loops that empty the queue through the claim
  endpoint of the coordinator, what they book, and the verdict over a whole run.
\<close>

subsection \<open>One request\<close>

text \<open>
  What \<open>_request\<close> gives: a JSON object, the \<open>SystemExit\<close> an HTTP error is turned into (with
  its text), or any other exception, which it lets pass (no server, a broken connection, no
  JSON; \<open>.get\<close> on JSON that is no object raises as well).
\<close>

datatype http_reply = Served pydict | HttpFault string | Broken exn

datatype ending = Exit string | Died exn

definition answered :: "http_reply \<Rightarrow> ending + pydict" where
  "answered r = (case r of Served b \<Rightarrow> Inr b | HttpFault m \<Rightarrow> Inl (Exit m) | Broken e \<Rightarrow> Inl (Died e))"

subsection \<open>The single calls\<close>

definition harness_enqueue_body :: "string \<Rightarrow> string \<Rightarrow> int \<Rightarrow> int \<Rightarrow> pydict" where
  "harness_enqueue_body secret task_type priority count_tasks =
     [(''admin_secret'', PStr secret), (''task_type'', PStr task_type), (''parameters'', PDict [(''n'', PInt 1000)]),
      (''priority'', PInt priority), (''count'', PInt count_tasks)]"

definition harness_enqueue :: "int \<Rightarrow> http_reply \<Rightarrow> ending + unit" where
  "harness_enqueue count_tasks r = (case answered r of
      Inl e \<Rightarrow> Inl e
    | Inr result \<Rightarrow> if dict_get result ''count'' = PInt count_tasks then Inr () else Inl (Exit ''enqueue asked for another count''))"

text \<open>
  \<open>body["depth"]\<close>, as the number it is in every answer of the coordinator; anything else is
  taken for something that cannot be subtracted.
\<close>

definition depth_value :: "pydict \<Rightarrow> ending + int" where
  "depth_value body = (case map_of body ''depth'' of
      None \<Rightarrow> Inl (Died KeyError)
    | Some (PInt n) \<Rightarrow> Inr n
    | Some _ \<Rightarrow> Inl (Died TypeError))"

definition harness_register :: "http_reply \<Rightarrow> ending + pyval" where
  "harness_register r = (case answered r of
      Inl e \<Rightarrow> Inl e
    | Inr result \<Rightarrow> (case map_of result ''worker_id'' of None \<Rightarrow> Inl (Died KeyError) | Some v \<Rightarrow> Inr v))"

subsection \<open>The claim loops\<close>

record drain_state =
  dn_claimed :: "pyval list"
  dn_by_instance :: "(pyval \<times> int) list"
  dn_by_target :: "(string \<times> int) list"
  dn_errors :: "string list"

definition drain_start :: drain_state where
  "drain_start = \<lparr>dn_claimed = [], dn_by_instance = [], dn_by_target = [], dn_errors = []\<rparr>"

text \<open>
  \<open>claimed.extend(task["task_id"] for task in tasks)\<close>: what was appended, and whether the
  generator came to its end; an item that raises leaves what came before it in the list.
\<close>

fun take_ids :: "pyval list \<Rightarrow> pyval list \<times> bool" where
  "take_ids [] = ([], True)"
| "take_ids (PDict task # tasks) = (case map_of task ''task_id'' of
      None \<Rightarrow> ([], False)
    | Some v \<Rightarrow> (let (ids, done) = take_ids tasks in (v # ids, done)))"
| "take_ids (_ # tasks) = ([], False)"

fun hashable :: "pyval \<Rightarrow> bool" where
  "hashable (PList _) = False"
| "hashable (PDict _) = False"
| "hashable _ = True"

definition add_count :: "'k \<Rightarrow> int \<Rightarrow> ('k \<times> int) list \<Rightarrow> ('k \<times> int) list" where
  "add_count k n xs = AList.update k ((case map_of xs k of None \<Rightarrow> 0 | Some m \<Rightarrow> m) + n) xs"

text \<open>
  One turn of a loop: whether it goes on, and the shared books. Only a \<open>SystemExit\<close> is
  booked as an error; every other exception ends the thread and leaves no trace.
\<close>

definition loop_turn :: "string \<Rightarrow> http_reply \<Rightarrow> drain_state \<Rightarrow> bool \<times> drain_state" where
  "loop_turn base r st = (case r of
      HttpFault m \<Rightarrow> (False, st\<lparr>dn_errors := dn_errors st @ [m]\<rparr>)
    | Broken _ \<Rightarrow> (False, st)
    | Served result \<Rightarrow>
        let tasks = py_or (dict_get result ''tasks'') (PList []);
            instance_id = dict_get_default result ''coordinator_instance'' (PStr ''unknown'')
        in if \<not> truthy tasks then (False, st)
           else (case tasks of
               PList ts \<Rightarrow>
                 (let (ids, done) = take_ids ts; st1 = st\<lparr>dn_claimed := dn_claimed st @ ids\<rparr>
                  in if done \<and> hashable instance_id
                     then (True, st1\<lparr>dn_by_instance := add_count instance_id (int (length ts)) (dn_by_instance st),
                        dn_by_target := add_count base (int (length ts)) (dn_by_target st)\<rparr>)
                     else (False, st1))
             | _ \<Rightarrow> (False, st)))"

text \<open>
  The threads: loop \<open>i\<close> asks the \<open>i\<close>-th target, round robin. An event is an answer that
  arrived at a loop, in the order in which the loops take the lock; a loop that ended takes
  no further answers.
\<close>

definition drain_event :: "string list \<Rightarrow> nat \<times> http_reply \<Rightarrow> nat set \<times> drain_state \<Rightarrow> nat set \<times> drain_state" where
  "drain_event bases ev s = (case ev of (i, r) \<Rightarrow>
     if i \<notin> fst s then s
     else (let (goes_on, st) = loop_turn (bases ! (i mod length bases)) r (snd s)
           in (if goes_on then fst s else fst s - {i}, st)))"

definition drain :: "string list \<Rightarrow> int \<Rightarrow> (nat \<times> http_reply) list \<Rightarrow> nat set \<times> drain_state" where
  "drain bases dequeuers events = fold (drain_event bases) events ({..<nat dequeuers}, drain_start)"

record claim_report =
  dr_claimed :: int
  dr_unique :: int
  dr_duplicates :: int
  dr_by_instance :: "(pyval \<times> int) list"
  dr_by_target :: "(string \<times> int) list"
  dr_seconds :: rat
  dr_per_second :: "rat option"
  dr_errors :: "string list"

definition drain_figures :: "rat \<Rightarrow> drain_state \<Rightarrow> claim_report" where
  "drain_figures elapsed st =
     (let unique = card (set (dn_claimed st))
      in \<lparr>dr_claimed = int (length (dn_claimed st)), dr_unique = int unique,
          dr_duplicates = int (length (dn_claimed st)) - int unique,
          dr_by_instance = dn_by_instance st, dr_by_target = dn_by_target st,
          dr_seconds = round_to 3 elapsed,
          dr_per_second = (if 0 < elapsed then Some (round_to 1 (of_nat (length (dn_claimed st)) / elapsed)) else None),
          dr_errors = dn_errors st\<rparr>)"

subsection \<open>The whole run\<close>

definition queue_checks :: "int \<Rightarrow> int \<Rightarrow> int \<Rightarrow> int \<Rightarrow> claim_report \<Rightarrow> checks" where
  "queue_checks requested before after_enqueue after_drain result =
     [(''enqueue_depth_matches_request'', after_enqueue - before = requested),
      (''every_task_claimed'', dr_claimed result = requested + before),
      (''no_duplicate_claims'', dr_duplicates result = 0),
      (''queue_drained_to_empty'', after_drain = 0),
      (''no_request_errors'', dr_errors result = []),
      (''more_than_one_instance_served'', 1 < length (dr_by_instance result))]"

text \<open>The spread over the instances is reported and does not fail the run.\<close>

definition fatal_checks :: "checks \<Rightarrow> checks" where
  "fatal_checks cs = filter (\<lambda>(k, _). k \<noteq> ''more_than_one_instance_served'') cs"

text \<open>
  \<open>verify\<close>: the answers in the order in which they are asked for; the first that ends the
  program ends the run. A thread that never ends keeps \<open>join\<close> waiting: then there is no
  verdict.
\<close>

datatype verdict = Waiting_for_threads | Ended ending | Verdict int

definition verify ::
  "string list \<Rightarrow> int \<Rightarrow> int \<Rightarrow> http_reply \<Rightarrow> http_reply \<Rightarrow> http_reply \<Rightarrow> http_reply
     \<Rightarrow> (nat \<times> http_reply) list \<Rightarrow> rat \<Rightarrow> http_reply \<Rightarrow> verdict" where
  "verify bases dequeuers requested depth0 enq depth1 reg events elapsed depth2 =
     (case answered depth0 of Inl e \<Rightarrow> Ended e | Inr body0 \<Rightarrow>
     (case harness_enqueue requested enq of Inl e \<Rightarrow> Ended e | Inr _ \<Rightarrow>
     (case answered depth1 of Inl e \<Rightarrow> Ended e | Inr body1 \<Rightarrow>
     (case harness_register reg of Inl e \<Rightarrow> Ended e | Inr _ \<Rightarrow>
     (let (live, st) = drain bases dequeuers events
      in if live \<noteq> {} then Waiting_for_threads
         else (case answered depth2 of Inl e \<Rightarrow> Ended e | Inr body2 \<Rightarrow>
              (case depth_value body1 of Inl e \<Rightarrow> Ended e | Inr after_enqueue \<Rightarrow>
              (case depth_value body0 of Inl e \<Rightarrow> Ended e | Inr before \<Rightarrow>
              (case depth_value body2 of Inl e \<Rightarrow> Ended e | Inr after_drain \<Rightarrow>
           Verdict (exit_code (fatal_checks
             (queue_checks requested before after_enqueue after_drain (drain_figures elapsed st)))))))))))))"

text \<open>The targets and the two credentials, from the environment; None is the early exit with code 2.\<close>

definition rstrip_slash :: "string \<Rightarrow> string" where
  "rstrip_slash s = rev (dropWhile (\<lambda>ch. ch = CHR ''/'') (rev s))"

definition env_or :: "(string \<Rightarrow> string option) \<Rightarrow> string \<Rightarrow> string \<Rightarrow> string" where
  "env_or env k dflt = (case env k of None \<Rightarrow> dflt | Some [] \<Rightarrow> dflt | Some s \<Rightarrow> s)"

definition harness_targets :: "(string \<Rightarrow> string option) \<Rightarrow> (string list \<times> string \<times> string) option" where
  "harness_targets env =
     (let urls = (case env ''COORDINATOR_URL'' of None \<Rightarrow> [] | Some s \<Rightarrow> s);
          bases = map (\<lambda>u. rstrip_slash (strip_by is_space u))
            (filter (\<lambda>u. strip_by is_space u \<noteq> []) (split_comma urls));
          secret = env_or env ''ADMIN_SECRET'' (env_or env ''ENROLLMENT_SECRET'' []);
          enrollment = env_or env ''ENROLLMENT_SECRET'' secret
      in if bases = [] \<or> secret = [] then None else Some (bases, secret, enrollment))"

end
