(* ===== verification/QueueHarnessProperties.thy ===== *)
theory QueueHarnessProperties
  imports QueueHarness OperatorProperties QueueProperties SystemProperties ReachedExamples
begin

text \<open>
  The claim loops of the harness against the claim endpoint of the coordinator: how often a
  task can be handed out in one drain, and what the verdict does not see.
\<close>

subsection \<open>What a loop books\<close>

definition reply_ids :: "http_reply \<Rightarrow> pyval list" where
  "reply_ids r = (case r of Served result \<Rightarrow>
      (case py_or (dict_get result ''tasks'') (PList []) of PList ts \<Rightarrow> fst (take_ids ts) | _ \<Rightarrow> []) | _ \<Rightarrow> [])"

lemma loop_turn_claimed:
  "dn_claimed (snd (loop_turn base r st)) = dn_claimed st @ reply_ids r"
  by (auto simp: loop_turn_def reply_ids_def Let_def split: http_reply.splits pyval.splits prod.splits)

lemma drain_claimed:
  "count_list (dn_claimed (snd (fold (drain_event bases) events s))) v
     \<le> count_list (dn_claimed (snd s)) v + (\<Sum>(i, r) \<leftarrow> events. count_list (reply_ids r) v)"
proof (induction events arbitrary: s)
  case (Cons ev events)
  obtain i r where ev: "ev = (i, r)" by (cases ev)
  have "count_list (dn_claimed (snd (drain_event bases ev s))) v \<le> count_list (dn_claimed (snd s)) v + count_list (reply_ids r) v"
    using loop_turn_claimed [of "bases ! (i mod length bases)" r "snd s"]
    by (auto simp: ev drain_event_def split: prod.splits)
  with Cons.IH [of "drain_event bases ev s"] show ?case by (simp add: ev)
qed simp

subsection \<open>What the endpoint answers\<close>

text \<open>An answer of the claim endpoint as the harness meets it: a status from 400 on is an HTTP error.\<close>

definition claim_reply ::
  "(int \<Rightarrow> string) \<Rightarrow> settings \<Rightarrow> secrets \<Rightarrow> (time \<Rightarrow> string) \<Rightarrow> (exn \<Rightarrow> string) \<Rightarrow> string \<Rightarrow> string \<Rightarrow> string \<Rightarrow> int
     \<Rightarrow> uuid set \<Rightarrow> time \<Rightarrow> gate \<Rightarrow> http_reply \<times> gate" where
  "claim_reply line c sc fmt msg inst secret worker_id limit locked now g =
     (case dequeue_tasks c sc fmt msg inst secret worker_id limit locked now g of
        (Inl e, h) \<Rightarrow> (HttpFault (line 500), h)
      | (Inr p, h) \<Rightarrow> (if 400 \<le> re_status p then HttpFault (line (re_status p)) else Served (re_body p), h))"

lemma take_ids_claimed:
  "take_ids (map (\<lambda>t. PDict (claimed_item fmt t)) rows) = (map (\<lambda>t. PStr (uuid_str (tk_id t))) rows, True)"
  by (induction rows) (auto simp: claimed_item_def)

lemma claim_reply_cases:
  assumes "claim_reply line c sc fmt msg inst secret worker_id limit locked now g = (r, h)"
  obtains (nothing) "reply_ids r = []" "gt_db h = gt_db g"
  | (claimed) w rows where "dequeue c w limit (cf_dequeue_max c) None locked now (gt_db g) = Inr (rows, gt_db h)"
      "reply_ids r = map (\<lambda>t. PStr (uuid_str (tk_id t))) rows"
proof -
  have ids: "reply_ids (Served [(''count'', n), (''tasks'', PList (map (\<lambda>t. PDict (claimed_item fmt t)) rows)), x])
      = map (\<lambda>t. PStr (uuid_str (tk_id t))) rows" for n rows x
    using take_ids_claimed [of fmt rows] by (cases rows) (auto simp: reply_ids_def dict_get_def py_or_def)
  have none: "reply_ids (HttpFault m) = []" for m by (simp add: reply_ids_def)
  have "(reply_ids r = [] \<and> gt_db h = gt_db g)
    \<or> (\<exists>w rows. dequeue c w limit (cf_dequeue_max c) None locked now (gt_db g) = Inr (rows, gt_db h)
         \<and> reply_ids r = map (\<lambda>t. PStr (uuid_str (tk_id t))) rows)"
    using assms
    by (auto simp: claim_reply_def dequeue_tasks_def bad_request_def ok_body_def refuse_def reply_def ids none
        split: sum.splits bool.splits option.splits if_splits prod.splits; blast)
  then show thesis
  proof (elim disjE exE conjE)
    assume "reply_ids r = []" "gt_db h = gt_db g"
    then show thesis by (rule nothing)
  next
    fix w rows
    assume "dequeue c w limit (cf_dequeue_max c) None locked now (gt_db g) = Inr (rows, gt_db h)"
      "reply_ids r = map (\<lambda>t. PStr (uuid_str (tk_id t))) rows"
    then show thesis by (rule claimed)
  qed
qed

lemma count_list_distinct: "distinct xs \<Longrightarrow> count_list xs x \<le> 1"
  by (induction xs) auto

subsection \<open>How often a task can be handed out\<close>

text \<open>
  The attempt of a task, and one more once it has left the queue: no step lowers this number,
  and a claim raises it, since a claim needs a queued task and only a new attempt puts it back
  into the queue.
\<close>

definition handed :: "db \<Rightarrow> uuid \<Rightarrow> int" where
  "handed d i = (case find_task d i of None \<Rightarrow> 0
     | Some t \<Rightarrow> tk_attempt t + (if tk_status t = QUEUED then 0 else 1))"

lemma row_step_handed:
  "row_step c d t u \<Longrightarrow> tk_attempt t + (if tk_status t = QUEUED then 0 else 1) \<le> tk_attempt u + (if tk_status u = QUEUED then 0 else (1 :: int))"
  by (erule row_stepE) (auto simp: claim_stamp_def status_stamp_def start_stamp_def settle_def Let_def
      complete_stamp_def cancel_stamp_def unlink_results_def reclaim_stamp_def renew_stamp_def shorten_stamp_def
      live_status_def)

lemma handed_step:
  assumes "step c d e" "db_ok d"
  shows "handed d i \<le> handed e i"
proof (cases "find_task d i")
  case None
  have "0 \<le> handed e i"
    using db_ok_find [OF step_ok [OF assms, THEN conjunct1]] by (auto simp: handed_def task_ok_def split: option.splits)
  with None show ?thesis by (simp add: handed_def)
next
  case (Some t)
  from row_of_step [OF assms Some] Some show ?thesis by (auto simp: handed_def dest: row_step_handed)
qed

lemma handed_steps:
  assumes "(step c)\<^sup>*\<^sup>* d e" "db_ok d"
  shows "handed d i \<le> handed e i"
  using assms(1)
proof (induction rule: rtranclp_induct)
  case (step e f)
  from handed_step [OF step.hyps(2) steps_ok [OF step.hyps(1) assms(2), THEN conjunct1], of i] step.IH
  show ?case by simp
qed simp

lemma handed_claim:
  assumes ok: "db_ok d" and dq: "dequeue c w limit mx types locked now d = Inr (rows, e)"
  shows "handed d i + int (count_list (map (\<lambda>t. PStr (uuid_str (tk_id t))) rows) (PStr (uuid_str i))) \<le> handed e i"
proof -
  have inj: "count_list (map (\<lambda>t. PStr (uuid_str (tk_id t))) xs) (PStr (uuid_str i)) = count_list (map tk_id xs) i" for xs
    by (induction xs) auto
  show ?thesis
  proof (cases "i \<in> tk_id ` set rows")
    case True
    then obtain t where t: "t \<in> set (claim_list c w limit types locked now d)" "tk_id t = i"
      unfolding dequeue_ids [OF dq] by blast
    note mem = claim_list_mem [OF t(1)]
    have "distinct (map tk_id rows)"
      using claim_list_distinct [OF ok] by (simp add: dequeue_Inr(1) [OF dq] comp_def claim_stamp_def)
    then have "count_list (map tk_id rows) i \<le> 1" by (rule count_list_distinct)
    moreover have "find_task d i = Some t" using find_task_unique [OF db_ok_distinct [OF ok]] mem t(2) by blast
    moreover have "tk_status t = QUEUED" using mem by (simp add: claimable_def)
    moreover have "find_task e i = Some (claim_stamp c d w now t)"
      using dequeue_find [OF ok dq, of t] True mem t(2) by simp
    ultimately show ?thesis by (simp add: handed_def inj claim_stamp_def)
  next
    case False
    then have "count_list (map tk_id rows) i = 0" unfolding count_list_0_iff by auto
    with handed_step [OF dequeue_step [OF dq] ok, of i] show ?thesis by (simp add: inj)
  qed
qed

lemma reply_handed:
  assumes "claim_reply line c sc fmt msg inst secret worker_id limit locked now g = (r, h)" "db_ok (gt_db g)"
  shows "handed (gt_db g) i + int (count_list (reply_ids r) (PStr (uuid_str i))) \<le> handed (gt_db h) i"
    and "set (reply_ids r) \<subseteq> range (\<lambda>i. PStr (uuid_str i))"
    and "(step c)\<^sup>*\<^sup>* (gt_db g) (gt_db h)"
  using assms(1)
  by (cases rule: claim_reply_cases; auto dest: handed_claim [OF assms(2)] dequeue_step)+

subsection \<open>A drain while the coordinator goes on\<close>

text \<open>
  Claims \<open>0 .. n - 1\<close> in the order in which the database served them; between two of them any
  other statements run.
\<close>

definition served_claims ::
  "settings \<Rightarrow> (nat \<Rightarrow> gate) \<Rightarrow> (nat \<Rightarrow> gate) \<Rightarrow> (nat \<Rightarrow> http_reply) \<Rightarrow> bool" where
  "served_claims c G H r \<longleftrightarrow> (\<forall>k. (\<exists>line sc fmt msg inst secret worker_id limit locked now.
     claim_reply line c sc fmt msg inst secret worker_id limit locked now (G k) = (r k, H k))
     \<and> (step c)\<^sup>*\<^sup>* (gt_db (H k)) (gt_db (G (Suc k))))"

lemma served_claims_at:
  assumes "served_claims c G H r" and ok: "db_ok (gt_db (G k))"
  shows "(step c)\<^sup>*\<^sup>* (gt_db (G k)) (gt_db (G (Suc k)))"
    and "handed (gt_db (G k)) i + int (count_list (reply_ids (r k)) (PStr (uuid_str i))) \<le> handed (gt_db (G (Suc k))) i"
    and "set (reply_ids (r k)) \<subseteq> range (\<lambda>i. PStr (uuid_str i))"
proof -
  have s: "(step c)\<^sup>*\<^sup>* (gt_db (H k)) (gt_db (G (Suc k)))"
    and "\<exists>line sc fmt msg inst secret worker_id limit locked now.
      claim_reply line c sc fmt msg inst secret worker_id limit locked now (G k) = (r k, H k)"
    using assms(1) unfolding served_claims_def by simp_all
  then obtain line sc fmt msg inst secret worker_id limit locked now where
    a: "claim_reply line c sc fmt msg inst secret worker_id limit locked now (G k) = (r k, H k)"
    by (elim exE) (rule that)
  note answered = reply_handed [OF a ok]
  have "db_ok (gt_db (H k))" using steps_ok [OF answered(3) ok] by simp
  from handed_steps [OF s this, of i] answered(1) [of i]
  show "handed (gt_db (G k)) i + int (count_list (reply_ids (r k)) (PStr (uuid_str i))) \<le> handed (gt_db (G (Suc k))) i"
    by linarith
  show "(step c)\<^sup>*\<^sup>* (gt_db (G k)) (gt_db (G (Suc k)))" by (rule rtranclp_trans [OF answered(3) s])
  show "set (reply_ids (r k)) \<subseteq> range (\<lambda>i. PStr (uuid_str i))" by (rule answered(2))
qed

lemma served_claims_ok:
  assumes "reachable c (gt_db (G 0))" "served_claims c G H r"
  shows "db_ok (gt_db (G k))"
proof -
  have "reachable c (gt_db (G k))"
  proof (induction k)
    case (Suc k)
    from reachable_steps [OF Suc.IH served_claims_at(1) [OF assms(2) reachable_ok [OF Suc.IH]]] show ?case .
  qed (rule assms(1))
  then show ?thesis by (rule reachable_ok)
qed

lemma served_claims_handed:
  assumes "reachable c (gt_db (G 0))" "served_claims c G H r"
  shows "handed (gt_db (G 0)) i + (\<Sum>k \<leftarrow> [0..<n]. int (count_list (reply_ids (r k)) (PStr (uuid_str i)))) \<le> handed (gt_db (G n)) i"
proof (induction n)
  case (Suc n)
  from served_claims_at(2) [OF assms(2) served_claims_ok [OF assms], of n i] Suc.IH show ?case by simp
qed simp

lemma drain_ids:
  "set (dn_claimed (snd (fold (drain_event bases) events s))) \<subseteq> set (dn_claimed (snd s)) \<union> (\<Union>(i, r) \<in> set events. set (reply_ids r))"
proof
  fix v assume "v \<in> set (dn_claimed (snd (fold (drain_event bases) events s)))"
  then have "0 < count_list (dn_claimed (snd (fold (drain_event bases) events s))) v"
    by (metis count_list_0_iff neq0_conv)
  then have "0 < count_list (dn_claimed (snd s)) v + (\<Sum>(i, r) \<leftarrow> events. count_list (reply_ids r) v)"
    using drain_claimed [of bases events s v] by linarith
  moreover have "(\<Sum>(i, r) \<leftarrow> events. count_list (reply_ids r) v) = 0" if "v \<notin> (\<Union>(i, r) \<in> set events. set (reply_ids r))"
    using that by (induction events) (auto simp: split_def)
  ultimately show "v \<in> set (dn_claimed (snd s)) \<union> (\<Union>(i, r) \<in> set events. set (reply_ids r))"
    by (metis UnI1 UnI2 add_0 add_0_right count_notin less_irrefl)
qed

definition attempt_of :: "db \<Rightarrow> uuid \<Rightarrow> int" where
  "attempt_of d i = (case find_task d i of None \<Rightarrow> 0 | Some t \<Rightarrow> tk_attempt t)"

lemma handed_attempt: "attempt_of d i \<le> handed d i" "handed d i \<le> attempt_of d i + 1"
  by (simp_all add: attempt_of_def handed_def split: option.splits)

lemma distinct_by_counts:
  assumes "\<And>v. v \<in> set xs \<Longrightarrow> count_list xs v \<le> 1"
  shows "distinct xs"
  using assms
proof (induction xs)
  case (Cons x xs)
  have "count_list xs v \<le> 1" if "v \<in> set xs" for v using Cons.prems [of v] that by (auto split: if_splits)
  moreover have "x \<notin> set xs" using Cons.prems [of x] count_list_0_iff [of xs x] by simp
  ultimately show ?case using Cons.IH by simp
qed simp

lemma sum_list_submset:
  fixes f :: "'a \<Rightarrow> nat"
  assumes "mset xs \<subseteq># mset ys"
  shows "sum_list (map f xs) \<le> sum_list (map f ys)"
proof -
  obtain M where "mset ys = mset xs + M" using assms by (auto simp: mset_subset_eq_exists_conv)
  then have "sum_mset (image_mset f (mset ys)) = sum_mset (image_mset f (mset xs)) + sum_mset (image_mset f M)" by simp
  then show ?thesis by (simp add: sum_mset_sum_list flip: mset_map)
qed

subsection \<open>A drained queue\<close>

definition ex_reply :: "nat \<Rightarrow> http_reply" where
  "ex_reply k = (if k = 0 then Served [(''count'', PInt 1),
     (''tasks'', PList [PDict (claimed_item (\<lambda>_. ''then'') (claim_stamp default_settings ex_submitted 1 40 (ex_task 10 5)))]),
     (''coordinator_instance'', PStr ''pod'')] else HttpFault ''HTTP'')"

definition ex_gate :: "nat \<Rightarrow> gate" where
  "ex_gate k = (if k = 0 then gate_start ex_submitted else (gate_start ex_submitted)\<lparr>gt_db := ex_claimed\<rparr>)"

lemma ex_gate_simps [simp]: "gt_db (ex_gate 0) = ex_submitted" "gt_db (ex_gate (Suc k)) = ex_claimed"
  by (simp_all add: ex_gate_def gate_start_def)

lemma ex_dequeue_max: "cf_dequeue_max default_settings = 100" by (simp add: default_settings_def)

lemma ex_served: "served_claims default_settings ex_gate (\<lambda>k. ex_gate (Suc k)) ex_reply"
proof -
  have 1: "claim_reply (\<lambda>_. ''HTTP'') default_settings ex_secrets (\<lambda>_. ''then'') (\<lambda>_. ''no'') ''pod'' ''root''
     (uuid_str 1) 1 {} 40 (ex_gate 0) = (ex_reply 0, ex_gate 1)"
    using ex_hand_out [folded ex_dequeue_max] by (simp add: claim_reply_def dequeue_tasks_def verify_admin_secret_def ex_secrets_def ex_guess
        parse_uuid_str bad_request_def ok_body_def ex_reply_def ex_gate_def gate_start_def)
  have 2: "claim_reply (\<lambda>_. ''HTTP'') default_settings ex_secrets (\<lambda>_. ''then'') (\<lambda>_. ''no'') ''pod'' ''guess''
     (uuid_str 1) 1 {} 40 (ex_gate (Suc k)) = (ex_reply (Suc k), ex_gate (Suc (Suc k)))" for k
    by (simp add: claim_reply_def dequeue_tasks_def verify_admin_secret_def ex_secrets_def ex_guess
        ex_reply_def ex_gate_def refuse_def reply_def)
  show ?thesis
    unfolding served_claims_def
  proof (intro allI conjI)
    fix k
    show "\<exists>line sc fmt msg inst secret worker_id limit locked now.
      claim_reply line default_settings sc fmt msg inst secret worker_id limit locked now (ex_gate k) = (ex_reply k, ex_gate (Suc k))"
    proof (cases k)
      case 0
      with 1 show ?thesis by (intro exI) simp
    next
      case (Suc j)
      with 2 [of j] show ?thesis by (intro exI) simp
    qed
    show "(step default_settings)\<^sup>*\<^sup>* (gt_db (ex_gate (Suc k))) (gt_db (ex_gate (Suc k)))" by simp
  qed
qed

text \<open>
  C39: A drain of the queue by any number of concurrent loops, against the coordinator at
  work, books each task at most once per attempt: no more often than its attempt number rose
  during the drain, and once more. In particular, when no attempt was given up meanwhile, the
  harness reports no duplicate, in whatever order the loops book their answers.
\<close>

theorem drain_claims_per_attempt:
  fixes bases :: "string list" and dequeuers :: int
  assumes "reachable c (gt_db (G 0))" "served_claims c G H r"
    and "mset events \<subseteq># mset (map (\<lambda>k. (who k, r k)) [0..<n])"
  defines "st \<equiv> snd (drain bases dequeuers events)"
  shows "(\<forall>i. int (count_list (dn_claimed st) (PStr (uuid_str i)))
        \<le> attempt_of (gt_db (G n)) i - attempt_of (gt_db (G 0)) i + 1)
    \<and> ((\<forall>i. attempt_of (gt_db (G n)) i = attempt_of (gt_db (G 0)) i) \<longrightarrow> dr_duplicates (drain_figures elapsed st) = 0)"
proof -
  have bound: "int (count_list (dn_claimed st) (PStr (uuid_str i)))
      \<le> attempt_of (gt_db (G n)) i - attempt_of (gt_db (G 0)) i + 1" for i
  proof -
    let ?v = "PStr (uuid_str i)"
    have "count_list (dn_claimed st) ?v \<le> (\<Sum>(_, r) \<leftarrow> events. count_list (reply_ids r) ?v)"
      using drain_claimed [of bases events "({..<nat dequeuers}, drain_start)" ?v]
      by (simp add: st_def drain_def drain_start_def)
    also have "\<dots> \<le> (\<Sum>(_, r) \<leftarrow> map (\<lambda>k. (who k, r k)) [0..<n]. count_list (reply_ids r) ?v)"
      by (rule sum_list_submset [OF assms(3)])
    also have "\<dots> = (\<Sum>k \<leftarrow> [0..<n]. count_list (reply_ids (r k)) ?v)"
      by (simp add: comp_def)
    finally have "int (count_list (dn_claimed st) ?v) \<le> int (\<Sum>k \<leftarrow> [0..<n]. count_list (reply_ids (r k)) ?v)"
      by simp
    also have "\<dots> = (\<Sum>k \<leftarrow> [0..<n]. int (count_list (reply_ids (r k)) ?v))"
      by (induction n) simp_all
    finally have "int (count_list (dn_claimed st) ?v) \<le> (\<Sum>k \<leftarrow> [0..<n]. int (count_list (reply_ids (r k)) ?v))" .
    with served_claims_handed [OF assms(1,2), of i n] handed_attempt(1) [of "gt_db (G 0)" i]
      handed_attempt(2) [of "gt_db (G n)" i] show ?thesis by linarith
  qed
  have "distinct (dn_claimed st)" if same: "\<forall>i. attempt_of (gt_db (G n)) i = attempt_of (gt_db (G 0)) i"
  proof (rule distinct_by_counts)
    fix v assume "v \<in> set (dn_claimed st)"
    then obtain e where "e \<in> set events" "v \<in> set (reply_ids (snd e))"
      using drain_ids [of bases events "({..<nat dequeuers}, drain_start)"]
      by (auto simp: st_def drain_def drain_start_def)
    moreover have "set events \<subseteq> set (map (\<lambda>k. (who k, r k)) [0..<n])"
      using set_mset_mono [OF assms(3)] by simp
    ultimately obtain k where "v \<in> set (reply_ids (r k))" by auto
    then obtain i where "v = PStr (uuid_str i)"
      using served_claims_at(3) [OF assms(2) served_claims_ok [OF assms(1,2)]] by blast
    with bound [of i] same show "count_list (dn_claimed st) v \<le> 1" by simp
  qed
  then show ?thesis using bound by (simp add: drain_figures_def Let_def distinct_card)
qed

lemma ex_drain_books: "dn_claimed (snd (drain [''base''] 2 [(0, ex_reply 0), (1, ex_reply 1)])) = [PStr (uuid_str 10)]"
  by (simp add: drain_def drain_event_def loop_turn_def drain_start_def ex_reply_def dict_get_def dict_get_default_def
      py_or_def claimed_item_def claim_stamp_def lessThan_Suc numeral_2_eq_2)

theorem drain_claims_per_attempt_witness:
  "dn_claimed (snd (drain [''base''] 2 [(0, ex_reply 0), (1, ex_reply 1)])) = [PStr (uuid_str 10)]
   \<and> dr_duplicates (drain_figures 1 (snd (drain [''base''] 2 [(0, ex_reply 0), (1, ex_reply 1)]))) = 0"
proof -
  have "\<forall>i. attempt_of (gt_db (ex_gate 2)) i = attempt_of (gt_db (ex_gate 0)) i"
    by (simp add: numeral_2_eq_2 attempt_of_def ex_claimed_def find_task_map_tasks claim_stamp_def split: option.splits)
  with drain_claims_per_attempt [OF _ ex_served, of "[(0, ex_reply 0), (1, ex_reply 1)]" "\<lambda>k. k" 2 "[''base'']" 2 1]
  show ?thesis using ex_drain_books by (simp add: ex_submitted_reachable numeral_2_eq_2)
qed

subsection \<open>What the verdict does not see\<close>

text \<open>
  A loop whose connection breaks leaves no trace: the other loop empties the queue, and the
  run passes, its check for request errors included.
\<close>

lemma broken_loop_passes:
  "verify [''base''] 2 1 (Served [(''depth'', PInt 0)]) (Served [(''count'', PInt 1)]) (Served [(''depth'', PInt 1)])
     (Served [(''worker_id'', PStr ''w'')])
     [(0, Broken ValueError),
      (1, Served [(''tasks'', PList [PDict [(''task_id'', PStr ''t'')]]), (''coordinator_instance'', PStr ''pod'')]),
      (1, Served [(''tasks'', PList [])])]
     1 (Served [(''depth'', PInt 0)]) = Verdict 0"
  by (simp add: verify_def depth_value_def harness_enqueue_def harness_register_def answered_def drain_def drain_event_def
      loop_turn_def drain_start_def dict_get_def dict_get_default_def py_or_def add_count_def lessThan_Suc drain_figures_def
      exit_code_def failed_checks_def fatal_checks_def queue_checks_def numeral_2_eq_2) blast

end
