(* ===== verification/FanoutHarness.thy ===== *)
theory FanoutHarness
  imports Loadtest
begin

text \<open>
  \<open>scripts/assignment_harness.py\<close>: the worker that acknowledges what it is given, or takes a
  task and vanishes, and the verdicts of the fan-out and of the stranded run.
\<close>

subsection \<open>The worker\<close>

record harness_worker =
  hw_id :: string
  hw_max :: int
  hw_types :: "string list"
  hw_ack :: bool
  hw_received :: "pyval list"
  hw_acked :: "pyval list"

definition ALL_TYPES :: "string list" where
  "ALL_TYPES = [''count_to_n'', ''hash_rounds'', ''sleep'', ''opaque_payload'']"

definition new_harness_worker :: "int \<Rightarrow> string list \<Rightarrow> bool \<Rightarrow> string \<Rightarrow> harness_worker" where
  "new_harness_worker max_concurrent types acks worker_id = \<lparr>hw_id = worker_id, hw_max = max_concurrent,
     hw_types = types, hw_ack = acks, hw_received = [], hw_acked = []\<rparr>"

definition harness_frame :: "string \<Rightarrow> string \<Rightarrow> pyval \<Rightarrow> pydict \<Rightarrow> pydict" where
  "harness_frame kind worker_id corr payload = [(''message_type'', PStr kind), (''protocol_version'', PStr ''1.0''),
     (''worker_id'', PStr worker_id), (''correlation_id'', corr), (''session_epoch'', PInt 0), (''timestamp'', PStr []),
     (''payload'', PDict payload)]"

definition harness_hello :: "string \<Rightarrow> harness_worker \<Rightarrow> pydict" where
  "harness_hello corr w = harness_frame ''hello'' (hw_id w) (PStr corr)
     [(''agent_version'', PStr ''assignment-harness''), (''max_concurrent'', PInt (hw_max w)),
      (''supported_task_types'', PList (map PStr (hw_types w)))]"

text \<open>\<open>message["payload"]["task_id"]\<close>\<close>

definition assigned_id :: "pydict \<Rightarrow> exn + pyval" where
  "assigned_id msg = (case map_of msg ''payload'' of
      None \<Rightarrow> Inl KeyError
    | Some (PDict p) \<Rightarrow> (case map_of p ''task_id'' of None \<Rightarrow> Inl KeyError | Some v \<Rightarrow> Inr v)
    | Some _ \<Rightarrow> Inl TypeError)"

text \<open>One message: whether the worker vanishes, what it sends, and its books.\<close>

definition harness_message :: "nat \<Rightarrow> pydict \<Rightarrow> harness_worker \<Rightarrow> exn + bool \<times> pydict list \<times> harness_worker" where
  "harness_message strand_after msg w =
     (if dict_get msg ''message_type'' = PStr ''ping''
      then Inr (False, [harness_frame ''pong'' (hw_id w) (dict_get msg ''correlation_id'') []], w)
      else if dict_get msg ''message_type'' = PStr ''task_assign''
      then (case assigned_id msg of
          Inl e \<Rightarrow> Inl e
        | Inr i \<Rightarrow>
            let w1 = w\<lparr>hw_received := hw_received w @ [i]\<rparr>
            in if 0 < strand_after \<and> strand_after \<le> length (hw_received w1) then Inr (True, [], w1)
               else if hw_ack w
               then Inr (False, [harness_frame ''task_ack'' (hw_id w) (dict_get msg ''correlation_id'')
                   [(''task_id'', i), (''accepted'', PBool True)]], w1\<lparr>hw_acked := hw_acked w @ [i]\<rparr>)
               else Inr (False, [], w1))
      else Inr (False, [], w))"

text \<open>The receive loop over the messages of a session: it ends when the worker vanishes or an exception leaves it.\<close>

fun harness_session :: "nat \<Rightarrow> pydict list \<Rightarrow> harness_worker \<Rightarrow> exn option \<times> pydict list \<times> harness_worker" where
  "harness_session strand_after [] w = (None, [], w)"
| "harness_session strand_after (msg # msgs) w = (case harness_message strand_after msg w of
      Inl e \<Rightarrow> (Some e, [], w)
    | Inr (vanishes, sent, w1) \<Rightarrow>
        if vanishes then (None, sent, w1)
        else (case harness_session strand_after msgs w1 of (e, more_sent, w2) \<Rightarrow> (e, sent @ more_sent, w2)))"

lemma harness_session_books:
  assumes "hw_acked w = (if hw_ack w then hw_received w else [])"
  shows "\<exists>got. hw_received (snd (snd (harness_session 0 msgs w))) = hw_received w @ got
    \<and> hw_acked (snd (snd (harness_session 0 msgs w))) = (if hw_ack w then hw_received w @ got else [])
    \<and> length (filter (\<lambda>m. dict_get m ''message_type'' = PStr ''task_ack'') (fst (snd (harness_session 0 msgs w))))
       = (if hw_ack w then length got else 0)"
  using assms
proof (induction msgs arbitrary: w)
  case (Cons msg msgs)
  show ?case
  proof (cases "harness_message 0 msg w")
    case Inl
    then show ?thesis using Cons.prems by simp
  next
    case (Inr a)
    obtain vanishes sent w1 where a: "a = (vanishes, sent, w1)" by (cases a)
    have step: "\<not> vanishes" "hw_ack w1 = hw_ack w"
      "\<exists>here. hw_received w1 = hw_received w @ here \<and> hw_acked w1 = (if hw_ack w then hw_received w @ here else [])
        \<and> length (filter (\<lambda>m. dict_get m ''message_type'' = PStr ''task_ack'') sent) = (if hw_ack w then length here else 0)"
      using Inr Cons.prems
      by (auto simp: a harness_message_def Let_def harness_frame_def dict_get_def split: sum.splits if_splits)
    then obtain here where here: "hw_received w1 = hw_received w @ here" "hw_acked w1 = (if hw_ack w then hw_received w1 else [])"
      "length (filter (\<lambda>m. dict_get m ''message_type'' = PStr ''task_ack'') sent) = (if hw_ack w then length here else 0)"
      by auto
    from Cons.IH [of w1] here(2) step(2) obtain got where
      "hw_received (snd (snd (harness_session 0 msgs w1))) = hw_received w1 @ got"
      "hw_acked (snd (snd (harness_session 0 msgs w1))) = (if hw_ack w then hw_received w1 @ got else [])"
      "length (filter (\<lambda>m. dict_get m ''message_type'' = PStr ''task_ack'') (fst (snd (harness_session 0 msgs w1))))
        = (if hw_ack w then length got else 0)" by auto
    moreover obtain e ms w2 where "harness_session 0 msgs w1 = (e, ms, w2)" by (rule prod_cases3)
    ultimately show ?thesis using here(1,3) step(1)
      by (intro exI [of _ "here @ got"]) (auto simp: Inr a)
  qed
qed simp

subsection \<open>The verdicts\<close>

definition all_received :: "harness_worker list \<Rightarrow> pyval list" where
  "all_received ws = concat (map hw_received ws)"

text \<open>
  \<open>mode_fanout\<close>: the wait ends when as many deliveries as tasks were seen or at its deadline;
  the books are read a second later, after the shutdown.
\<close>

partial_function (option) fanout_wait :: "(nat \<Rightarrow> rat) \<Rightarrow> (nat \<Rightarrow> harness_worker list) \<Rightarrow> int \<Rightarrow> rat \<Rightarrow> nat \<Rightarrow> nat option" where
  "fanout_wait clock fleet tasks deadline k =
     (if \<not> clock k < deadline then Some k
      else if tasks \<le> int (length (all_received (fleet k))) then Some k
      else fanout_wait clock fleet tasks deadline (Suc k))"

lemma fanout_wait_ends:
  assumes "deadline \<le> clock n" and "k \<le> n"
  shows "\<exists>j\<ge>k. fanout_wait clock fleet tasks deadline k = Some j \<and> j \<le> n
    \<and> (deadline \<le> clock j \<or> tasks \<le> int (length (all_received (fleet j))))"
  using assms(2)
proof (induction "n - k" arbitrary: k)
  case 0
  with assms(1) show ?case by (subst fanout_wait.simps) auto
next
  case (Suc m)
  from Suc.hyps(2) Suc.prems have "m = n - Suc k" "Suc k \<le> n" by auto
  from Suc.hyps(1) [OF this] Suc.prems show ?case
    by (subst fanout_wait.simps) (auto dest: Suc_leD)
qed

record fanout_report =
  fo_requested :: int
  fo_delivered :: nat
  fo_unique :: nat
  fo_duplicates :: nat
  fo_acknowledged :: nat
  fo_with_work :: nat
  fo_least :: nat
  fo_most :: nat
  fo_ok :: bool

definition fanout_figures :: "int \<Rightarrow> harness_worker list \<Rightarrow> fanout_report" where
  "fanout_figures tasks ws =
     (let ids = all_received ws;
          duplicates = map fst (filter (\<lambda>(_, n). 1 < n) (counter ids));
          per_worker = rev (sort (map (\<lambda>w. length (hw_received w)) ws))
      in \<lparr>fo_requested = tasks, fo_delivered = length ids, fo_unique = card (set ids), fo_duplicates = length duplicates,
          fo_acknowledged = sum_list (map (\<lambda>w. length (hw_acked w)) ws),
          fo_with_work = length (filter (\<lambda>w. hw_received w \<noteq> []) ws),
          fo_least = (if per_worker = [] then 0 else last per_worker),
          fo_most = (if per_worker = [] then 0 else hd per_worker),
          fo_ok = (int (length ids) = tasks \<and> int (card (set ids)) = tasks \<and> duplicates = [])\<rparr>)"

definition fanout_exit :: "fanout_report \<Rightarrow> int" where
  "fanout_exit r = (if fo_ok r then 0 else 1)"

text \<open>\<open>mode_stranded\<close>: None is the wait for the worker that timed out.\<close>

definition stranded_exit :: "harness_worker option \<Rightarrow> int" where
  "stranded_exit w = (case w of None \<Rightarrow> 1 | Some w \<Rightarrow> if hw_received w = [] then 1 else 0)"

lemma counter_duplicates: "filter (\<lambda>(_, n). 1 < n) (counter xs) = [] \<longleftrightarrow> distinct xs"
proof -
  have "distinct xs \<longleftrightarrow> (\<forall>x \<in> set xs. \<not> 1 < count_list xs x)"
    by (induction xs) (auto simp: count_list_0_iff)
  then show ?thesis by (auto simp: counter_def filter_empty_conv)
qed

text \<open>The fan-out passes exactly when as many deliveries as tasks were booked, all of different tasks.\<close>

lemma fanout_pass:
  "fanout_exit (fanout_figures tasks ws) = 0 \<longleftrightarrow> int (length (all_received ws)) = tasks \<and> distinct (all_received ws)"
  by (auto simp: fanout_exit_def fanout_figures_def Let_def counter_duplicates [unfolded One_nat_def] distinct_card)

text \<open>A worker told to vanish with its first task leaves exactly that task behind, unacknowledged.\<close>

lemma stranded_leaves_one:
  assumes "harness_message 1 msg (new_harness_worker n types acks i) = Inr (vanishes, sent, w)"
    and "dict_get msg ''message_type'' = PStr ''task_assign''"
  shows "vanishes \<and> sent = [] \<and> hw_acked w = [] \<and> length (hw_received w) = 1 \<and> stranded_exit (Some w) = 0"
  using assms by (auto simp: harness_message_def new_harness_worker_def stranded_exit_def Let_def split: sum.splits)

end
